(* ===== verification/Prelude.thy ===== *)
theory Prelude
  imports Complex_Main "HOL-Library.Sublist" "HOL-Library.List_Lexorder"
    "HOL-Library.Char_ord" "HOL-Library.Product_Lexorder"
begin

text \<open>
  The shared vocabulary of the development: SQL tables as lists of rows in insertion order,
  the statements the generated query layer sends to SQLite (\<open>UPDATE\<close>, \<open>DELETE\<close>, \<open>SELECT\<close>
  with \<open>ORDER BY\<close> and \<open>LIMIT\<close>) as list functions, the errors a statement can report, the
  environment of a call (its clock readings and the outcome of each statement it sends), and
  the generic lemmas every table component uses. The locale \<open>keyed_table\<close> is the
  interface between a table with a primary key and its clients; each table theory
  interprets it on its own constraint check.
\<close>

named_theorems sql_simps "rewrite rules for SQL statements over tables"
named_theorems commit_intros "facts that show a statement passes the constraint check"

subsection \<open>Errors and the environment of a call\<close>

text \<open>
  What \<open>database/sql\<close> hands back instead of a result: \<open>sql.ErrNoRows\<close>, a constraint failure
  with SQLite's message, the error of a cancelled context, or any other driver failure.
\<close>

datatype db_error =
    NoRows
  | Constraint string
  | CtxCanceled
  | DriverFault string

text \<open>
  A call reads the clock and sends statements. \<open>clk i\<close> is what the \<open>i\<close>-th reading of
  \<open>now()\<close> in the call returns (nanoseconds since the Unix epoch), \<open>flt i\<close> the failure
  of its \<open>i\<close>-th statement, \<open>None\<close> when the statement reaches the database.
\<close>

record callenv =
  clk :: "nat \<Rightarrow> int"
  flt :: "nat \<Rightarrow> db_error option"

definition calm :: "int \<Rightarrow> callenv" where
  "calm t = \<lparr>clk = (\<lambda>_. t), flt = (\<lambda>_. None)\<rparr>"

lemma calm_sel [simp]: "clk (calm t) i = t" "flt (calm t) i = None"
  by (simp_all add: calm_def)

definition run_stmt ::
  "db_error option \<Rightarrow> ('t \<Rightarrow> (db_error + 'a) \<times> 't) \<Rightarrow> 't \<Rightarrow> (db_error + 'a) \<times> 't" where
  "run_stmt f st t = (case f of Some e \<Rightarrow> (Inl e, t) | None \<Rightarrow> st t)"

lemma run_stmt_simps [simp]:
  "run_stmt None st t = st t"
  "run_stmt (Some e) st t = (Inl e, t)"
  by (simp_all add: run_stmt_def)

definition run_query :: "db_error option \<Rightarrow> ('t \<Rightarrow> db_error + 'a) \<Rightarrow> 't \<Rightarrow> db_error + 'a" where
  "run_query f q t = (case f of Some e \<Rightarrow> Inl e | None \<Rightarrow> q t)"

lemma run_query_simps [simp]:
  "run_query None q t = q t"
  "run_query (Some e) q t = Inl e"
  by (simp_all add: run_query_def)

subsection \<open>Statements over tables\<close>

definition sql_update :: "('r \<Rightarrow> bool) \<Rightarrow> ('r \<Rightarrow> 'r) \<Rightarrow> 'r list \<Rightarrow> 'r list" where
  "sql_update P f t = map (\<lambda>r. if P r then f r else r) t"

definition sql_delete :: "('r \<Rightarrow> bool) \<Rightarrow> 'r list \<Rightarrow> 'r list" where
  "sql_delete P t = filter (\<lambda>r. \<not> P r) t"

definition sql_affected :: "('r \<Rightarrow> bool) \<Rightarrow> 'r list \<Rightarrow> nat" where
  "sql_affected P t = length (filter P t)"

definition row_by :: "('r \<Rightarrow> 'k) \<Rightarrow> 'k \<Rightarrow> 'r list \<Rightarrow> 'r option" where
  "row_by key k t = find (\<lambda>r. key r = k) t"

text \<open>A negative \<open>LIMIT\<close> means no limit.\<close>

definition sql_limit :: "int \<Rightarrow> 'r list \<Rightarrow> 'r list" where
  "sql_limit n xs = (if n < 0 then xs else take (nat n) xs)"

definition row_result :: "'r option \<Rightarrow> db_error + 'r" where
  "row_result x = (case x of None \<Rightarrow> Inl NoRows | Some r \<Rightarrow> Inr r)"

lemma row_result_simps [simp]:
  "row_result None = Inl NoRows"
  "row_result (Some r) = Inr r"
  by (simp_all add: row_result_def)

subsection \<open>Lists and options\<close>

lemma find_eq_filter: "find P xs = (case filter P xs of [] \<Rightarrow> None | x # _ \<Rightarrow> Some x)"
  by (induction xs) auto

lemma row_by_SomeD: "row_by key k t = Some r \<Longrightarrow> r \<in> set t \<and> key r = k"
  by (induction t) (auto simp: row_by_def split: if_splits)

lemma row_by_None_iff: "row_by key k t = None \<longleftrightarrow> k \<notin> key ` set t"
  by (auto simp: row_by_def find_None_iff)

lemma row_by_unique: "distinct (map key t) \<Longrightarrow> r \<in> set t \<Longrightarrow> row_by key (key r) t = Some r"
  by (induction t) (auto simp: row_by_def)

lemma row_by_append:
  "row_by key k (t @ u) = (case row_by key k t of None \<Rightarrow> row_by key k u | Some r \<Rightarrow> Some r)"
  by (induction t) (auto simp: row_by_def)

lemma row_by_simps [simp]:
  "row_by key k [] = None"
  "row_by key k (r # t) = (if key r = k then Some r else row_by key k t)"
  by (simp_all add: row_by_def)

lemma length_sql_update [simp, sql_simps]: "length (sql_update P f t) = length t"
  by (simp add: sql_update_def)

lemma set_sql_update: "set (sql_update P f t) = {f r |r. r \<in> set t \<and> P r} \<union> {r \<in> set t. \<not> P r}"
  by (auto simp: sql_update_def)

lemma sql_update_row:
  assumes "r' \<in> set (sql_update P f t)"
  obtains r where "r \<in> set t" and "r' = (if P r then f r else r)"
  using assms by (auto simp: sql_update_def)

lemma map_sql_update: "(\<And>r. P r \<Longrightarrow> k (f r) = k r) \<Longrightarrow> map k (sql_update P f t) = map k t"
  by (simp add: sql_update_def)

lemma sql_update_id: "(\<And>r. r \<in> set t \<Longrightarrow> P r \<Longrightarrow> f r = r) \<Longrightarrow> sql_update P f t = t"
  by (auto simp: sql_update_def map_idI)

lemma row_by_sql_update:
  "(\<And>r. key (f r) = key r) \<Longrightarrow>
   row_by key k (sql_update P f t) = map_option (\<lambda>r. if P r then f r else r) (row_by key k t)"
  by (induction t) (auto simp: sql_update_def)

lemma sql_update_none: "sql_affected P t = 0 \<Longrightarrow> sql_update P f t = t"
  by (rule sql_update_id) (auto simp: sql_affected_def filter_empty_conv)

lemma set_sql_delete [simp, sql_simps]: "set (sql_delete P t) = {r \<in> set t. \<not> P r}"
  by (auto simp: sql_delete_def)

lemma sql_delete_affected: "length (sql_delete P t) + sql_affected P t = length t"
  unfolding sql_delete_def sql_affected_def
  using sum_length_filter_compl[of P t] by simp

lemma subseq_sql_delete: "subseq (sql_delete P t) t"
  by (simp add: sql_delete_def)

lemma distinct_map_sql_delete: "distinct (map k t) \<Longrightarrow> distinct (map k (sql_delete P t))"
  by (simp add: sql_delete_def distinct_map_filter)

lemma length_sql_limit: "length (sql_limit n xs) = (if n < 0 then length xs else min (length xs) (nat n))"
  by (simp add: sql_limit_def min.commute)

lemma set_sql_limit: "set (sql_limit n xs) \<subseteq> set xs"
  by (auto simp: sql_limit_def dest: in_set_takeD)

lemma sorted_sql_limit: "sorted (map k xs) \<Longrightarrow> sorted (map k (sql_limit n xs))"
  by (simp add: sql_limit_def flip: take_map)

lemma set_map_filter_iff: "y \<in> set (List.map_filter f xs) \<longleftrightarrow> (\<exists>x \<in> set xs. f x = Some y)"
  by (auto simp: List.map_filter_def) force

lemma map_filter_append_iff: "List.map_filter f (xs @ ys) = List.map_filter f xs @ List.map_filter f ys"
  by (simp add: List.map_filter_def)

lemma distinct_subseq: "subseq xs ys \<Longrightarrow> distinct ys \<Longrightarrow> distinct xs"
  by (auto simp: subseq_conv_nths intro: distinct_nthsI)

lemma map_filter_distinct_sub:
  "distinct (List.map_filter f xs) \<Longrightarrow> distinct (List.map_filter f (filter P xs))"
  by (induction xs) (auto simp: map_filter_simps set_map_filter_iff split: option.splits)

lemma set_map_filter_sub: "set (List.map_filter f (filter P xs)) \<subseteq> set (List.map_filter f xs)"
  by (auto simp: set_map_filter_iff)

text \<open>The first element of a list sorted by a key is a least element.\<close>

lemma hd_sort_key_least:
  assumes "sort_key k xs = y # ys" and "x \<in> set xs"
  shows "k y \<le> k x"
proof -
  have "sorted (map k (y # ys))" using sorted_sort_key[of k xs] assms(1) by simp
  moreover have "x \<in> set (y # ys)" using assms by (metis set_sort)
  ultimately show ?thesis by auto
qed

lemma sort_key_Cons_mem: "sort_key k xs = y # ys \<Longrightarrow> y \<in> set xs"
  by (metis list.set_intros(1) set_sort)

lemma sort_key_Nil_iff: "sort_key k xs = [] \<longleftrightarrow> xs = []"
  by (metis set_empty set_sort)

subsection \<open>The interface of a table with a primary key\<close>

text \<open>
  What a component may rely on when a table's constraint check \<open>ok\<close> holds: the key names
  at most one row, and deleting rows never breaks the check. Everything the clients need
  about reading after writing follows, once for all tables.
\<close>

locale keyed_table =
  fixes key :: "'r \<Rightarrow> 'k" and ok :: "'r list \<Rightarrow> bool"
  assumes ok_distinct: "ok t \<Longrightarrow> distinct (map key t)"
    and ok_filter: "ok t \<Longrightarrow> ok (filter P t)"
    and ok_empty: "ok []"
begin

lemma row_of_mem: "ok t \<Longrightarrow> r \<in> set t \<Longrightarrow> row_by key (key r) t = Some r"
  by (rule row_by_unique [OF ok_distinct])

lemma mem_iff_row: "ok t \<Longrightarrow> row_by key k t = Some r \<longleftrightarrow> r \<in> set t \<and> key r = k"
  using row_of_mem by (auto dest: row_by_SomeD)

lemma ok_delete: "ok t \<Longrightarrow> ok (sql_delete P t)"
  unfolding sql_delete_def by (rule ok_filter)

lemma row_after_update:
  assumes "\<And>r. key (f r) = key r"
  shows "row_by key k' (sql_update (\<lambda>r. key r = k \<and> Q r) f t) =
    (case row_by key k' t of None \<Rightarrow> None
     | Some r \<Rightarrow> Some (if k' = k \<and> Q r then f r else r))"
  by (induction t) (use assms in \<open>auto simp: sql_update_def\<close>)

lemma row_after_delete:
  assumes "ok t"
  shows "row_by key k (sql_delete P t) =
    (case row_by key k t of None \<Rightarrow> None | Some r \<Rightarrow> if P r then None else Some r)"
  using ok_distinct[OF assms]
proof (induction t)
  case (Cons r t)
  have "row_by key (key r) (filter (\<lambda>r. \<not> P r) t) = None"
    using Cons.prems by (auto simp: row_by_None_iff)
  with Cons show ?case by (auto simp: sql_delete_def)
qed (simp add: sql_delete_def)

lemma one_row_affected:
  assumes "ok t"
  shows "sql_affected (\<lambda>r. key r = k \<and> Q r) t =
    (case row_by key k t of None \<Rightarrow> 0 | Some r \<Rightarrow> if Q r then 1 else 0)"
  using ok_distinct[OF assms]
proof (induction t)
  case (Cons r t)
  have "key r' \<noteq> key r" if "r' \<in> set t" for r'
    using Cons.prems that by (metis distinct.simps(2) image_eqI list.simps(9) set_map)
  then have "sql_affected (\<lambda>r'. key r' = key r \<and> Q r') t = 0"
    by (simp add: sql_affected_def filter_empty_conv)
  moreover have "row_by key (key r) t = None"
    using Cons.prems by (auto simp: row_by_None_iff)
  ultimately show ?case using Cons by (auto simp: sql_affected_def)
qed (simp add: sql_affected_def)

end

end
