(* ===== verification/GoTime.thy ===== *)
theory GoTime
  imports Prelude
begin

text \<open>
  \<open>internal/db/time.go\<close>: the conversion between Go's \<open>time.Time\<close> and the stored
  representation. A Go time is its number of nanoseconds since the Unix epoch, an \<open>int\<close>;
  \<open>UnixMilli\<close> is then the floor of a division, also before 1970. The model has no bound on the
  year; \<open>UnixMilli\<close> is documented as undefined only beyond the years an \<open>int64\<close> of
  milliseconds can hold.
\<close>

type_synonym gotime = int
type_synonym millis = int
type_synonym duration = int

abbreviation (input) millisecond :: duration where "millisecond \<equiv> 1000000"
abbreviation (input) second :: duration where "second \<equiv> 1000000000"
abbreviation (input) minute :: duration where "minute \<equiv> 60000000000"
abbreviation (input) hour :: duration where "hour \<equiv> 3600000000000"

definition Millis :: "gotime \<Rightarrow> millis" where
  "Millis t = t div 1000000"

definition Time :: "millis \<Rightarrow> gotime" where
  "Time ms = ms * 1000000"

definition Now :: "gotime \<Rightarrow> millis" where
  "Now wall = Millis wall"

definition MillisPtr :: "gotime option \<Rightarrow> millis option" where
  "MillisPtr t = (case t of None \<Rightarrow> None | Some t \<Rightarrow> Some (Millis t))"

definition TimePtr :: "millis option \<Rightarrow> gotime option" where
  "TimePtr ms = (case ms of None \<Rightarrow> None | Some ms \<Rightarrow> Some (Time ms))"

lemma Millis_Time [simp]: "Millis (Time ms) = ms"
  by (simp add: Millis_def Time_def)

lemma Time_Millis_le: "Time (Millis t) \<le> t"
  using div_mult_mod_eq[of t 1000000] pos_mod_sign[of 1000000 t]
  unfolding Millis_def Time_def by linarith

lemma Time_Millis_gt: "t < Time (Millis t) + 1000000"
proof -
  have "t = 1000000 * (t div 1000000) + t mod 1000000" by simp
  moreover have "t mod 1000000 < 1000000" by simp
  ultimately show ?thesis unfolding Millis_def Time_def by linarith
qed

lemma Millis_mono: "t \<le> u \<Longrightarrow> Millis t \<le> Millis u"
  by (simp add: Millis_def zdiv_mono1)

lemma Millis_add_ms: "Millis (t + d * 1000000) = Millis t + d"
  by (simp add: Millis_def)

lemma MillisPtr_TimePtr [simp]: "MillisPtr (TimePtr x) = x"
  by (cases x) (simp_all add: MillisPtr_def TimePtr_def)

end
