(* ===== verification/GoStrings.thy ===== *)
theory GoStrings
  imports Prelude
begin

text \<open>
  The functions of Go's \<open>strings\<close> package the code calls. A Go string is its list of bytes, a
  \<open>string\<close> here. Case and white space are those of ASCII: on strings with bytes from 128 up,
  Go additionally folds letters and trims spaces of other scripts.
\<close>

definition lower_char :: "char \<Rightarrow> char" where
  "lower_char c = (let n = of_char c :: nat in if 65 \<le> n \<and> n \<le> 90 then char_of (n + 32) else c)"

definition to_lower :: "string \<Rightarrow> string" where
  "to_lower s = map lower_char s"

definition equal_fold :: "string \<Rightarrow> string \<Rightarrow> bool" where
  "equal_fold s t \<longleftrightarrow> to_lower s = to_lower t"

definition is_space :: "char \<Rightarrow> bool" where
  "is_space c \<longleftrightarrow> (let n = of_char c :: nat in n = 32 \<or> (9 \<le> n \<and> n \<le> 13))"

definition trim_right_by :: "(char \<Rightarrow> bool) \<Rightarrow> string \<Rightarrow> string" where
  "trim_right_by P s = rev (dropWhile P (rev s))"

definition trim_space :: "string \<Rightarrow> string" where
  "trim_space s = trim_right_by is_space (dropWhile is_space s)"

fun contains :: "string \<Rightarrow> string \<Rightarrow> bool" where
  "contains [] sub = (sub = [])"
| "contains (c # cs) sub = (prefix sub (c # cs) \<or> contains cs sub)"

definition cut_prefix :: "string \<Rightarrow> string \<Rightarrow> string option" where
  "cut_prefix s p = (if prefix p s then Some (drop (length p) s) else None)"

definition cut_at :: "char \<Rightarrow> string \<Rightarrow> (string \<times> string) option" where
  "cut_at c s =
     (case dropWhile (\<lambda>x. x \<noteq> c) s of [] \<Rightarrow> None | _ # r \<Rightarrow> Some (takeWhile (\<lambda>x. x \<noteq> c) s, r))"

fun split_on :: "char \<Rightarrow> string \<Rightarrow> string list" where
  "split_on c [] = [[]]"
| "split_on c (x # xs) =
     (if x = c then [] # split_on c xs
      else case split_on c xs of [] \<Rightarrow> [[x]] | p # ps \<Rightarrow> (x # p) # ps)"

fun join_with :: "string \<Rightarrow> string list \<Rightarrow> string" where
  "join_with sep [] = []"
| "join_with sep [s] = s"
| "join_with sep (s # t # ss) = s @ sep @ join_with sep (t # ss)"

subsection \<open>Case\<close>

lemma lower_char_idem [simp]: "lower_char (lower_char c) = lower_char c"
  by (auto simp: lower_char_def Let_def)

lemma to_lower_idem [simp]: "to_lower (to_lower s) = to_lower s"
  by (simp add: to_lower_def)

lemma to_lower_append [simp]: "to_lower (s @ t) = to_lower s @ to_lower t"
  by (simp add: to_lower_def)

lemma to_lower_Nil_iff [simp]: "to_lower s = [] \<longleftrightarrow> s = []"
  by (simp add: to_lower_def)

lemma equal_fold_refl [simp]: "equal_fold s s"
  by (simp add: equal_fold_def)

lemma equal_fold_sym: "equal_fold s t \<Longrightarrow> equal_fold t s"
  by (simp add: equal_fold_def)

subsection \<open>Trimming\<close>

lemma trim_right_by_last: "trim_right_by P s = [] \<or> \<not> P (last (trim_right_by P s))"
  unfolding trim_right_by_def by (metis hd_dropWhile last_rev rev_is_Nil_conv)

lemma trim_right_by_idem [simp]: "trim_right_by P (trim_right_by P s) = trim_right_by P s"
  by (simp add: trim_right_by_def dropWhile_idem)

lemma trim_right_by_prefix: "prefix (trim_right_by P s) s"
proof -
  have "rev s = takeWhile P (rev s) @ dropWhile P (rev s)" by simp
  then have "s = rev (dropWhile P (rev s)) @ rev (takeWhile P (rev s))"
    by (metis rev_append rev_rev_ident)
  then show ?thesis unfolding trim_right_by_def by (metis prefixI)
qed

lemma trim_space_idem [simp]: "trim_space (trim_space s) = trim_space s"
proof -
  let ?u = "trim_right_by is_space (dropWhile is_space s)"
  have "dropWhile is_space ?u = ?u"
  proof (cases ?u)
    case (Cons c cs)
    then obtain zs where d: "dropWhile is_space s = c # zs"
      using trim_right_by_prefix[of is_space "dropWhile is_space s"] by (auto simp: prefix_def)
    then have "\<not> is_space c" using hd_dropWhile[of is_space s] by (metis list.sel(1) list.simps(3))
    then show ?thesis using Cons by simp
  qed simp
  then show ?thesis by (simp add: trim_space_def)
qed

subsection \<open>Searching\<close>

lemma contains_iff: "contains s sub \<longleftrightarrow> (\<exists>u v. s = u @ sub @ v)"
proof
  show "contains s sub \<Longrightarrow> \<exists>u v. s = u @ sub @ v"
  proof (induction s)
    case (Cons c cs)
    then consider "prefix sub (c # cs)" | "contains cs sub" by auto
    then show ?case
    proof cases
      case 1
      then show ?thesis by (metis append_Nil prefixE)
    next
      case 2
      then obtain u v where "cs = u @ sub @ v" using Cons.IH by auto
      then show ?thesis by (metis append_Cons)
    qed
  qed simp
next
  assume "\<exists>u v. s = u @ sub @ v"
  then obtain u v where "s = u @ sub @ v" by auto
  then show "contains s sub"
  proof (induction u arbitrary: s)
    case Nil
    then have "prefix sub s" by simp
    then show ?case by (cases s) auto
  qed auto
qed

lemma contains_middle [simp]: "contains (u @ sub @ v) sub"
  by (auto simp: contains_iff)

lemma cut_prefix_append [simp]: "cut_prefix (p @ s) p = Some s"
  by (simp add: cut_prefix_def)

lemma cut_prefix_Some_iff: "cut_prefix s p = Some r \<longleftrightarrow> s = p @ r"
  by (auto simp: cut_prefix_def prefix_def split: if_splits)

lemma cut_at_append: "c \<notin> set p \<Longrightarrow> cut_at c (p @ c # r) = Some (p, r)"
proof -
  assume "c \<notin> set p"
  then have "takeWhile (\<lambda>x. x \<noteq> c) (p @ c # r) = p" "dropWhile (\<lambda>x. x \<noteq> c) (p @ c # r) = c # r"
    by (induction p) auto
  then show ?thesis by (simp add: cut_at_def)
qed

lemma cut_at_Some: "cut_at c s = Some (p, r) \<longleftrightarrow> s = p @ c # r \<and> c \<notin> set p"
proof
  assume "cut_at c s = Some (p, r)"
  then obtain x where d: "dropWhile (\<lambda>x. x \<noteq> c) s = x # r" and p: "p = takeWhile (\<lambda>x. x \<noteq> c) s"
    by (auto simp: cut_at_def split: list.splits)
  have "x = c" using d hd_dropWhile[of "\<lambda>x. x \<noteq> c" s] by auto
  moreover have "s = p @ x # r" using d p by (metis takeWhile_dropWhile_id)
  moreover have "c \<notin> set p" using p by (auto dest: set_takeWhileD)
  ultimately show "s = p @ c # r \<and> c \<notin> set p" by simp
qed (auto intro: cut_at_append)

subsection \<open>Splitting and joining\<close>

lemma split_on_ne [simp]: "split_on c s \<noteq> []"
  by (induction s) (auto split: list.splits)

lemma split_on_free: "p \<in> set (split_on c s) \<Longrightarrow> c \<notin> set p"
  by (induction s arbitrary: p) (auto split: list.splits if_splits)

lemma split_on_pure [simp]: "c \<notin> set s \<Longrightarrow> split_on c s = [s]"
  by (induction s) auto

lemma split_on_snoc: "c \<notin> set x \<Longrightarrow> split_on c (p @ c # x) = split_on c p @ [x]"
  by (induction p) (auto split: list.split)

lemma split_on_last: "c \<notin> set s \<Longrightarrow> last (split_on c (p @ c # s)) = s"
  by (simp add: split_on_snoc)

lemma split_on_append: "c \<notin> set p \<Longrightarrow> split_on c (p @ c # r) = p # split_on c r"
  by (induction p) auto

lemma split_join:
  "ps \<noteq> [] \<Longrightarrow> (\<And>p. p \<in> set ps \<Longrightarrow> c \<notin> set p) \<Longrightarrow> split_on c (join_with [c] ps) = ps"
proof (induction "[c]" ps rule: join_with.induct)
  case (3 s t ss)
  then show ?case by (simp add: split_on_append)
qed auto

lemma join_split: "join_with [c] (split_on c s) = s"
proof (induction s)
  case (Cons x xs)
  obtain p ps where "split_on c xs = p # ps" by (cases "split_on c xs") auto
  with Cons show ?case by (cases ps) auto
qed simp

subsection \<open>Decimal numbers\<close>

text \<open>\<open>%d\<close> of a number that is not negative, and the value of a run of decimal digits.\<close>

definition digit_char :: "nat \<Rightarrow> char" where
  "digit_char n = char_of (48 + n)"

fun dec :: "nat \<Rightarrow> string" where
  "dec n = (if n < 10 then [digit_char n] else dec (n div 10) @ [digit_char (n mod 10)])"

declare dec.simps [simp del]

definition is_digit :: "char \<Rightarrow> bool" where
  "is_digit c \<longleftrightarrow> (let n = of_char c :: nat in 48 \<le> n \<and> n \<le> 57)"

definition digits_value :: "string \<Rightarrow> nat" where
  "digits_value s = foldl (\<lambda>v c. 10 * v + (of_char c - 48)) 0 s"

lemma digit_char_value [simp]: "n < 10 \<Longrightarrow> of_char (digit_char n) = 48 + n"
  by (simp add: digit_char_def)

lemma digit_char_is_digit [simp]: "n < 10 \<Longrightarrow> is_digit (digit_char n)"
  by (simp add: is_digit_def)

lemma dec_digits: "c \<in> set (dec n) \<Longrightarrow> is_digit c"
proof (induction n rule: dec.induct)
  case (1 n)
  then show ?case by (subst (asm) dec.simps) (auto split: if_splits)
qed

lemma dec_ne [simp]: "dec n \<noteq> []"
  by (subst dec.simps) simp

lemma digits_value_dec [simp]: "digits_value (dec n) = n"
proof (induction n rule: dec.induct)
  case (1 n)
  show ?case
  proof (cases "n < 10")
    case True
    then show ?thesis by (subst dec.simps) (simp add: digits_value_def)
  next
    case False
    then have "digits_value (dec (n div 10)) = n div 10" using 1 by simp
    then have "digits_value (dec (n div 10) @ [digit_char (n mod 10)]) = n"
      by (simp add: digits_value_def)
    then show ?thesis using False by (subst dec.simps) simp
  qed
qed

lemma takeWhile_dec:
  "takeWhile is_digit (dec n @ r) = dec n @ takeWhile is_digit r"
  "dropWhile is_digit (dec n @ r) = dropWhile is_digit r"
  using dec_digits by (simp_all add: takeWhile_append2 dropWhile_append2)

subsection \<open>Runes\<close>

text \<open>
  The length of the first UTF-8 sequence of a string, as \<open>utf8.DecodeRune\<close> has it: a byte that
  starts no valid sequence counts as one rune of its own.
\<close>

definition in_byte :: "nat \<Rightarrow> nat \<Rightarrow> char \<Rightarrow> bool" where
  "in_byte lo hi c \<longleftrightarrow> lo \<le> of_char c \<and> of_char c \<le> hi"

definition rune_len :: "string \<Rightarrow> nat" where
  "rune_len s =
     (let ok = (\<lambda>i lo hi. i < length s \<and> in_byte lo hi (s ! i)); cont = (\<lambda>i. ok i 128 191) in
      if ok 0 194 223 \<and> cont 1 then 2
      else if (ok 0 224 224 \<and> ok 1 160 191 \<or> ok 0 225 236 \<and> cont 1 \<or> ok 0 237 237 \<and> ok 1 128 159 \<or>
               ok 0 238 239 \<and> cont 1) \<and> cont 2 then 3
      else if (ok 0 240 240 \<and> ok 1 144 191 \<or> ok 0 241 243 \<and> cont 1 \<or> ok 0 244 244 \<and> ok 1 128 143) \<and>
               cont 2 \<and> cont 3 then 4
      else 1)"

function rune_count :: "string \<Rightarrow> nat" where
  "rune_count s = (if s = [] then 0 else Suc (rune_count (drop (rune_len s) s)))"
  by pat_completeness auto
termination
  by (relation "measure length") (auto simp: rune_len_def Let_def)

declare rune_count.simps [simp del]

lemma rune_len_pos [simp]: "0 < rune_len s"
  by (simp add: rune_len_def Let_def)

lemma rune_count_le: "rune_count s \<le> length s"
proof (induction s rule: rune_count.induct)
  case (1 s)
  show ?case
  proof (cases "s = []")
    case True
    then show ?thesis by (simp add: rune_count.simps)
  next
    case False
    then have "rune_count s = Suc (rune_count (drop (rune_len s) s))" by (subst rune_count.simps) simp
    moreover have "rune_count (drop (rune_len s) s) \<le> length s - rune_len s" using 1[OF False] by simp
    moreover have "0 < rune_len s" "0 < length s" using False by simp_all
    ultimately show ?thesis by linarith
  qed
qed

text \<open>\<open>strconv.Atoi\<close>, whose result fits 64 bits or is an error.\<close>

definition atoi :: "string \<Rightarrow> int option" where
  "atoi s =
     (let neg = prefix ''-'' s; ds = (if prefix ''-'' s \<or> prefix ''+'' s then tl s else s);
          n = (if neg then - int (digits_value ds) else int (digits_value ds))
      in if ds = [] \<or> \<not> list_all is_digit ds then None
         else if n < - (2 ^ 63) \<or> 2 ^ 63 \<le> n then None else Some n)"

end
