(* ===== verification/GoPath.thy ===== *)
theory GoPath
  imports GoStrings
begin

text \<open>
  The lexical path functions of Go's \<open>path\<close> and, on Unix, \<open>path/filepath\<close> the code calls:
  \<open>Clean\<close>, \<open>Ext\<close>, \<open>Join\<close> and \<open>Abs\<close>. A path is cleaned component by component, with the
  components kept so far as a stack.
\<close>

abbreviation slash :: char where "slash \<equiv> CHR ''/''"

definition clean_step :: "bool \<Rightarrow> string list \<Rightarrow> string \<Rightarrow> string list" where
  "clean_step rooted out seg =
     (if seg = [] \<or> seg = ''.'' then out
      else if seg = ''..'' then
        (case out of
           [] \<Rightarrow> if rooted then [] else [''..'']
         | prev # rest \<Rightarrow> if prev = ''..'' then ''..'' # out else rest)
      else seg # out)"

definition clean_parts :: "string \<Rightarrow> string list" where
  "clean_parts p = rev (foldl (clean_step (prefix ''/'' p)) [] (split_on slash p))"

definition path_clean :: "string \<Rightarrow> string" where
  "path_clean p =
     (if prefix ''/'' p then slash # join_with ''/'' (clean_parts p)
      else if clean_parts p = [] then ''.''
      else join_with ''/'' (clean_parts p))"

definition path_ext :: "string \<Rightarrow> string" where
  "path_ext p =
     (let r = takeWhile (\<lambda>c. c \<noteq> slash) (rev p); e = takeWhile (\<lambda>c. c \<noteq> CHR ''.'') r
      in if length e = length r then [] else CHR ''.'' # rev e)"

definition path_join :: "string list \<Rightarrow> string" where
  "path_join ps =
     (let qs = filter (\<lambda>p. p \<noteq> []) ps in if qs = [] then [] else path_clean (join_with ''/'' qs))"

text \<open>\<open>Abs\<close> asks for the working directory only for a relative path; \<open>None\<close> when that fails.\<close>

definition path_abs :: "string option \<Rightarrow> string \<Rightarrow> string option" where
  "path_abs wd p =
     (if prefix ''/'' p then Some (path_clean p) else map_option (\<lambda>w. path_join [w, p]) wd)"

subsection \<open>What cleaning leaves\<close>

text \<open>A component a cleaned rooted path may have.\<close>

definition proper_part :: "string \<Rightarrow> bool" where
  "proper_part s \<longleftrightarrow> s \<noteq> [] \<and> s \<noteq> ''.'' \<and> s \<noteq> ''..'' \<and> slash \<notin> set s"

lemma proper_part_step: "proper_part s \<Longrightarrow> clean_step b out s = s # out"
  unfolding proper_part_def clean_step_def by (simp only: if_False simp_thms)

lemma clean_step_rooted:
  assumes "list_all proper_part out" "slash \<notin> set seg"
  shows "list_all proper_part (clean_step True out seg)"
proof (cases "proper_part seg")
  case True
  then show ?thesis using assms(1) by (simp add: proper_part_step)
next
  case False
  then consider "seg = [] \<or> seg = ''.''" | "seg \<noteq> []" "seg \<noteq> ''.''" "seg = ''..''"
    using assms(2) by (auto simp only: proper_part_def)
  then show ?thesis
  proof cases
    case 1
    then have "clean_step True out seg = out" by (simp only: clean_step_def if_True)
    then show ?thesis using assms(1) by simp
  next
    case 2
    then have "clean_step True out seg = (case out of [] \<Rightarrow> [] | prev # rest \<Rightarrow> if prev = ''..'' then ''..'' # out else rest)"
      by (simp only: clean_step_def if_True if_False simp_thms)
    then show ?thesis using assms(1)
      by (cases out) (auto simp only: list.case proper_part_def list.pred_inject if_False)
  qed
qed

lemma foldl_clean_rooted:
  "list_all proper_part out \<Longrightarrow> list_all (\<lambda>s. slash \<notin> set s) segs \<Longrightarrow>
   list_all proper_part (foldl (clean_step True) out segs)"
  by (induction segs arbitrary: out) (simp_all add: clean_step_rooted)

lemma clean_parts_rooted:
  assumes "prefix ''/'' p"
  shows "list_all proper_part (clean_parts p)"
  using foldl_clean_rooted[of "[]" "split_on slash p"] assms split_on_free[of _ slash p]
  by (simp add: clean_parts_def list_all_iff)

lemma foldl_clean_plain: "list_all proper_part segs \<Longrightarrow> foldl (clean_step b) out segs = rev segs @ out"
  by (induction segs arbitrary: out) (simp_all add: proper_part_step)

text \<open>A rooted path made of proper components is clean.\<close>

lemma clean_rooted_parts:
  assumes "list_all proper_part ps"
  shows "clean_parts (slash # join_with ''/'' ps) = ps"
proof -
  have empty: "clean_step b out [] = out" for b out by (simp add: clean_step_def)
  show ?thesis
  proof (cases "ps = []")
    case True
    then show ?thesis by (simp add: clean_parts_def empty)
  next
    case False
    have "split_on slash (join_with ''/'' ps) = ps"
      using assms False by (intro split_join) (auto simp: proper_part_def list_all_iff)
    then show ?thesis using foldl_clean_plain[OF assms] by (simp add: clean_parts_def empty)
  qed
qed

lemma path_clean_rooted:
  assumes "prefix ''/'' p"
  shows "path_clean p = slash # join_with ''/'' (clean_parts p)"
  using assms by (simp add: path_clean_def)

lemma path_clean_idem:
  assumes "prefix ''/'' p"
  shows "path_clean (path_clean p) = path_clean p"
proof -
  have "clean_parts (path_clean p) = clean_parts p"
    using clean_rooted_parts[of "clean_parts p"] clean_parts_rooted[OF assms] assms
    by (simp add: path_clean_def)
  then show ?thesis using assms by (simp add: path_clean_def)
qed

lemma path_abs_rooted:
  assumes "path_abs wd p = Some q" and "\<And>w. wd = Some w \<Longrightarrow> prefix ''/'' w"
  shows "prefix ''/'' q \<and> path_clean q = q"
proof (cases "prefix ''/'' p")
  case True
  then show ?thesis using assms(1) path_clean_idem[of p] by (auto simp: path_abs_def path_clean_rooted)
next
  case False
  then obtain w where w: "wd = Some w" "q = path_join [w, p]" using assms(1) by (auto simp: path_abs_def)
  have r: "prefix ''/'' w" using assms(2) w(1) by simp
  then have "prefix ''/'' (join_with ''/'' (filter (\<lambda>p. p \<noteq> []) [w, p]))"
    by (cases w) (auto simp: prefix_def)
  then show ?thesis using w(2) r path_clean_idem by (auto simp: path_join_def Let_def path_clean_rooted)
qed

text \<open>Joining one proper component to a rooted path appends it.\<close>

lemma clean_parts_clean: "prefix ''/'' p \<Longrightarrow> clean_parts (path_clean p) = clean_parts p"
  by (simp add: path_clean_rooted clean_rooted_parts clean_parts_rooted)

lemma clean_parts_join:
  assumes "prefix ''/'' d" "proper_part x"
  shows "clean_parts (path_join [d, x]) = clean_parts d @ [x]"
proof -
  obtain r where d: "d = slash # r" using assms(1) by (auto simp: prefix_def)
  have x: "x \<noteq> []" "slash \<notin> set x" using assms(2) by (auto simp: proper_part_def)
  have "path_join [d, x] = path_clean (d @ slash # x)" using x by (simp add: path_join_def Let_def d)
  moreover have "split_on slash (d @ slash # x) = split_on slash d @ [x]"
    by (rule split_on_snoc[OF x(2)])
  then have "clean_parts (d @ slash # x) = clean_parts d @ [x]"
    using assms(2) by (simp add: clean_parts_def d proper_part_step)
  moreover have "prefix ''/'' (d @ slash # x)" by (simp add: d)
  ultimately show ?thesis by (simp add: clean_parts_clean)
qed

lemma path_join_inject:
  assumes "prefix ''/'' d" "proper_part x" "proper_part y"
  shows "path_join [d, x] = path_join [d, y] \<longleftrightarrow> x = y"
  using clean_parts_join[OF assms(1,2)] clean_parts_join[OF assms(1,3)]
  by (metis append1_eq_conv)

end
