(* ===== verification/GoUrl.thy ===== *)
theory GoUrl
  imports GoStrings
begin

text \<open>
  What the code reads of Go's \<open>net/url.Parse\<close>: whether the text parses, and the \<open>Scheme\<close> and
  \<open>Host\<close> it yields. The further check of a bracketed IPv6 address that newer Go releases make is
  left out: they refuse more bracketed hosts.
\<close>

record url =
  url_scheme :: string
  url_host :: string

definition is_letter :: "char \<Rightarrow> bool" where
  "is_letter c \<longleftrightarrow> (let n = of_char c :: nat in 65 \<le> n \<and> n \<le> 90 \<or> 97 \<le> n \<and> n \<le> 122)"

definition is_ctl :: "char \<Rightarrow> bool" where
  "is_ctl c \<longleftrightarrow> (let n = of_char c :: nat in n < 32 \<or> n = 127)"

definition hex_value :: "char \<Rightarrow> nat option" where
  "hex_value c =
     (let n = of_char c :: nat
      in if 48 \<le> n \<and> n \<le> 57 then Some (n - 48)
         else if 97 \<le> n \<and> n \<le> 102 then Some (n - 87)
         else if 65 \<le> n \<and> n \<le> 70 then Some (n - 55) else None)"

text \<open>Bytes a host may have unescaped, those from 128 up included.\<close>

definition host_char :: "char \<Rightarrow> bool" where
  "host_char c \<longleftrightarrow> 128 \<le> (of_char c :: nat) \<or> is_letter c \<or> is_digit c \<or>
     c \<in> set ''!$&()*+,;=:[]<>-_.~'' \<or> of_char c = (39 :: nat) \<or> of_char c = (34 :: nat)"

datatype escape_mode = EncodePart | EncodeHost | EncodeZone

fun unescape :: "escape_mode \<Rightarrow> string \<Rightarrow> string option" where
  "unescape m [] = Some []"
| "unescape m (c # cs) =
     (if c = CHR ''%'' then
        (case cs of
           a # b # r \<Rightarrow>
             (case (hex_value a, hex_value b) of
                (Some x, Some y) \<Rightarrow>
                  if m = EncodeHost \<and> x < 8 \<and> [a, b] \<noteq> ''25'' then None
                  else if m = EncodeZone \<and> [a, b] \<noteq> ''25'' \<and> 16 * x + y \<noteq> 32 \<and>
                    \<not> (16 * x + y < 128 \<and> host_char (char_of (16 * x + y))) then None
                  else map_option (Cons (char_of (16 * x + y))) (unescape m r)
              | _ \<Rightarrow> None)
         | _ \<Rightarrow> None)
      else if m \<noteq> EncodePart \<and> \<not> host_char c then None
      else map_option (Cons c) (unescape m cs))"

definition get_scheme :: "string \<Rightarrow> (string \<times> string) option" where
  "get_scheme s =
     (let p = (\<lambda>c. is_letter c \<or> is_digit c \<or> c \<in> set ''+-.'') in
      if s = [] \<or> hd s \<noteq> CHR '':'' \<and> \<not> is_letter (hd s) then Some ([], s)
      else if hd s = CHR '':'' then None
      else (case dropWhile p s of
          [] \<Rightarrow> Some ([], s)
        | c # r \<Rightarrow> if c = CHR '':'' then Some (takeWhile p s, r) else Some ([], s)))"

definition cut_last :: "char \<Rightarrow> string \<Rightarrow> (string \<times> string) option" where
  "cut_last c s = map_option (\<lambda>(a, b). (rev b, rev a)) (cut_at c (rev s))"

definition valid_port :: "string \<Rightarrow> bool" where
  "valid_port p \<longleftrightarrow> p = [] \<or> hd p = CHR '':'' \<and> list_all is_digit (tl p)"

fun find_zone :: "string \<Rightarrow> (string \<times> string) option" where
  "find_zone [] = None"
| "find_zone (c # cs) =
     (if prefix ''%25'' (c # cs) then Some ([], c # cs)
      else map_option (\<lambda>(a, b). (c # a, b)) (find_zone cs))"

definition parse_host :: "string \<Rightarrow> string option" where
  "parse_host h =
     (if prefix ''['' h then
        (case cut_last (CHR '']'') h of
           None \<Rightarrow> None
         | Some (before, port) \<Rightarrow>
             if \<not> valid_port port then None
             else (case find_zone before of
                 None \<Rightarrow> unescape EncodeHost h
               | Some (addr, zone) \<Rightarrow>
                   (case (unescape EncodeHost addr, unescape EncodeZone zone,
                          unescape EncodeHost ('']'' @ port)) of
                      (Some x, Some y, Some z) \<Rightarrow> Some (x @ y @ z)
                    | _ \<Rightarrow> None)))
      else (case cut_last (CHR '':'') h of
          None \<Rightarrow> unescape EncodeHost h
        | Some (_, port) \<Rightarrow>
            if valid_port ('':'' @ port) then unescape EncodeHost h else None))"

definition valid_userinfo :: "string \<Rightarrow> bool" where
  "valid_userinfo s \<longleftrightarrow>
     list_all (\<lambda>c. is_letter c \<or> is_digit c \<or> c \<in> set ''-._:~!$&()*+,;=%@'' \<or> of_char c = (39 :: nat)) s"

definition parse_authority :: "string \<Rightarrow> string option" where
  "parse_authority a =
     (case cut_last (CHR ''@'') a of
        None \<Rightarrow> parse_host a
      | Some (user, h) \<Rightarrow>
          (case parse_host h of
             None \<Rightarrow> None
           | Some host \<Rightarrow>
               if valid_userinfo user \<and>
                  list_all (\<lambda>p. unescape EncodePart p \<noteq> None)
                    (case cut_at (CHR '':'') user of None \<Rightarrow> [user] | Some (n, p) \<Rightarrow> [n, p])
                 then Some host else None))"

definition before :: "char \<Rightarrow> string \<Rightarrow> string" where
  "before c s = takeWhile (\<lambda>x. x \<noteq> c) s"

definition after :: "char \<Rightarrow> string \<Rightarrow> string" where
  "after c s = tl (dropWhile (\<lambda>x. x \<noteq> c) s)"

definition url_parse :: "string \<Rightarrow> url option" where
  "url_parse raw =
     (let u = before (CHR ''#'') raw in
      if list_ex is_ctl u then None
      else if u = ''*'' then
        (if unescape EncodePart (after (CHR ''#'') raw) = None then None
         else Some \<lparr>url_scheme = [], url_host = []\<rparr>)
      else case get_scheme u of
        None \<Rightarrow> None
      | Some (sch, r) \<Rightarrow>
          let rest = before (CHR ''?'') r; scheme = to_lower sch;
              host =
                (if \<not> prefix ''/'' rest then
                   if scheme \<noteq> [] then Some []
                   else if CHR '':'' \<in> set (before (CHR ''/'') rest) then None
                   else map_option (\<lambda>_. []) (unescape EncodePart rest)
                 else if (scheme \<noteq> [] \<or> \<not> prefix ''///'' rest) \<and> prefix ''//'' rest then
                   let auth = before (CHR ''/'') (drop 2 rest);
                       path = dropWhile (\<lambda>x. x \<noteq> CHR ''/'') (drop 2 rest)
                   in (case (parse_authority auth, unescape EncodePart path) of
                         (Some h, Some _) \<Rightarrow> Some h
                       | _ \<Rightarrow> None)
                 else map_option (\<lambda>_. []) (unescape EncodePart rest))
          in if host = None \<or> unescape EncodePart (after (CHR ''#'') raw) = None then None
             else Some \<lparr>url_scheme = scheme, url_host = the host\<rparr>)"

subsection \<open>Plain URLs\<close>

lemma before_id [simp]: "c \<notin> set s \<Longrightarrow> before c s = s"
  by (induction s) (auto simp: before_def)

lemma dropWhile_free [simp]: "c \<notin> set s \<Longrightarrow> dropWhile (\<lambda>x. x \<noteq> c) s = []"
  by (induction s) auto

lemma after_Nil [simp]: "c \<notin> set s \<Longrightarrow> after c s = []"
  by (simp add: after_def)

lemma cut_at_None [simp]: "c \<notin> set s \<Longrightarrow> cut_at c s = None"
  by (simp add: cut_at_def)

lemma cut_last_None [simp]: "c \<notin> set s \<Longrightarrow> cut_last c s = None"
  by (simp add: cut_last_def)

lemma cut_last_append: "c \<notin> set r \<Longrightarrow> cut_last c (p @ c # r) = Some (p, r)"
  using cut_at_append[of c "rev r" "rev p"] by (simp add: cut_last_def)

lemma unescape_plain: "CHR ''%'' \<notin> set s \<Longrightarrow> m = EncodePart \<or> list_all host_char s \<Longrightarrow> unescape m s = Some s"
  by (induction s) auto

definition plain_host :: "string \<Rightarrow> bool" where
  "plain_host h \<longleftrightarrow> list_all (\<lambda>c. is_letter c \<or> is_digit c \<or> c = CHR ''-'' \<or> c = CHR ''.'') h"

definition url_char :: "char \<Rightarrow> bool" where
  "url_char c \<longleftrightarrow> is_letter c \<or> is_digit c \<or> c \<in> set ''-.:/''"

lemma not_url_char:
  "\<not> url_char (CHR ''#'')" "\<not> url_char (CHR ''?'')" "\<not> url_char (CHR ''@'')" "\<not> url_char (CHR ''%'')"
  "\<not> url_char (CHR ''['')" "\<not> url_char (CHR ''*'')"
  by code_simp+

lemma url_chars_free:
  assumes "list_all url_char s"
  shows "CHR ''#'' \<notin> set s" "CHR ''?'' \<notin> set s" "CHR ''@'' \<notin> set s" "CHR ''%'' \<notin> set s"
    "CHR ''['' \<notin> set s" "CHR ''*'' \<notin> set s"
  using assms not_url_char unfolding list_all_iff by metis+

lemma url_char_host: "url_char c \<Longrightarrow> c \<noteq> CHR ''/'' \<Longrightarrow> host_char c"
  by (auto simp: url_char_def host_char_def)

lemma url_char_ctl: "url_char c \<Longrightarrow> \<not> is_ctl c"
  by (auto simp: url_char_def is_ctl_def is_letter_def is_digit_def Let_def)

lemma plain_url_chars:
  assumes "plain_host h" "pt = [] \<or> (\<exists>ds. pt = CHR '':'' # ds \<and> list_all is_digit ds)"
  shows "list_all url_char (h @ pt)"
proof -
  have ok: "url_char c" if "is_letter c \<or> is_digit c \<or> c = CHR ''-'' \<or> c = CHR ''.'' \<or> c = CHR '':''" for c
    using that unfolding url_char_def by auto
  have "\<forall>c \<in> set h. url_char c" using assms(1) ok unfolding plain_host_def list_all_iff by blast
  moreover have "\<forall>c \<in> set pt. url_char c"
    using assms(2) unfolding list_all_iff by (metis ok empty_iff list.set(1) set_ConsD)
  ultimately show ?thesis unfolding list_all_iff by auto
qed

lemma letter_not_colon: "is_letter c \<Longrightarrow> c \<noteq> CHR '':'' \<and> c \<noteq> CHR ''/''"
  by (auto simp: is_letter_def Let_def)

lemma digit_not_colon: "is_digit c \<Longrightarrow> c \<noteq> CHR '':'' \<and> c \<noteq> CHR ''/''"
  by (auto simp: is_digit_def Let_def)

lemma plain_no_slash:
  assumes "plain_host h" "pt = [] \<or> (\<exists>ds. pt = CHR '':'' # ds \<and> list_all is_digit ds)"
  shows "CHR ''/'' \<notin> set (h @ pt)" "CHR '':'' \<notin> set h"
proof -
  have h: "c \<noteq> CHR ''/'' \<and> c \<noteq> CHR '':''" if "c \<in> set h" for c
  proof -
    have "is_letter c \<or> is_digit c \<or> c = CHR ''-'' \<or> c = CHR ''.''"
      using assms(1) that unfolding plain_host_def list_all_iff by blast
    then show ?thesis
      by (elim disjE) (simp_all add: letter_not_colon digit_not_colon)
  qed
  have "CHR ''/'' \<notin> set pt" using assms(2) digit_not_colon unfolding list_all_iff by force
  with h show "CHR ''/'' \<notin> set (h @ pt)" "CHR '':'' \<notin> set h" by auto
qed

lemma parse_host_plain:
  assumes "plain_host h" "valid_port pt"
  shows "parse_host (h @ pt) = Some (h @ pt)"
proof -
  have pt: "pt = [] \<or> (\<exists>ds. pt = CHR '':'' # ds \<and> list_all is_digit ds)"
    using assms(2) by (cases pt) (auto simp: valid_port_def)
  note url = plain_url_chars[OF assms(1) pt]
  note no = plain_no_slash[OF assms(1) pt]
  have u: "unescape EncodeHost (h @ pt) = Some (h @ pt)"
    by (intro unescape_plain disjI2 url_chars_free[OF url]) (use url no(1) url_char_host in \<open>metis list_all_iff\<close>)
  have b: "\<not> prefix ''['' (h @ pt)"
    using url_chars_free(5)[OF url] by (cases "h @ pt") auto
  show ?thesis
  proof (cases "pt = []")
    case True
    then show ?thesis using u b no(2) by (simp add: parse_host_def)
  next
    case False
    then obtain ds where ds: "pt = CHR '':'' # ds" "list_all is_digit ds" using pt by auto
    then have "CHR '':'' \<notin> set ds" using digit_not_colon by (auto simp: list_all_iff)
    then have "cut_last (CHR '':'') (h @ pt) = Some (h, ds)" using ds(1) by (simp add: cut_last_append)
    then show ?thesis using u b ds assms(2) by (simp add: parse_host_def)
  qed
qed

text \<open>An origin as a browser sends it parses to its host and port.\<close>

lemma url_parse_origin:
  assumes "sch \<noteq> []" "list_all is_letter sch" "plain_host h" "valid_port pt"
  shows "url_parse (sch @ ''://'' @ h @ pt) = Some \<lparr>url_scheme = to_lower sch, url_host = h @ pt\<rparr>"
proof -
  let ?raw = "sch @ ''://'' @ h @ pt" and ?a = "h @ pt"
  have pt: "pt = [] \<or> (\<exists>ds. pt = CHR '':'' # ds \<and> list_all is_digit ds)"
    using assms(4) by (cases pt) (auto simp: valid_port_def)
  have "list_all url_char sch" using assms(2) by (auto simp: list_all_iff url_char_def)
  moreover have "list_all url_char ''://''" by code_simp
  ultimately have all: "list_all url_char ?raw"
    using plain_url_chars[OF assms(3) pt] by simp
  have no: "CHR ''#'' \<notin> set ?raw" "CHR ''?'' \<notin> set ?raw" "CHR ''@'' \<notin> set ?raw"
    using url_chars_free[OF all] by simp_all
  have ctl: "\<not> list_ex is_ctl ?raw" using all url_char_ctl unfolding list_all_iff list_ex_iff by blast
  note slash = plain_no_slash(1)[OF assms(3) pt]
  obtain c cs where sch: "sch = c # cs" "is_letter c" using assms(1,2) by (cases sch) auto
  have star: "?raw \<noteq> ''*''" using sch by simp
  let ?p = "\<lambda>c. is_letter c \<or> is_digit c \<or> c \<in> set ''+-.''"
  have np: "\<not> ?p (CHR '':'')" by (simp add: is_letter_def is_digit_def Let_def)
  have "takeWhile ?p (sch @ CHR '':'' # r) = sch" "dropWhile ?p (sch @ CHR '':'' # r) = CHR '':'' # r" for r
    using assms(2) np by (simp_all add: takeWhile_append2 dropWhile_append2 list_all_iff)
  then have gs: "get_scheme ?raw = Some (sch, ''//'' @ ?a)"
    unfolding get_scheme_def using sch letter_not_colon by (simp add: Let_def)
  have sc: "to_lower sch \<noteq> []" using assms(1) by simp
  have pa: "parse_authority ?a = Some ?a"
    using no(3) parse_host_plain[OF assms(3,4)] by (simp add: parse_authority_def)
  have q: "before (CHR ''?'') (''//'' @ ?a) = ''//'' @ ?a" using no(2) by simp
  have sl: "before (CHR ''/'') (drop 2 (''//'' @ ?a)) = ?a"
    "dropWhile (\<lambda>x. x \<noteq> CHR ''/'') (drop 2 (''//'' @ ?a)) = []"
    using slash by simp_all
  have raw: "before (CHR ''#'') ?raw = ?raw" "after (CHR ''#'') ?raw = []" using no(1) by simp_all
  show ?thesis
    unfolding url_parse_def Let_def raw gs option.case prod.case q sl pa
    using ctl star sc by simp
qed

end
