(* ===== verification/GoFloat.thy ===== *)
theory GoFloat
  imports GoStrings
begin

text \<open>
  The \<open>float64\<close> arithmetic of \<open>Job.CostString\<close>: an integer of 64 bits becomes a float, is divided by
  another, and is printed with a fixed number of decimals. All three round to the nearest value,
  ties to even. Within this range no float overflows or is subnormal, so only the 53 bits of the
  significand matter: \<open>(m, s)\<close> stands for \<open>m / 2 ^ s\<close>.
\<close>

definition round_div :: "nat \<Rightarrow> nat \<Rightarrow> nat" where
  "round_div a b =
     (let q = a div b; r = a mod b in
      if 2 * r < b \<or> 2 * r = b \<and> even q then q else q + 1)"

text \<open>How many low bits a float has no room for.\<close>

fun excess :: "nat \<Rightarrow> nat" where
  "excess n = (if n < 2 ^ 53 then 0 else Suc (excess (n div 2)))"

declare excess.simps [simp del]

definition to_float :: "nat \<Rightarrow> nat" where
  "to_float n = round_div n (2 ^ excess n) * 2 ^ excess n"

text \<open>The scale at which the quotient has its full 53 bits.\<close>

function scale_from :: "nat \<Rightarrow> nat \<Rightarrow> nat \<Rightarrow> nat" where
  "scale_from n d s = (if n = 0 \<or> d * 2 ^ 53 \<le> n * 2 ^ Suc s then s else scale_from n d (Suc s))"
  by auto
termination
proof (relation "measure (\<lambda>(n, d, s). d * 2 ^ 53 - n * 2 ^ s)")
  fix n d s :: nat
  assume "\<not> (n = 0 \<or> d * 2 ^ 53 \<le> n * 2 ^ Suc s)"
  then have "n * 2 ^ s < n * 2 ^ Suc s" "n * 2 ^ Suc s < d * 2 ^ 53" by auto
  then have "d * 2 ^ 53 - n * 2 ^ Suc s < d * 2 ^ 53 - n * 2 ^ s" by (intro diff_less_mono2) linarith+
  then show "((n, d, Suc s), n, d, s) \<in> measure (\<lambda>(n, d, s). d * 2 ^ 53 - n * 2 ^ s)"
    by (simp only: in_measure prod.case)
qed simp

declare scale_from.simps [simp del]

definition float_div :: "nat \<Rightarrow> nat \<Rightarrow> nat \<times> nat" where
  "float_div n d = (let s = scale_from n d 0 in (round_div (n * 2 ^ s) d, s))"

text \<open>\<open>%.6f\<close>.\<close>

definition pad_to :: "nat \<Rightarrow> string \<Rightarrow> string" where
  "pad_to k s = replicate (k - length s) (CHR ''0'') @ s"

definition fixed6 :: "nat \<times> nat \<Rightarrow> string" where
  "fixed6 x =
     (case x of (m, s) \<Rightarrow>
        let u = round_div (m * 10 ^ 6) (2 ^ s)
        in dec (u div 10 ^ 6) @ ''.'' @ pad_to 6 (dec (u mod 10 ^ 6)))"

subsection \<open>Rounding\<close>

lemma round_div_near:
  assumes "0 < b"
  shows "2 * (round_div a b * b) \<le> 2 * a + b" "2 * a \<le> 2 * (round_div a b * b) + b"
proof -
  define q r where "q = a div b" and "r = a mod b"
  have a: "a = q * b + r" and r: "r < b" using assms by (simp_all add: q_def r_def)
  have "round_div a b = (if 2 * r < b \<or> 2 * r = b \<and> even q then q else q + 1)"
    by (simp add: round_div_def Let_def q_def r_def)
  then show "2 * (round_div a b * b) \<le> 2 * a + b" "2 * a \<le> 2 * (round_div a b * b) + b"
    using r unfolding a by (auto simp: algebra_simps)
qed

lemma round_div_unique:
  assumes "2 * a < 2 * (n * b) + b" "2 * (n * b) < 2 * a + b"
  shows "round_div a b = n"
proof -
  have b: "0 < b" using assms by (cases b) auto
  have "round_div a b * b < Suc n * b" "n * b < Suc (round_div a b) * b"
    using round_div_near[OF b, of a] assms by simp_all
  then have "round_div a b < Suc n" "n < Suc (round_div a b)" by (simp_all only: mult_less_cancel2)
  then show ?thesis by simp
qed

lemma to_float_small: "n < 2 ^ 53 \<Longrightarrow> to_float n = n"
  by (simp add: to_float_def excess.simps[of n] round_div_def)

lemma scale_from_ge: "n * 2 ^ k < d * 2 ^ 53 \<Longrightarrow> s \<le> k \<Longrightarrow> 0 < n \<Longrightarrow> k \<le> scale_from n d s"
proof (induction n d s rule: scale_from.induct)
  case (1 n d s)
  show ?case
  proof (cases "s = k")
    case True
    have "s \<le> scale_from n d s" for s
      by (induction n d s rule: scale_from.induct) (subst scale_from.simps, auto)
    then show ?thesis using True by simp
  next
    case False
    then have "Suc s \<le> k" using 1 by simp
    then have "n * 2 ^ Suc s \<le> n * 2 ^ k" by (intro mult_le_mono2 power_increasing) simp_all
    then have "\<not> d * 2 ^ 53 \<le> n * 2 ^ Suc s" using 1(2) by linarith
    then show ?thesis using 1 \<open>Suc s \<le> k\<close> by (subst scale_from.simps) auto
  qed
qed

text \<open>
  Dividing by a million and printing with six decimals is exact as long as half a unit in the last
  place of the quotient is less than half a millionth, up to \<open>2 ^ 33\<close>.
\<close>

lemma millionths_exact:
  assumes "n < 2 ^ 33 * 10 ^ 6"
  shows "round_div (fst (float_div n (10 ^ 6)) * 10 ^ 6) (2 ^ snd (float_div n (10 ^ 6))) = n"
proof (cases "n = 0")
  case True
  then show ?thesis by (simp add: float_div_def round_div_def Let_def)
next
  case False
  let ?s = "scale_from n (10 ^ 6) 0"
  have "20 \<le> ?s" using assms False by (intro scale_from_ge) simp_all
  then have p: "(2 :: nat) ^ 20 \<le> 2 ^ ?s" by (intro power_increasing) simp_all
  let ?m = "round_div (n * 2 ^ ?s) (10 ^ 6)"
  have "2 * (?m * 10 ^ 6) \<le> 2 * (n * 2 ^ ?s) + 10 ^ 6" "2 * (n * 2 ^ ?s) \<le> 2 * (?m * 10 ^ 6) + 10 ^ 6"
    using round_div_near[of "10 ^ 6" "n * 2 ^ ?s"] by simp_all
  then have "round_div (?m * 10 ^ 6) (2 ^ ?s) = n"
    using p by (intro round_div_unique) simp_all
  then show ?thesis by (simp add: float_div_def Let_def)
qed

text \<open>The first value beyond that comes out wrong.\<close>

lemma millionths_inexact:
  "fixed6 (float_div (to_float 8589934592000001) 1000000) = ''8589934592.000002''"
proof -
  have "digit_char 2 = CHR ''2''" "digit_char 3 = CHR ''3''" "digit_char 4 = CHR ''4''"
    "digit_char 5 = CHR ''5''" "digit_char 8 = CHR ''8''" "digit_char 9 = CHR ''9''" by code_simp+
  then have "dec 8589934592 = ''8589934592''" by (simp add: dec.simps)
  moreover have "pad_to 6 (dec 2) = ''000002''" by code_simp
  moreover have "round_div (4503599627370497 * 10 ^ 6) (2 ^ 19) = 8589934592000002" by (simp add: round_div_def)
  ultimately have "fixed6 (4503599627370497, 19) = ''8589934592.000002''" by (simp add: fixed6_def)
  moreover have "float_div 8589934592000001 1000000 = (4503599627370497, 19)"
    by (simp add: float_div_def scale_from.simps round_div_def)
  ultimately show ?thesis by (simp add: to_float_small)
qed

end
