(* ===== verification/JobsTable.thy ===== *)
theory JobsTable
  imports GoTime
begin

text \<open>
  The \<open>jobs\<close> table (\<open>internal/db/migrations/00001_init.sql\<close>) and the query layer over it
  (\<open>internal/db/gen/jobs.sql.go\<close>). A table is the list of its rows in insertion order.
  Every writing statement computes the table it would leave and hands it to \<open>commit_jobs\<close>,
  which keeps the old table and reports SQLite's message when a constraint of the schema
  fails: the primary key, the partial unique index on \<open>dedupe_key\<close>, \<open>NOT NULL\<close> and \<open>CHECK\<close>
  on \<open>progress\<close>, and the 64-bit range of the columns the statements compute.
\<close>

subsection \<open>Floating point values\<close>

text \<open>
  The code compares \<open>float64\<close> progress values and never calculates with them, so finite
  floats are exact rationals. \<open>min\<close> and \<open>max\<close> are Go's builtins, which propagate NaN.
\<close>

datatype gofloat = NaN | NegInf | Fin rat | PosInf

fun float_le :: "gofloat \<Rightarrow> gofloat \<Rightarrow> bool" where
  "float_le NaN _ = False"
| "float_le _ NaN = False"
| "float_le NegInf _ = True"
| "float_le _ PosInf = True"
| "float_le (Fin a) (Fin b) = (a \<le> b)"
| "float_le _ _ = False"

definition go_max :: "gofloat \<Rightarrow> gofloat \<Rightarrow> gofloat" where
  "go_max a b = (if a = NaN \<or> b = NaN then NaN else if float_le a b then b else a)"

definition go_min :: "gofloat \<Rightarrow> gofloat \<Rightarrow> gofloat" where
  "go_min a b = (if a = NaN \<or> b = NaN then NaN else if float_le a b then a else b)"

subsection \<open>Job states\<close>

datatype job_state = StateQueued | StateRunning | StateSucceeded | StateFailed | StateCancelled

fun state_text :: "job_state \<Rightarrow> string" where
  "state_text StateQueued = ''queued''"
| "state_text StateRunning = ''running''"
| "state_text StateSucceeded = ''succeeded''"
| "state_text StateFailed = ''failed''"
| "state_text StateCancelled = ''cancelled''"

lemma state_text_inject [simp]: "state_text s = state_text u \<longleftrightarrow> s = u"
  by (cases s; cases u) simp_all

text \<open>States are stored as text, and \<open>GROUP BY\<close> orders them as text.\<close>

instantiation job_state :: linorder
begin

definition less_eq_job_state :: "job_state \<Rightarrow> job_state \<Rightarrow> bool" where
  "less_eq_job_state s u \<longleftrightarrow> state_text s \<le> state_text u"

definition less_job_state :: "job_state \<Rightarrow> job_state \<Rightarrow> bool" where
  "less_job_state s u \<longleftrightarrow> state_text s < state_text u"

instance
  by standard (auto simp: less_eq_job_state_def less_job_state_def less_le_not_le)

end

definition Terminal :: "job_state \<Rightarrow> bool" where
  "Terminal s = (case s of
     StateSucceeded \<Rightarrow> True | StateFailed \<Rightarrow> True | StateCancelled \<Rightarrow> True | _ \<Rightarrow> False)"

lemma Terminal_simps [simp]:
  "\<not> Terminal StateQueued" "\<not> Terminal StateRunning"
  "Terminal StateSucceeded" "Terminal StateFailed" "Terminal StateCancelled"
  by (simp_all add: Terminal_def)

subsection \<open>Rows and constraints\<close>

record job_row =
  jr_id :: string
  jr_kind :: string
  jr_payload :: string
  jr_state :: job_state
  jr_priority :: int
  jr_progress :: gofloat
  jr_progress_note :: string
  jr_attempts :: int
  jr_max_attempts :: int
  jr_last_error :: string
  jr_tokens_in :: int
  jr_tokens_out :: int
  jr_cost_micros :: int
  jr_run_after :: millis
  jr_lease_until :: "millis option"
  jr_worker :: string
  jr_dedupe_key :: "string option"
  jr_created_at :: millis
  jr_updated_at :: millis
  jr_started_at :: "millis option"
  jr_finished_at :: "millis option"

type_synonym jobs_table = "job_row list"

abbreviation job_by :: "string \<Rightarrow> jobs_table \<Rightarrow> job_row option" where
  "job_by \<equiv> row_by jr_id"

definition pending :: "job_row \<Rightarrow> bool" where
  "pending r \<longleftrightarrow> jr_state r = StateQueued \<or> jr_state r = StateRunning"

definition pending_key :: "job_row \<Rightarrow> string option" where
  "pending_key r = (if pending r then jr_dedupe_key r else None)"

definition in64 :: "int \<Rightarrow> bool" where
  "in64 x \<longleftrightarrow> - (2 ^ 63) \<le> x \<and> x < 2 ^ 63"

definition row_violation :: "job_row \<Rightarrow> string option" where
  "row_violation r =
     (if jr_progress r = NaN then Some ''NOT NULL constraint failed: jobs.progress''
      else if \<not> (float_le (Fin 0) (jr_progress r) \<and> float_le (jr_progress r) (Fin 1))
        then Some ''CHECK constraint failed: progress BETWEEN 0 AND 1''
      else if \<not> (in64 (jr_attempts r) \<and> in64 (jr_tokens_in r) \<and> in64 (jr_tokens_out r)
                 \<and> in64 (jr_cost_micros r))
        then Some ''cannot store REAL value in INTEGER column''
      else None)"

definition jobs_violation :: "jobs_table \<Rightarrow> string option" where
  "jobs_violation t =
     (if \<not> distinct (map jr_id t) then Some ''UNIQUE constraint failed: jobs.id''
      else if \<not> distinct (List.map_filter pending_key t)
        then Some ''UNIQUE constraint failed: jobs.dedupe_key''
      else case List.map_filter row_violation t of [] \<Rightarrow> None | m # _ \<Rightarrow> Some m)"

definition jobs_ok :: "jobs_table \<Rightarrow> bool" where
  "jobs_ok t \<longleftrightarrow> jobs_violation t = None"

definition commit_jobs :: "jobs_table \<Rightarrow> jobs_table \<Rightarrow> 'a \<Rightarrow> (db_error + 'a) \<times> jobs_table" where
  "commit_jobs t t' v = (case jobs_violation t' of Some m \<Rightarrow> (Inl (Constraint m), t) | None \<Rightarrow> (Inr v, t'))"

subsection \<open>The statements\<close>

definition EnqueueJob ::
  "string \<Rightarrow> string \<Rightarrow> string \<Rightarrow> int \<Rightarrow> int \<Rightarrow> string option \<Rightarrow> millis \<Rightarrow> millis \<Rightarrow> millis
   \<Rightarrow> jobs_table \<Rightarrow> (db_error + job_row) \<times> jobs_table" where
  "EnqueueJob i kind payload prio maxatt dedupe runafter created updated t =
     (let r = \<lparr>jr_id = i, jr_kind = kind, jr_payload = payload, jr_state = StateQueued,
               jr_priority = prio, jr_progress = Fin 0, jr_progress_note = [],
               jr_attempts = 0, jr_max_attempts = maxatt, jr_last_error = [],
               jr_tokens_in = 0, jr_tokens_out = 0, jr_cost_micros = 0,
               jr_run_after = runafter, jr_lease_until = None, jr_worker = [],
               jr_dedupe_key = dedupe, jr_created_at = created, jr_updated_at = updated,
               jr_started_at = None, jr_finished_at = None\<rparr>
      in commit_jobs t (t @ [r]) r)"

definition runnable :: "millis \<Rightarrow> job_row \<Rightarrow> bool" where
  "runnable now r \<longleftrightarrow> jr_state r = StateQueued \<and> jr_run_after r \<le> now"

definition claim_order :: "job_row \<Rightarrow> int \<times> string" where
  "claim_order r = (- jr_priority r, jr_id r)"

definition next_runnable :: "millis \<Rightarrow> jobs_table \<Rightarrow> string option" where
  "next_runnable now t =
     (case sort_key claim_order (filter (runnable now) t) of [] \<Rightarrow> None | r # _ \<Rightarrow> Some (jr_id r))"

definition claim_row :: "string \<Rightarrow> millis option \<Rightarrow> millis option \<Rightarrow> millis \<Rightarrow> job_row \<Rightarrow> job_row" where
  "claim_row worker lease started updated r =
     r\<lparr>jr_state := StateRunning, jr_worker := worker, jr_lease_until := lease,
       jr_attempts := jr_attempts r + 1,
       jr_started_at := (case jr_started_at r of None \<Rightarrow> started | Some s \<Rightarrow> Some s),
       jr_updated_at := updated\<rparr>"

definition ClaimNextJob ::
  "string \<Rightarrow> millis option \<Rightarrow> millis option \<Rightarrow> millis \<Rightarrow> millis
   \<Rightarrow> jobs_table \<Rightarrow> (db_error + job_row) \<times> jobs_table" where
  "ClaimNextJob worker lease started updated runafter t =
     (case next_runnable runafter t of
        None \<Rightarrow> (Inl NoRows, t)
      | Some i \<Rightarrow>
          let t' = sql_update (\<lambda>r. jr_id r = i) (claim_row worker lease started updated) t
          in case job_by i t' of
               None \<Rightarrow> (Inl NoRows, t)
             | Some r \<Rightarrow> commit_jobs t t' r)"

definition UpdateJobProgress ::
  "gofloat \<Rightarrow> string \<Rightarrow> millis \<Rightarrow> string \<Rightarrow> jobs_table \<Rightarrow> (db_error + unit) \<times> jobs_table" where
  "UpdateJobProgress progress note updated i t =
     commit_jobs t (sql_update (\<lambda>r. jr_id r = i \<and> jr_state r = StateRunning)
       (\<lambda>r. r\<lparr>jr_progress := progress, jr_progress_note := note, jr_updated_at := updated\<rparr>) t) ()"

definition ExtendLease ::
  "millis option \<Rightarrow> millis \<Rightarrow> string \<Rightarrow> jobs_table \<Rightarrow> (db_error + unit) \<times> jobs_table" where
  "ExtendLease lease updated i t =
     commit_jobs t (sql_update (\<lambda>r. jr_id r = i \<and> jr_state r = StateRunning)
       (\<lambda>r. r\<lparr>jr_lease_until := lease, jr_updated_at := updated\<rparr>) t) ()"

definition RecordJobUsage ::
  "int \<Rightarrow> int \<Rightarrow> int \<Rightarrow> millis \<Rightarrow> string \<Rightarrow> jobs_table \<Rightarrow> (db_error + unit) \<times> jobs_table" where
  "RecordJobUsage tin tout cost updated i t =
     commit_jobs t (sql_update (\<lambda>r. jr_id r = i)
       (\<lambda>r. r\<lparr>jr_tokens_in := jr_tokens_in r + tin, jr_tokens_out := jr_tokens_out r + tout,
             jr_cost_micros := jr_cost_micros r + cost, jr_updated_at := updated\<rparr>) t) ()"

definition CompleteJob ::
  "string \<Rightarrow> millis option \<Rightarrow> millis \<Rightarrow> string \<Rightarrow> jobs_table \<Rightarrow> (db_error + unit) \<times> jobs_table" where
  "CompleteJob note finished updated i t =
     commit_jobs t (sql_update (\<lambda>r. jr_id r = i)
       (\<lambda>r. r\<lparr>jr_state := StateSucceeded, jr_progress := Fin 1, jr_progress_note := note,
             jr_lease_until := None, jr_worker := [], jr_finished_at := finished,
             jr_updated_at := updated\<rparr>) t) ()"

definition ReleaseJob ::
  "millis \<Rightarrow> millis \<Rightarrow> string \<Rightarrow> jobs_table \<Rightarrow> (db_error + unit) \<times> jobs_table" where
  "ReleaseJob runafter updated i t =
     commit_jobs t (sql_update (\<lambda>r. jr_id r = i \<and> jr_state r = StateRunning)
       (\<lambda>r. r\<lparr>jr_state := StateQueued, jr_attempts := max (jr_attempts r - 1) 0,
             jr_run_after := runafter, jr_lease_until := None, jr_worker := [],
             jr_updated_at := updated\<rparr>) t) ()"

definition RetryJob ::
  "string \<Rightarrow> millis \<Rightarrow> millis \<Rightarrow> string \<Rightarrow> jobs_table \<Rightarrow> (db_error + unit) \<times> jobs_table" where
  "RetryJob err runafter updated i t =
     commit_jobs t (sql_update (\<lambda>r. jr_id r = i)
       (\<lambda>r. r\<lparr>jr_state := StateQueued, jr_last_error := err, jr_run_after := runafter,
             jr_lease_until := None, jr_worker := [], jr_updated_at := updated\<rparr>) t) ()"

definition FailJob ::
  "string \<Rightarrow> millis option \<Rightarrow> millis \<Rightarrow> string \<Rightarrow> jobs_table \<Rightarrow> (db_error + unit) \<times> jobs_table" where
  "FailJob err finished updated i t =
     commit_jobs t (sql_update (\<lambda>r. jr_id r = i)
       (\<lambda>r. r\<lparr>jr_state := StateFailed, jr_last_error := err, jr_lease_until := None,
             jr_worker := [], jr_finished_at := finished, jr_updated_at := updated\<rparr>) t) ()"

definition CancelJob ::
  "millis option \<Rightarrow> millis \<Rightarrow> string \<Rightarrow> jobs_table \<Rightarrow> (db_error + nat) \<times> jobs_table" where
  "CancelJob finished updated i t =
     commit_jobs t (sql_update (\<lambda>r. jr_id r = i \<and> pending r)
       (\<lambda>r. r\<lparr>jr_state := StateCancelled, jr_lease_until := None, jr_worker := [],
             jr_finished_at := finished, jr_updated_at := updated\<rparr>) t)
       (sql_affected (\<lambda>r. jr_id r = i \<and> pending r) t)"

definition lease_expired :: "millis option \<Rightarrow> job_row \<Rightarrow> bool" where
  "lease_expired now r \<longleftrightarrow> jr_state r = StateRunning \<and>
     (case (jr_lease_until r, now) of (Some l, Some n) \<Rightarrow> l < n | _ \<Rightarrow> False)"

definition ReclaimExpiredLeases ::
  "millis \<Rightarrow> millis option \<Rightarrow> jobs_table \<Rightarrow> (db_error + nat) \<times> jobs_table" where
  "ReclaimExpiredLeases updated now t =
     commit_jobs t (sql_update (lease_expired now)
       (\<lambda>r. r\<lparr>jr_state := StateQueued, jr_lease_until := None, jr_worker := [],
             jr_last_error := ''worker lease expired; job reclaimed'',
             jr_updated_at := updated\<rparr>) t)
       (sql_affected (lease_expired now) t)"

definition GetJob :: "string \<Rightarrow> jobs_table \<Rightarrow> db_error + job_row" where
  "GetJob i t = row_result (job_by i t)"

definition GetPendingJobByDedupeKey :: "string option \<Rightarrow> jobs_table \<Rightarrow> db_error + job_row" where
  "GetPendingJobByDedupeKey key t =
     row_result (find (\<lambda>r. key \<noteq> None \<and> jr_dedupe_key r = key \<and> pending r) t)"

definition ListJobs :: "int \<Rightarrow> jobs_table \<Rightarrow> db_error + job_row list" where
  "ListJobs n t = Inr (sql_limit n (sort_key (\<lambda>r. - jr_created_at r) t))"

definition ListJobsByState :: "string \<Rightarrow> int \<Rightarrow> jobs_table \<Rightarrow> db_error + job_row list" where
  "ListJobsByState state n t =
     Inr (sql_limit n (sort_key (\<lambda>r. - jr_created_at r)
       (filter (\<lambda>r. state_text (jr_state r) = state) t)))"

definition ListActiveJobs :: "jobs_table \<Rightarrow> db_error + job_row list" where
  "ListActiveJobs t =
     Inr (sort_key (\<lambda>r. (- jr_priority r, jr_created_at r)) (filter pending t))"

definition CountJobsByState :: "jobs_table \<Rightarrow> db_error + (job_state \<times> nat) list" where
  "CountJobsByState t =
     Inr (map (\<lambda>s. (s, sql_affected (\<lambda>r. jr_state r = s) t))
       (sort (remdups (map jr_state t))))"

definition finished_before :: "millis option \<Rightarrow> job_row \<Rightarrow> bool" where
  "finished_before cutoff r \<longleftrightarrow> Terminal (jr_state r) \<and>
     (case (jr_finished_at r, cutoff) of (Some f, Some c) \<Rightarrow> f < c | _ \<Rightarrow> False)"

definition DeleteFinishedJobsBefore ::
  "millis option \<Rightarrow> jobs_table \<Rightarrow> (db_error + nat) \<times> jobs_table" where
  "DeleteFinishedJobsBefore cutoff t =
     commit_jobs t (sql_delete (finished_before cutoff) t) (sql_affected (finished_before cutoff) t)"

subsection \<open>The constraint check\<close>

lemma jobs_ok_iff:
  "jobs_ok t \<longleftrightarrow> distinct (map jr_id t) \<and> distinct (List.map_filter pending_key t)
     \<and> (\<forall>r \<in> set t. row_violation r = None)"
proof -
  have "(case List.map_filter row_violation t of [] \<Rightarrow> None | m # _ \<Rightarrow> Some m) = None \<longleftrightarrow>
      set (List.map_filter row_violation t) = {}"
    by (simp split: list.split)
  also have "\<dots> \<longleftrightarrow> (\<forall>r \<in> set t. row_violation r = None)"
    unfolding set_eq_iff set_map_filter_iff by (metis empty_iff not_None_eq)
  finally show ?thesis by (auto simp: jobs_ok_def jobs_violation_def)
qed

interpretation jobs: keyed_table jr_id jobs_ok
  by unfold_locales
    (auto simp: jobs_ok_iff distinct_map_filter map_filter_distinct_sub map_filter_simps)

lemma commit_ok [sql_simps]: "jobs_ok t' \<Longrightarrow> commit_jobs t t' v = (Inr v, t')"
  by (simp add: commit_jobs_def jobs_ok_def)

lemma commit_bad: "\<not> jobs_ok t' \<Longrightarrow> \<exists>m. commit_jobs t t' v = (Inl (Constraint m), t)"
  by (auto simp: commit_jobs_def jobs_ok_def)

lemma commit_cases:
  obtains (ok) "jobs_ok t'" "commit_jobs t t' v = (Inr v, t')"
  | (bad) m where "\<not> jobs_ok t'" "commit_jobs t t' v = (Inl (Constraint m), t)"
proof (cases "jobs_ok t'")
  case True
  then show ?thesis by (intro ok commit_ok)
next
  case False
  then show ?thesis using bad commit_bad[of t' t v] by auto
qed

lemma commit_same [simp]: "snd (commit_jobs t t v) = t"
  by (rule commit_cases[of t t v]) auto

text \<open>
  An update passes the check when it keeps ids, makes no finished job pending, and leaves
  every row it touches within the row constraints.
\<close>

lemma pending_keys_update:
  assumes "\<And>r. r \<in> set t \<Longrightarrow> P r \<Longrightarrow> pending_key (f r) \<in> {None, pending_key r}"
  shows "subseq (List.map_filter pending_key (sql_update P f t)) (List.map_filter pending_key t)"
  using assms
proof (induction t)
  case (Cons r t)
  then have "subseq (List.map_filter pending_key (sql_update P f t)) (List.map_filter pending_key t)"
    by simp
  moreover have "P r \<Longrightarrow> pending_key (f r) = None \<or> pending_key (f r) = pending_key r"
    using Cons.prems by simp
  ultimately show ?case
    by (auto simp: sql_update_def map_filter_simps split: option.splits)
qed (simp add: sql_update_def)

lemma update_ok [commit_intros]:
  assumes "jobs_ok t"
    and "\<And>r. r \<in> set t \<Longrightarrow> P r \<Longrightarrow> jr_id (f r) = jr_id r"
    and "\<And>r. r \<in> set t \<Longrightarrow> P r \<Longrightarrow> pending_key (f r) \<in> {None, pending_key r}"
    and "\<And>r. r \<in> set t \<Longrightarrow> P r \<Longrightarrow> row_violation r = None \<Longrightarrow> row_violation (f r) = None"
  shows "jobs_ok (sql_update P f t)"
proof -
  have "map jr_id (sql_update P f t) = map jr_id t"
    using assms(2) by (simp add: sql_update_def)
  moreover have "distinct (List.map_filter pending_key (sql_update P f t))"
    using pending_keys_update[of t P f] assms(1,3)
    by (auto simp: jobs_ok_iff dest: distinct_subseq)
  moreover have "\<forall>r \<in> set (sql_update P f t). row_violation r = None"
    using assms(1,4) by (auto simp: jobs_ok_iff set_sql_update)
  ultimately show ?thesis using assms(1) by (simp add: jobs_ok_iff)
qed

lemma append_ok:
  "jobs_ok t \<Longrightarrow> job_by (jr_id r) t = None \<Longrightarrow>
   (\<And>k. pending_key r = Some k \<Longrightarrow> k \<notin> set (List.map_filter pending_key t)) \<Longrightarrow>
   row_violation r = None \<Longrightarrow> jobs_ok (t @ [r])"
  by (auto simp: jobs_ok_iff row_by_None_iff map_filter_append_iff map_filter_simps split: option.splits)

subsection \<open>What each statement does when the table satisfies its constraints\<close>

text \<open>
  The statements that only finish jobs, move them between the two pending states or rewrite
  bookkeeping columns never fail a constraint. \<open>RetryJob\<close> is not among them: it may move a
  finished job back to \<open>queued\<close>.
\<close>

lemma CompleteJob_ok [sql_simps]:
  "jobs_ok t \<Longrightarrow> CompleteJob note finished updated i t = (Inr (), sql_update (\<lambda>r. jr_id r = i)
       (\<lambda>r. r\<lparr>jr_state := StateSucceeded, jr_progress := Fin 1, jr_progress_note := note,
             jr_lease_until := None, jr_worker := [], jr_finished_at := finished,
             jr_updated_at := updated\<rparr>) t)"
  unfolding CompleteJob_def
  by (intro commit_ok update_ok) (auto simp: pending_key_def pending_def row_violation_def split: if_splits)

lemma FailJob_ok [sql_simps]:
  "jobs_ok t \<Longrightarrow> FailJob err finished updated i t = (Inr (), sql_update (\<lambda>r. jr_id r = i)
       (\<lambda>r. r\<lparr>jr_state := StateFailed, jr_last_error := err, jr_lease_until := None,
             jr_worker := [], jr_finished_at := finished, jr_updated_at := updated\<rparr>) t)"
  unfolding FailJob_def
  by (intro commit_ok update_ok) (auto simp: pending_key_def pending_def row_violation_def split: if_splits)

lemma ReleaseJob_ok [sql_simps]:
  "jobs_ok t \<Longrightarrow> ReleaseJob runafter updated i t =
     (Inr (), sql_update (\<lambda>r. jr_id r = i \<and> jr_state r = StateRunning)
       (\<lambda>r. r\<lparr>jr_state := StateQueued, jr_attempts := max (jr_attempts r - 1) 0,
             jr_run_after := runafter, jr_lease_until := None, jr_worker := [],
             jr_updated_at := updated\<rparr>) t)"
  unfolding ReleaseJob_def
  by (intro commit_ok update_ok)
    (auto simp: pending_key_def pending_def row_violation_def in64_def split: if_splits)

lemma ExtendLease_ok [sql_simps]:
  "jobs_ok t \<Longrightarrow> ExtendLease lease updated i t =
     (Inr (), sql_update (\<lambda>r. jr_id r = i \<and> jr_state r = StateRunning)
       (\<lambda>r. r\<lparr>jr_lease_until := lease, jr_updated_at := updated\<rparr>) t)"
  unfolding ExtendLease_def
  by (intro commit_ok update_ok) (auto simp: pending_key_def pending_def row_violation_def split: if_splits)

lemma CancelJob_ok [sql_simps]:
  "jobs_ok t \<Longrightarrow> CancelJob finished updated i t =
     (Inr (sql_affected (\<lambda>r. jr_id r = i \<and> pending r) t),
      sql_update (\<lambda>r. jr_id r = i \<and> pending r)
       (\<lambda>r. r\<lparr>jr_state := StateCancelled, jr_lease_until := None, jr_worker := [],
             jr_finished_at := finished, jr_updated_at := updated\<rparr>) t)"
  unfolding CancelJob_def
  by (intro commit_ok update_ok) (auto simp: pending_key_def pending_def row_violation_def split: if_splits)

lemma ReclaimExpiredLeases_ok [sql_simps]:
  "jobs_ok t \<Longrightarrow> ReclaimExpiredLeases updated now t =
     (Inr (sql_affected (lease_expired now) t), sql_update (lease_expired now)
       (\<lambda>r. r\<lparr>jr_state := StateQueued, jr_lease_until := None, jr_worker := [],
             jr_last_error := ''worker lease expired; job reclaimed'',
             jr_updated_at := updated\<rparr>) t)"
  unfolding ReclaimExpiredLeases_def
  by (intro commit_ok update_ok)
    (auto simp: pending_key_def pending_def row_violation_def lease_expired_def split: if_splits)

lemma DeleteFinishedJobsBefore_ok [sql_simps]:
  "jobs_ok t \<Longrightarrow> DeleteFinishedJobsBefore cutoff t =
     (Inr (sql_affected (finished_before cutoff) t), sql_delete (finished_before cutoff) t)"
  unfolding DeleteFinishedJobsBefore_def by (intro commit_ok jobs.ok_delete)

lemma UpdateJobProgress_ok [sql_simps]:
  "jobs_ok t \<Longrightarrow> float_le (Fin 0) p \<Longrightarrow> float_le p (Fin 1) \<Longrightarrow>
   UpdateJobProgress p note updated i t =
     (Inr (), sql_update (\<lambda>r. jr_id r = i \<and> jr_state r = StateRunning)
       (\<lambda>r. r\<lparr>jr_progress := p, jr_progress_note := note, jr_updated_at := updated\<rparr>) t)"
  unfolding UpdateJobProgress_def
  by (intro commit_ok update_ok) (auto simp: pending_key_def pending_def row_violation_def split: if_splits)

lemma claim_row_sel [simp]:
  "jr_id (claim_row w l s u r) = jr_id r"
  "jr_state (claim_row w l s u r) = StateRunning"
  "jr_attempts (claim_row w l s u r) = jr_attempts r + 1"
  "jr_lease_until (claim_row w l s u r) = l"
  "jr_worker (claim_row w l s u r) = w"
  "jr_dedupe_key (claim_row w l s u r) = jr_dedupe_key r"
  "jr_priority (claim_row w l s u r) = jr_priority r"
  "jr_max_attempts (claim_row w l s u r) = jr_max_attempts r"
  "jr_kind (claim_row w l s u r) = jr_kind r"
  by (simp_all add: claim_row_def)

lemma next_runnable_NoneD: "next_runnable now t = None \<longleftrightarrow> (\<forall>r \<in> set t. \<not> runnable now r)"
proof -
  have "next_runnable now t = None \<longleftrightarrow> sort_key claim_order (filter (runnable now) t) = []"
    by (simp add: next_runnable_def split: list.split)
  then show ?thesis by (simp add: sort_key_Nil_iff filter_empty_conv)
qed

lemma next_runnable_SomeD:
  assumes "next_runnable now t = Some i"
  obtains r where "r \<in> set t" "jr_id r = i" "runnable now r"
    "\<And>x. x \<in> set t \<Longrightarrow> runnable now x \<Longrightarrow> claim_order r \<le> claim_order x"
proof -
  from assms obtain r rs where s: "sort_key claim_order (filter (runnable now) t) = r # rs"
    and i: "jr_id r = i"
    by (auto simp: next_runnable_def split: list.splits)
  from s have "r \<in> set (filter (runnable now) t)" by (rule sort_key_Cons_mem)
  moreover have "claim_order r \<le> claim_order x" if "x \<in> set t" "runnable now x" for x
    using hd_sort_key_least[OF s, of x] that by simp
  ultimately show thesis using i that by auto
qed

text \<open>
  A claim takes the runnable job that is first in the claim order, or reports that there is
  none; it fails only where the attempt counter would leave 64 bits.
\<close>

lemma ClaimNextJob_cases:
  assumes ok: "jobs_ok t" and room: "\<forall>r \<in> set t. jr_attempts r < 2 ^ 63 - 1"
  obtains (none) "\<forall>r \<in> set t. \<not> runnable now r"
      "ClaimNextJob w l s u now t = (Inl NoRows, t)"
    | (job) r where "r \<in> set t" "runnable now r"
      "\<And>x. x \<in> set t \<Longrightarrow> runnable now x \<Longrightarrow> claim_order r \<le> claim_order x"
      "ClaimNextJob w l s u now t =
         (Inr (claim_row w l s u r), sql_update (\<lambda>x. jr_id x = jr_id r) (claim_row w l s u) t)"
proof (cases "next_runnable now t")
  case None
  then have "\<forall>r \<in> set t. \<not> runnable now r" by (simp add: next_runnable_NoneD)
  moreover have "ClaimNextJob w l s u now t = (Inl NoRows, t)"
    using None by (simp add: ClaimNextJob_def)
  ultimately show ?thesis by (rule none)
next
  case (Some i)
  then obtain r where r: "r \<in> set t" "jr_id r = i" "runnable now r"
    and least: "\<And>x. x \<in> set t \<Longrightarrow> runnable now x \<Longrightarrow> claim_order r \<le> claim_order x"
    by (rule next_runnable_SomeD) blast
  let ?t = "sql_update (\<lambda>x. jr_id x = i) (claim_row w l s u) t"
  have ri: "job_by i t = Some r" using jobs.row_of_mem[OF ok r(1)] r(2) by simp
  have uniq: "x = r" if "x \<in> set t" "jr_id x = i" for x
    using jobs.row_of_mem[OF ok that(1)] that(2) ri by simp
  have "jobs_ok ?t"
    using ok
  proof (rule update_ok)
    fix x assume x: "x \<in> set t" "jr_id x = i"
    then have "x = r" by (rule uniq)
    with r(3) show "pending_key (claim_row w l s u x) \<in> {None, pending_key x}"
      by (simp add: pending_key_def pending_def runnable_def)
    assume "row_violation x = None"
    with bspec[OF room x(1)] show "row_violation (claim_row w l s u x) = None"
      by (auto simp: row_violation_def claim_row_def in64_def split: if_splits)
  qed (simp add: claim_row_def)
  moreover have "job_by i ?t = Some (claim_row w l s u r)"
    using jobs.row_after_update[where k = i and k' = i and Q = "\<lambda>_. True" and f = "claim_row w l s u" and t = t]
      ri by simp
  ultimately have "ClaimNextJob w l s u now t = (Inr (claim_row w l s u r), ?t)"
    using Some by (simp add: ClaimNextJob_def commit_ok)
  then show ?thesis using job[OF r(1,3) least] r(2) by simp
qed

lemma ClaimNextJob_elim:
  assumes ok: "jobs_ok t"
  obtains (same) e where "ClaimNextJob w l s u now t = (Inl e, t)"
    | (job) r where "job_by (jr_id r) t = Some r" "runnable now r"
      "ClaimNextJob w l s u now t =
         (Inr (claim_row w l s u r), sql_update (\<lambda>x. jr_id x = jr_id r) (claim_row w l s u) t)"
proof (cases "next_runnable now t")
  case None
  then show ?thesis by (intro same[of NoRows]) (simp add: ClaimNextJob_def)
next
  case (Some i)
  then obtain r where r: "r \<in> set t" "jr_id r = i" "runnable now r"
    by (rule next_runnable_SomeD)
  let ?t = "sql_update (\<lambda>x. jr_id x = i) (claim_row w l s u) t"
  have ri: "job_by i t = Some r" using jobs.row_of_mem[OF ok r(1)] r(2) by simp
  then have "job_by i ?t = Some (claim_row w l s u r)"
    using jobs.row_after_update[where k = i and k' = i and Q = "\<lambda>_. True" and f = "claim_row w l s u" and t = t]
    by simp
  then have e: "ClaimNextJob w l s u now t = commit_jobs t ?t (claim_row w l s u r)"
    using Some by (simp add: ClaimNextJob_def)
  show ?thesis
  proof (cases rule: commit_cases[of ?t t "claim_row w l s u r"])
    case ok
    then show ?thesis using e r ri by (intro job[of r]) simp_all
  next
    case (bad m)
    then show ?thesis using e by (intro same[of "Constraint m"]) simp
  qed
qed

subsection \<open>The invariant of the table\<close>

text \<open>
  Beyond the schema's constraints: a lease is held exactly while a job is running, a running
  job has started and has used an attempt, only a running job names a worker, a finished job
  has a finish time, and a succeeded job is complete.
\<close>

definition row_inv :: "job_row \<Rightarrow> bool" where
  "row_inv r \<longleftrightarrow>
     (jr_state r = StateRunning \<longleftrightarrow> jr_lease_until r \<noteq> None) \<and>
     (jr_state r = StateRunning \<longrightarrow> jr_started_at r \<noteq> None \<and> 1 \<le> jr_attempts r) \<and>
     (jr_state r \<noteq> StateRunning \<longrightarrow> jr_worker r = []) \<and>
     (Terminal (jr_state r) \<longrightarrow> jr_finished_at r \<noteq> None) \<and>
     (jr_state r = StateSucceeded \<longrightarrow> jr_progress r = Fin 1) \<and>
     0 \<le> jr_attempts r"

definition jobs_inv :: "jobs_table \<Rightarrow> bool" where
  "jobs_inv t \<longleftrightarrow> jobs_ok t \<and> (\<forall>r \<in> set t. row_inv r)"

lemma jobs_inv_ok [simp, dest]: "jobs_inv t \<Longrightarrow> jobs_ok t"
  by (simp add: jobs_inv_def)

lemma jobs_inv_Nil [simp]: "jobs_inv []"
  by (simp add: jobs_inv_def jobs.ok_empty)

lemma commit_inv:
  assumes "jobs_inv t" and "\<forall>r \<in> set t'. row_inv r"
  shows "jobs_inv (snd (commit_jobs t t' v))"
  by (rule commit_cases[of t' t v]) (use assms in \<open>auto simp: jobs_inv_def\<close>)

lemma update_inv:
  assumes "jobs_inv t" and "\<And>r. r \<in> set t \<Longrightarrow> P r \<Longrightarrow> row_inv r \<Longrightarrow> row_inv (f r)"
  shows "jobs_inv (snd (commit_jobs t (sql_update P f t) v))"
  using assms by (intro commit_inv) (auto simp: jobs_inv_def set_sql_update)

lemma EnqueueJob_inv:
  "jobs_inv t \<Longrightarrow> jobs_inv (snd (EnqueueJob i k pl pr m d ra c u t))"
  unfolding EnqueueJob_def Let_def
  by (rule commit_inv) (auto simp: jobs_inv_def row_inv_def)

lemma ClaimNextJob_inv:
  assumes "jobs_inv t"
  shows "jobs_inv (snd (ClaimNextJob w (Some l) (Some s) u now t))"
proof -
  have "jobs_inv (snd (commit_jobs t (sql_update (\<lambda>r. jr_id r = i)
      (claim_row w (Some l) (Some s) u) t) v))" for i v
    using assms by (rule update_inv) (auto simp: row_inv_def claim_row_def split: option.splits)
  then show ?thesis
    using assms by (auto simp: ClaimNextJob_def Let_def split: option.splits)
qed

lemma UpdateJobProgress_inv:
  "jobs_inv t \<Longrightarrow> jobs_inv (snd (UpdateJobProgress p n u i t))"
  unfolding UpdateJobProgress_def by (rule update_inv) (auto simp: row_inv_def)

lemma ExtendLease_inv:
  "jobs_inv t \<Longrightarrow> jobs_inv (snd (ExtendLease (Some l) u i t))"
  unfolding ExtendLease_def by (rule update_inv) (auto simp: row_inv_def)

lemma RecordJobUsage_inv:
  "jobs_inv t \<Longrightarrow> jobs_inv (snd (RecordJobUsage ti to c u i t))"
  unfolding RecordJobUsage_def by (rule update_inv) (auto simp: row_inv_def)

lemma CompleteJob_inv:
  "jobs_inv t \<Longrightarrow> jobs_inv (snd (CompleteJob n (Some f) u i t))"
  unfolding CompleteJob_def by (rule update_inv) (auto simp: row_inv_def)

lemma ReleaseJob_inv:
  "jobs_inv t \<Longrightarrow> jobs_inv (snd (ReleaseJob ra u i t))"
  unfolding ReleaseJob_def by (rule update_inv) (auto simp: row_inv_def)

lemma RetryJob_inv:
  "jobs_inv t \<Longrightarrow> jobs_inv (snd (RetryJob e ra u i t))"
  unfolding RetryJob_def by (rule update_inv) (auto simp: row_inv_def)

lemma FailJob_inv:
  "jobs_inv t \<Longrightarrow> jobs_inv (snd (FailJob e (Some f) u i t))"
  unfolding FailJob_def by (rule update_inv) (auto simp: row_inv_def)

lemma CancelJob_inv:
  "jobs_inv t \<Longrightarrow> jobs_inv (snd (CancelJob (Some f) u i t))"
  unfolding CancelJob_def by (rule update_inv) (auto simp: row_inv_def)

lemma ReclaimExpiredLeases_inv:
  "jobs_inv t \<Longrightarrow> jobs_inv (snd (ReclaimExpiredLeases u n t))"
  unfolding ReclaimExpiredLeases_def by (rule update_inv) (auto simp: row_inv_def)

lemma DeleteFinishedJobsBefore_inv:
  "jobs_inv t \<Longrightarrow> jobs_inv (snd (DeleteFinishedJobsBefore c t))"
  unfolding DeleteFinishedJobsBefore_def by (rule commit_inv) (auto simp: jobs_inv_def)

lemmas stmt_inv = EnqueueJob_inv ClaimNextJob_inv UpdateJobProgress_inv ExtendLease_inv
  RecordJobUsage_inv CompleteJob_inv ReleaseJob_inv RetryJob_inv FailJob_inv CancelJob_inv
  ReclaimExpiredLeases_inv DeleteFinishedJobsBefore_inv

text \<open>A statement that does not reach the database leaves the table as it is.\<close>

lemma run_stmt_inv: "(jobs_inv t \<Longrightarrow> jobs_inv (snd (st t))) \<Longrightarrow> jobs_inv t \<Longrightarrow> jobs_inv (snd (run_stmt f st t))"
  by (cases f) auto

subsection \<open>An example row\<close>

definition demo_row :: job_row where
  "demo_row = \<lparr>jr_id = ''j1'', jr_kind = ''convert'', jr_payload = ''{}'', jr_state = StateQueued,
     jr_priority = 0, jr_progress = Fin 0, jr_progress_note = [], jr_attempts = 0,
     jr_max_attempts = 3, jr_last_error = [], jr_tokens_in = 0, jr_tokens_out = 0,
     jr_cost_micros = 0, jr_run_after = 0, jr_lease_until = None, jr_worker = [],
     jr_dedupe_key = Some ''k'', jr_created_at = 0, jr_updated_at = 0, jr_started_at = None,
     jr_finished_at = None\<rparr>"

definition demo_running :: job_row where
  "demo_running = (claim_row ''worker-0'' (Some 900) (Some 0) 0 demo_row)\<lparr>jr_dedupe_key := None\<rparr>"

lemma demo_sel:
  "jr_id demo_row = ''j1''" "jr_kind demo_row = ''convert''" "jr_state demo_row = StateQueued"
  "jr_attempts demo_row = 0" "jr_max_attempts demo_row = 3" "jr_run_after demo_row = 0"
  "jr_dedupe_key demo_row = Some ''k''"
  by (simp_all add: demo_row_def)

lemma demo_running_sel:
  "jr_id demo_running = ''j1''" "jr_kind demo_running = ''convert''"
  "jr_state demo_running = StateRunning" "jr_attempts demo_running = 1"
  "jr_max_attempts demo_running = 3" "jr_lease_until demo_running = Some 900"
  "jr_dedupe_key demo_running = None"
  by (simp_all add: demo_running_def demo_sel)

lemma demo_inv: "jobs_inv [demo_row]" "jobs_inv [demo_running]"
  by (simp_all add: jobs_inv_def jobs_ok_iff row_inv_def row_violation_def in64_def demo_running_def
    demo_row_def claim_row_def map_filter_simps pending_key_def split: option.split)

definition demo_failed :: job_row where
  "demo_failed = demo_row\<lparr>jr_state := StateFailed, jr_attempts := 3, jr_last_error := ''boom'', jr_finished_at := Some 900\<rparr>"

lemma demo_failed_sel: "jr_id demo_failed = ''j1''" "jr_state demo_failed = StateFailed"
  by (simp_all add: demo_failed_def demo_sel)

lemma demo_failed_inv: "jobs_inv [demo_failed]"
  by (simp add: jobs_inv_def jobs_ok_iff row_inv_def row_violation_def in64_def demo_failed_def
    demo_row_def map_filter_simps pending_key_def pending_def)

end
