(* ===== verification/Broker.thy ===== *)
theory Broker
  imports Prelude
begin

text \<open>
  \<open>internal/jobs/broker.go\<close>: the event broker. Channels live in a heap addressed by position,
  because a subscriber keeps its end of the channel after the broker has dropped it from
  \<open>subs\<close>. Sending on a closed channel and closing a channel twice panic in Go; the model
  records that in \<open>br_panic\<close>, so that "no operation ever panics" is part of the
  invariant. The cancel function \<open>Subscribe\<close> returns is the subscription number it closes
  over, \<open>None\<close> for the no-op a closed broker hands out.
\<close>

definition eventBuffer :: nat where
  "eventBuffer = 32"

record 'e channel =
  ch_buf :: "'e list"
  ch_closed :: bool

record 'e broker =
  br_next :: nat
  br_subs :: "(nat \<times> nat) list"
  br_closed :: bool
  br_heap :: "'e channel list"
  br_panic :: bool

definition NewBroker :: "'e broker" where
  "NewBroker = \<lparr>br_next = 0, br_subs = [], br_closed = False, br_heap = [], br_panic = False\<rparr>"

definition close_chan :: "nat \<Rightarrow> 'e broker \<Rightarrow> 'e broker" where
  "close_chan ch b =
     (if ch_closed (br_heap b ! ch) then b\<lparr>br_panic := True\<rparr>
      else b\<lparr>br_heap := (br_heap b)[ch := (br_heap b ! ch)\<lparr>ch_closed := True\<rparr>]\<rparr>)"

definition send_or_drop :: "'e \<Rightarrow> nat \<Rightarrow> 'e broker \<Rightarrow> 'e broker" where
  "send_or_drop ev ch b =
     (let c = br_heap b ! ch in
      if ch_closed c then b\<lparr>br_panic := True\<rparr>
      else if length (ch_buf c) < eventBuffer
        then b\<lparr>br_heap := (br_heap b)[ch := c\<lparr>ch_buf := ch_buf c @ [ev]\<rparr>]\<rparr>
      else b)"

definition Subscribe :: "'e broker \<Rightarrow> (nat \<times> nat option) \<times> 'e broker" where
  "Subscribe b =
     (let ch = length (br_heap b) in
      if br_closed b then
        ((ch, None), b\<lparr>br_heap := br_heap b @ [\<lparr>ch_buf = [], ch_closed = True\<rparr>]\<rparr>)
      else
        ((ch, Some (br_next b)),
         b\<lparr>br_next := br_next b + 1, br_subs := (br_next b, ch) # br_subs b,
           br_heap := br_heap b @ [\<lparr>ch_buf = [], ch_closed = False\<rparr>]\<rparr>))"

definition Unsubscribe :: "nat option \<Rightarrow> 'e broker \<Rightarrow> 'e broker" where
  "Unsubscribe fid b =
     (case fid of None \<Rightarrow> b
      | Some f \<Rightarrow> (case map_of (br_subs b) f of
            None \<Rightarrow> b
          | Some ch \<Rightarrow> close_chan ch (b\<lparr>br_subs := filter (\<lambda>(g, _). g \<noteq> f) (br_subs b)\<rparr>)))"

definition Publish :: "'e \<Rightarrow> 'e broker \<Rightarrow> 'e broker" where
  "Publish ev b = fold (\<lambda>(_, ch). send_or_drop ev ch) (br_subs b) b"

definition Subscribers :: "'e broker \<Rightarrow> nat" where
  "Subscribers b = length (br_subs b)"

definition Close :: "'e broker \<Rightarrow> 'e broker" where
  "Close b =
     (if br_closed b then b
      else fold (\<lambda>(_, ch). close_chan ch) (br_subs b) (b\<lparr>br_closed := True, br_subs := []\<rparr>))"

text \<open>
  A receive on a channel: \<open>None\<close> when it would block, \<open>Some None\<close> from a closed and drained
  channel, otherwise the oldest buffered event.
\<close>

definition receive :: "nat \<Rightarrow> 'e broker \<Rightarrow> 'e option option \<times> 'e broker" where
  "receive ch b =
     (case ch_buf (br_heap b ! ch) of
        [] \<Rightarrow> (if ch_closed (br_heap b ! ch) then Some None else None, b)
      | e # es \<Rightarrow> (Some (Some e),
          b\<lparr>br_heap := (br_heap b)[ch := (br_heap b ! ch)\<lparr>ch_buf := es\<rparr>]\<rparr>))"

subsection \<open>The invariant\<close>

definition broker_inv :: "'e broker \<Rightarrow> bool" where
  "broker_inv b \<longleftrightarrow>
     distinct (map fst (br_subs b)) \<and> distinct (map snd (br_subs b)) \<and>
     (\<forall>f c. (f, c) \<in> set (br_subs b) \<longrightarrow> f < br_next b \<and> c < length (br_heap b)
        \<and> \<not> ch_closed (br_heap b ! c)) \<and>
     (\<forall>i < length (br_heap b). length (ch_buf (br_heap b ! i)) \<le> eventBuffer) \<and>
     (br_closed b \<longrightarrow> br_subs b = []) \<and> \<not> br_panic b"

lemma broker_inv_New: "broker_inv NewBroker"
  by (simp add: broker_inv_def NewBroker_def)

lemma broker_invD:
  assumes "broker_inv b"
  shows "distinct (map snd (br_subs b))" "\<not> br_panic b"
    "(f, c) \<in> set (br_subs b) \<Longrightarrow> c < length (br_heap b) \<and> \<not> ch_closed (br_heap b ! c)"
    "c < length (br_heap b) \<Longrightarrow> length (ch_buf (br_heap b ! c)) \<le> eventBuffer"
  using assms by (auto simp: broker_inv_def)

lemma Subscribe_inv: "broker_inv b \<Longrightarrow> broker_inv (snd (Subscribe b))"
  by (fastforce simp: broker_inv_def Subscribe_def Let_def nth_append less_Suc_eq)

lemma receive_inv: "broker_inv b \<Longrightarrow> broker_inv (snd (receive ch b))"
proof (cases "ch < length (br_heap b)")
  case True
  assume inv: "broker_inv b"
  have "length (ch_buf (br_heap b ! ch)) \<le> eventBuffer" by (rule broker_invD(4)[OF inv True])
  with inv True show ?thesis
    by (auto simp: broker_inv_def receive_def nth_list_update split: list.split)
next
  case False
  then show "broker_inv b \<Longrightarrow> broker_inv (snd (receive ch b))"
    by (auto simp: broker_inv_def receive_def list_update_beyond split: list.splits)
qed

subsection \<open>Publishing\<close>

definition push :: "'e \<Rightarrow> 'e channel \<Rightarrow> 'e channel" where
  "push ev c = (if length (ch_buf c) < eventBuffer then c\<lparr>ch_buf := ch_buf c @ [ev]\<rparr> else c)"

lemma push_sel [simp]:
  "ch_closed (push ev c) = ch_closed c"
  "length (ch_buf c) \<le> eventBuffer \<Longrightarrow> length (ch_buf (push ev c)) \<le> eventBuffer"
  by (auto simp: push_def)

lemma fold_send:
  assumes "distinct chs" and "\<And>c. c \<in> set chs \<Longrightarrow> c < length (br_heap b) \<and> \<not> ch_closed (br_heap b ! c)"
  shows "fold (send_or_drop ev) chs b =
    b\<lparr>br_heap := map (\<lambda>i. if i \<in> set chs then push ev (br_heap b ! i) else br_heap b ! i)
        [0..<length (br_heap b)]\<rparr>"
  using assms
proof (induction chs arbitrary: b)
  case Nil
  then show ?case by (simp add: map_nth)
next
  case (Cons c chs)
  have c: "c < length (br_heap b)" "\<not> ch_closed (br_heap b ! c)" using Cons.prems by auto
  have s: "send_or_drop ev c b = b\<lparr>br_heap := (br_heap b)[c := push ev (br_heap b ! c)]\<rparr>"
    using c by (simp add: send_or_drop_def push_def Let_def)
  have "fold (send_or_drop ev) chs (send_or_drop ev c b) =
     (send_or_drop ev c b)\<lparr>br_heap := map (\<lambda>i. if i \<in> set chs
        then push ev (br_heap (send_or_drop ev c b) ! i) else br_heap (send_or_drop ev c b) ! i)
        [0..<length (br_heap (send_or_drop ev c b))]\<rparr>"
    using Cons.prems s by (intro Cons.IH) (auto simp: nth_list_update)
  also have "\<dots> = b\<lparr>br_heap := map (\<lambda>i. if i \<in> set (c # chs) then push ev (br_heap b ! i)
      else br_heap b ! i) [0..<length (br_heap b)]\<rparr>"
    using Cons.prems c by (auto simp: s nth_list_update)
  finally show ?case by simp
qed

lemma fold_snd: "fold (\<lambda>(_, ch). f ch) xs b = fold f (map snd xs) b"
  by (induction xs arbitrary: b) auto

text \<open>Publishing appends the event to exactly the subscribed channels that have room.\<close>

lemma Publish_eq:
  assumes "broker_inv b"
  shows "Publish ev b =
    b\<lparr>br_heap := map (\<lambda>i. if i \<in> snd ` set (br_subs b) then push ev (br_heap b ! i)
        else br_heap b ! i) [0..<length (br_heap b)]\<rparr>"
proof -
  have "Publish ev b = fold (send_or_drop ev) (map snd (br_subs b)) b"
    unfolding Publish_def by (rule fold_snd)
  also have "\<dots> = b\<lparr>br_heap := map (\<lambda>i. if i \<in> set (map snd (br_subs b))
      then push ev (br_heap b ! i) else br_heap b ! i) [0..<length (br_heap b)]\<rparr>"
    using broker_invD[OF assms] by (intro fold_send) auto
  finally show ?thesis by simp
qed

lemma Publish_inv: "broker_inv b \<Longrightarrow> broker_inv (Publish ev b)"
  unfolding Publish_eq by (auto simp: broker_inv_def)

lemma Publish_sel [simp]:
  "broker_inv b \<Longrightarrow> br_subs (Publish ev b) = br_subs b"
  "broker_inv b \<Longrightarrow> length (br_heap (Publish ev b)) = length (br_heap b)"
  "broker_inv b \<Longrightarrow> br_closed (Publish ev b) = br_closed b"
  by (simp_all add: Publish_eq)

subsection \<open>Closing\<close>

definition shut :: "'e channel \<Rightarrow> 'e channel" where
  "shut c = c\<lparr>ch_closed := True\<rparr>"

lemma fold_close:
  assumes "distinct chs" and "\<And>c. c \<in> set chs \<Longrightarrow> c < length (br_heap b) \<and> \<not> ch_closed (br_heap b ! c)"
  shows "fold close_chan chs b =
    b\<lparr>br_heap := map (\<lambda>i. if i \<in> set chs then shut (br_heap b ! i) else br_heap b ! i)
        [0..<length (br_heap b)]\<rparr>"
  using assms
proof (induction chs arbitrary: b)
  case Nil
  then show ?case by (simp add: map_nth)
next
  case (Cons c chs)
  have c: "c < length (br_heap b)" "\<not> ch_closed (br_heap b ! c)" using Cons.prems by auto
  have s: "close_chan c b = b\<lparr>br_heap := (br_heap b)[c := shut (br_heap b ! c)]\<rparr>"
    using c by (simp add: close_chan_def shut_def)
  have "fold close_chan chs (close_chan c b) =
     (close_chan c b)\<lparr>br_heap := map (\<lambda>i. if i \<in> set chs
        then shut (br_heap (close_chan c b) ! i) else br_heap (close_chan c b) ! i)
        [0..<length (br_heap (close_chan c b))]\<rparr>"
    using Cons.prems s by (intro Cons.IH) (auto simp: nth_list_update)
  also have "\<dots> = b\<lparr>br_heap := map (\<lambda>i. if i \<in> set (c # chs) then shut (br_heap b ! i)
      else br_heap b ! i) [0..<length (br_heap b)]\<rparr>"
    using Cons.prems c by (auto simp: s nth_list_update)
  finally show ?case by simp
qed

lemma Close_eq:
  assumes "broker_inv b" "\<not> br_closed b"
  shows "Close b =
    b\<lparr>br_closed := True, br_subs := [],
      br_heap := map (\<lambda>i. if i \<in> snd ` set (br_subs b) then shut (br_heap b ! i)
        else br_heap b ! i) [0..<length (br_heap b)]\<rparr>"
proof -
  have "Close b = fold close_chan (map snd (br_subs b)) (b\<lparr>br_closed := True, br_subs := []\<rparr>)"
    using assms(2) by (simp add: Close_def fold_snd)
  also have "\<dots> = b\<lparr>br_closed := True, br_subs := [],
      br_heap := map (\<lambda>i. if i \<in> set (map snd (br_subs b))
      then shut (br_heap b ! i) else br_heap b ! i) [0..<length (br_heap b)]\<rparr>"
    using broker_invD[OF assms(1)] by (subst fold_close) auto
  finally show ?thesis by simp
qed

lemma Close_inv: "broker_inv b \<Longrightarrow> broker_inv (Close b)"
proof (cases "br_closed b")
  case True
  then show "broker_inv b \<Longrightarrow> broker_inv (Close b)" by (simp add: Close_def)
next
  case False
  then show "broker_inv b \<Longrightarrow> broker_inv (Close b)"
    by (auto simp: Close_eq) (auto simp: broker_inv_def shut_def)
qed

lemma Unsubscribe_inv:
  assumes "broker_inv b"
  shows "broker_inv (Unsubscribe fid b)"
proof (cases "fid = None \<or> map_of (br_subs b) (the fid) = None")
  case True
  with assms show ?thesis by (auto simp: Unsubscribe_def split: option.splits)
next
  case False
  then obtain f ch where f: "fid = Some f" "map_of (br_subs b) f = Some ch" by auto
  then have m: "(f, ch) \<in> set (br_subs b)" by (simp add: map_of_SomeD)
  let ?subs = "filter (\<lambda>(g, _). g \<noteq> f) (br_subs b)"
  have other: "c \<noteq> ch" if "(g, c) \<in> set ?subs" for g c
    using that m broker_invD(1)[OF assms] inj_onD[of snd "set (br_subs b)" "(g, c)" "(f, ch)"]
    by (auto simp: distinct_map)
  have "Unsubscribe fid b =
      b\<lparr>br_subs := ?subs, br_heap := (br_heap b)[ch := shut (br_heap b ! ch)]\<rparr>"
    using f broker_invD(3)[OF assms m] by (simp add: Unsubscribe_def close_chan_def shut_def)
  moreover have "broker_inv (b\<lparr>br_subs := ?subs, br_heap := (br_heap b)[ch := shut (br_heap b ! ch)]\<rparr>)"
    using assms other broker_invD(3)[OF assms m]
    by (auto simp: broker_inv_def distinct_map_filter nth_list_update shut_def)
  ultimately show ?thesis by simp
qed

lemmas broker_step_inv = Subscribe_inv Unsubscribe_inv Publish_inv Close_inv receive_inv

subsection \<open>What a subscriber sees\<close>

text \<open>
  The life of one subscription between \<open>Subscribe\<close> and its cancel function: publishes by
  anybody, and receives by the subscriber. \<open>follow\<close> runs such a sequence and collects the
  events the subscriber got.
\<close>

datatype 'e bus_step = Pub 'e | Recv

fun follow :: "nat \<Rightarrow> 'e bus_step list \<Rightarrow> 'e broker \<times> 'e list \<Rightarrow> 'e broker \<times> 'e list" where
  "follow ch [] s = s"
| "follow ch (Pub e # ss) (b, got) = follow ch ss (Publish e b, got)"
| "follow ch (Recv # ss) (b, got) =
     (case receive ch b of
        (Some (Some e), b') \<Rightarrow> follow ch ss (b', got @ [e])
      | (_, b') \<Rightarrow> follow ch ss (b', got))"

fun published :: "'e bus_step list \<Rightarrow> 'e list" where
  "published [] = []"
| "published (Pub e # ss) = e # published ss"
| "published (Recv # ss) = published ss"

lemma Publish_chan:
  assumes "broker_inv b" "(f, ch) \<in> set (br_subs b)"
  shows "br_heap (Publish e b) ! ch = push e (br_heap b ! ch)"
proof -
  have "ch < length (br_heap b)" using broker_invD(3)[OF assms] by simp
  moreover have "ch \<in> snd ` set (br_subs b)" using assms(2) by force
  ultimately show ?thesis by (simp add: Publish_eq[OF assms(1)])
qed

lemma receive_cases:
  assumes "ch < length (br_heap b)"
  obtains (empty) "receive ch b = (if ch_closed (br_heap b ! ch) then Some None else None, b)"
      "ch_buf (br_heap b ! ch) = []"
  | (event) e es b' where "receive ch b = (Some (Some e), b')" "ch_buf (br_heap b ! ch) = e # es"
      "ch_buf (br_heap b' ! ch) = es" "br_subs b' = br_subs b"
  using assms by (cases "ch_buf (br_heap b ! ch)") (auto simp: receive_def)

text \<open>
  What the subscriber got, followed by what waits in its buffer, is always a subsequence of
  what it had before followed by what was published since: events arrive in order, none is
  invented or repeated, and a slow subscriber only misses some.
\<close>

lemma follow_subseq:
  assumes "broker_inv b" "(f, ch) \<in> set (br_subs b)" "follow ch ss (b, got) = (b', got')"
  shows "broker_inv b' \<and> (f, ch) \<in> set (br_subs b') \<and>
    subseq (got' @ ch_buf (br_heap b' ! ch)) (got @ ch_buf (br_heap b ! ch) @ published ss)"
  using assms
proof (induction ss arbitrary: b got)
  case (Cons s ss)
  show ?case
  proof (cases s)
    case (Pub e)
    have *: "subseq (ch_buf (br_heap (Publish e b) ! ch)) (ch_buf (br_heap b ! ch) @ [e])"
      by (auto simp: Publish_chan[OF Cons.prems(1,2)] push_def)
    have "broker_inv b' \<and> (f, ch) \<in> set (br_subs b') \<and>
        subseq (got' @ ch_buf (br_heap b' ! ch))
          (got @ ch_buf (br_heap (Publish e b) ! ch) @ published ss)"
      using Cons.prems Pub by (intro Cons.IH Publish_inv) auto
    moreover have "subseq (got @ ch_buf (br_heap (Publish e b) ! ch) @ published ss)
        (got @ (ch_buf (br_heap b ! ch) @ [e]) @ published ss)"
      by (intro list_emb_append_mono * subseq_order.refl)
    ultimately show ?thesis using Pub subseq_order.trans by fastforce
  next
    case Recv
    have len: "ch < length (br_heap b)" using broker_invD(3)[OF Cons.prems(1,2)] by simp
    show ?thesis
    proof (cases rule: receive_cases [OF len, case_names empty event])
      case empty
      with Recv Cons.prems(3) have "follow ch ss (b, got) = (b', got')"
        by (simp split: if_splits)
      from Cons.IH[OF Cons.prems(1,2) this] Recv show ?thesis by simp
    next
      case (event e es b1)
      have "broker_inv b1" using receive_inv[OF Cons.prems(1), of ch] event(1) by simp
      then have "broker_inv b' \<and> (f, ch) \<in> set (br_subs b') \<and> subseq (got' @ ch_buf (br_heap b' ! ch))
          ((got @ [e]) @ ch_buf (br_heap b1 ! ch) @ published ss)"
        using Cons.prems Recv event by (intro Cons.IH) auto
      with Recv event show ?thesis by simp
    qed
  qed
qed simp

text \<open>A subscriber that never falls more than the buffer behind misses nothing.\<close>

lemma follow_lossless:
  assumes "broker_inv b" "(f, ch) \<in> set (br_subs b)" "follow ch ss (b, got) = (b', got')"
    and "length (ch_buf (br_heap b ! ch)) + length (published ss) \<le> eventBuffer"
  shows "got' @ ch_buf (br_heap b' ! ch) = got @ ch_buf (br_heap b ! ch) @ published ss"
  using assms
proof (induction ss arbitrary: b got)
  case (Cons s ss)
  show ?case
  proof (cases s)
    case (Pub e)
    have "ch_buf (br_heap (Publish e b) ! ch) = ch_buf (br_heap b ! ch) @ [e]"
      using Cons.prems(4) Pub by (simp add: Publish_chan[OF Cons.prems(1,2)] push_def)
    moreover from this have "got' @ ch_buf (br_heap b' ! ch) =
        got @ ch_buf (br_heap (Publish e b) ! ch) @ published ss"
      using Cons.prems Pub by (intro Cons.IH Publish_inv) auto
    ultimately show ?thesis using Pub by simp
  next
    case Recv
    have len: "ch < length (br_heap b)" using broker_invD(3)[OF Cons.prems(1,2)] by simp
    show ?thesis
    proof (cases rule: receive_cases [OF len, case_names empty event])
      case empty
      then show ?thesis using Recv Cons by (auto split: if_splits)
    next
      case (event e es b1)
      have "broker_inv b1" using receive_inv[OF Cons.prems(1), of ch] event(1) by simp
      then have "got' @ ch_buf (br_heap b' ! ch) = (got @ [e]) @ ch_buf (br_heap b1 ! ch) @ published ss"
        using Cons.prems Recv event by (intro Cons.IH) auto
      with Recv event show ?thesis by simp
    qed
  qed
qed simp

subsection \<open>The interface the job queue uses\<close>

text \<open>
  What a component that reports progress relies on: publishing keeps the bus usable and
  cannot panic, however many events it reports.
\<close>

locale event_bus =
  fixes publish :: "'e \<Rightarrow> 'b \<Rightarrow> 'b" and usable :: "'b \<Rightarrow> bool" and panicked :: "'b \<Rightarrow> bool"
  assumes publish_usable: "usable b \<Longrightarrow> usable (publish e b)"
    and usable_calm: "usable b \<Longrightarrow> \<not> panicked b"
begin

lemma publish_all: "usable b \<Longrightarrow> usable (fold publish es b)"
  by (induction es arbitrary: b) (auto intro: publish_usable)

lemma publish_calm: "usable b \<Longrightarrow> \<not> panicked (fold publish es b)"
  by (intro usable_calm publish_all)

end

interpretation bus: event_bus Publish broker_inv br_panic
  by unfold_locales (auto intro: Publish_inv dest: broker_invD(2))

subsection \<open>Properties\<close>

lemma Subscribe_fresh:
  assumes "broker_inv b" "Subscribe b = ((ch, Some f), b1)"
  shows "broker_inv b1 \<and> (f, ch) \<in> set (br_subs b1) \<and> ch_buf (br_heap b1 ! ch) = []"
  using assms Subscribe_inv[OF assms(1)] by (auto simp: Subscribe_def Let_def split: if_splits)

text \<open>A subscriber receives events in the order they were published since it subscribed, none
  invented and none twice; a slow one only misses some, and one that at most 32 events were
  published to misses none. No operation panics on the way.\<close>

lemma subscriber_sees_events_in_order:
  assumes "broker_inv b" "Subscribe b = ((ch, Some f), b1)" "follow ch ss (b1, []) = (b', got)"
  shows "subseq (got @ ch_buf (br_heap b' ! ch)) (published ss) \<and>
    (length (published ss) \<le> 32 \<longrightarrow> got @ ch_buf (br_heap b' ! ch) = published ss) \<and> \<not> br_panic b'"
proof -
  note s = Subscribe_fresh[OF assms(1,2)]
  have "broker_inv b'" "subseq (got @ ch_buf (br_heap b' ! ch)) (published ss)"
    using follow_subseq[OF _ _ assms(3), of f] s by simp_all
  moreover have "length (published ss) \<le> 32 \<Longrightarrow> got @ ch_buf (br_heap b' ! ch) = published ss"
    using follow_lossless[OF _ _ assms(3), of f] s by (simp add: eventBuffer_def)
  ultimately show ?thesis using broker_invD(2) by blast
qed

lemma subscriber_sees_events_in_order_witness:
  "\<exists>b' got. follow 0 [Pub (1::nat), Pub 2, Recv, Pub 3] (snd (Subscribe NewBroker), []) = (b', got) \<and>
     got @ ch_buf (br_heap b' ! 0) = [1, 2, 3]"
proof -
  have s: "Subscribe (NewBroker :: nat broker) = ((0, Some 0), snd (Subscribe NewBroker))"
    by (simp add: Subscribe_def NewBroker_def)
  obtain b' got where f: "follow 0 [Pub (1::nat), Pub 2, Recv, Pub 3] (snd (Subscribe NewBroker), []) = (b', got)"
    by fastforce
  from subscriber_sees_events_in_order[OF broker_inv_New s f] f show ?thesis by auto
qed

text \<open>Closing the broker ends every subscription: all the channels that were subscribed are closed,
  no subscriber is left, later publishing reaches nobody and a later subscription gets a channel
  that is closed from the start, and closing twice is harmless.\<close>

lemma Close_ends_all_subscriptions:
  assumes "broker_inv b" "\<not> br_closed b"
  shows "Subscribers (Close b) = 0 \<and> Close (Close b) = Close b \<and> Publish ev (Close b) = Close b \<and>
    (\<forall>(f, ch) \<in> set (br_subs b). ch_closed (br_heap (Close b) ! ch) \<and>
       ch_buf (br_heap (Close b) ! ch) = ch_buf (br_heap b ! ch)) \<and>
    (\<exists>ch b'. Subscribe (Close b) = ((ch, None), b') \<and> receive ch b' = (Some None, b')) \<and>
    \<not> br_panic (Close b)"
proof -
  have c: "br_subs (Close b) = []" "br_closed (Close b)"
    using Close_eq[OF assms(1)] assms(2) by simp_all
  have chans: "ch_closed (br_heap (Close b) ! ch) \<and> ch_buf (br_heap (Close b) ! ch) = ch_buf (br_heap b ! ch)"
    if "(f, ch) \<in> set (br_subs b)" for f ch
  proof -
    have "ch < length (br_heap b)" "ch \<in> snd ` set (br_subs b)"
      using broker_invD(3)[OF assms(1) that] that by force+
    then show ?thesis using Close_eq[OF assms(1)] assms(2) by (simp add: shut_def)
  qed
  have "\<exists>ch b'. Subscribe (Close b) = ((ch, None), b') \<and> receive ch b' = (Some None, b')"
    using c(2) by (simp add: Subscribe_def Let_def receive_def)
  moreover have "Publish ev (Close b) = Close b" using c(1) by (simp add: Publish_def)
  moreover have "Close (Close b) = Close b" using c(2) by (simp add: Close_def[of "Close b"])
  ultimately show ?thesis using c chans broker_invD(2)[OF Close_inv[OF assms(1)]]
    by (auto simp: Subscribers_def)
qed

lemma Close_ends_all_subscriptions_witness:
  "Subscribers (Close (snd (Subscribe (NewBroker :: nat broker)))) = 0"
proof -
  have inv: "broker_inv (snd (Subscribe (NewBroker :: nat broker)))" by (rule Subscribe_inv[OF broker_inv_New])
  have op: "\<not> br_closed (snd (Subscribe (NewBroker :: nat broker)))"
    by (simp add: Subscribe_def NewBroker_def)
  show ?thesis by (rule conjunct1[OF Close_ends_all_subscriptions[OF inv op]])
qed

end
