(* ===== verification/JobQueue.thy ===== *)
theory JobQueue
  imports JobsTable Broker GoStrings GoFloat
begin

text \<open>
  \<open>internal/jobs/jobs.go\<close> and \<open>internal/jobs/queue.go\<close>: the domain view of a job, the events
  derived from it, and the operations of \<open>Queue\<close>. The state of a queue is the jobs table
  and the event broker. The read and write pools reach the same database, so a read sees every
  committed write. Logging is not modelled. JSON decoding is a parameter of \<open>Unmarshal\<close>.
\<close>

subsection \<open>Jobs and events\<close>

record job =
  job_id :: string
  job_kind :: string
  job_payload :: string
  job_st :: job_state
  job_priority :: int
  job_progress :: gofloat
  job_note :: string
  job_attempts :: int
  job_max_attempts :: int
  job_last_error :: string
  job_tokens_in :: int
  job_tokens_out :: int
  job_cost_micros :: int
  job_created_at :: gotime
  job_updated_at :: gotime
  job_started_at :: "gotime option"
  job_finished_at :: "gotime option"

definition fromRow :: "job_row \<Rightarrow> job" where
  "fromRow r =
     \<lparr>job_id = jr_id r, job_kind = jr_kind r, job_payload = jr_payload r, job_st = jr_state r,
      job_priority = jr_priority r, job_progress = jr_progress r, job_note = jr_progress_note r,
      job_attempts = jr_attempts r, job_max_attempts = jr_max_attempts r,
      job_last_error = jr_last_error r, job_tokens_in = jr_tokens_in r,
      job_tokens_out = jr_tokens_out r, job_cost_micros = jr_cost_micros r,
      job_created_at = Time (jr_created_at r), job_updated_at = Time (jr_updated_at r),
      job_started_at = TimePtr (jr_started_at r), job_finished_at = TimePtr (jr_finished_at r)\<rparr>"

lemma fromRow_sel [simp]:
  "job_id (fromRow r) = jr_id r" "job_kind (fromRow r) = jr_kind r"
  "job_st (fromRow r) = jr_state r" "job_attempts (fromRow r) = jr_attempts r"
  "job_max_attempts (fromRow r) = jr_max_attempts r" "job_progress (fromRow r) = jr_progress r"
  "job_payload (fromRow r) = jr_payload r" "job_priority (fromRow r) = jr_priority r"
  "job_note (fromRow r) = jr_progress_note r" "job_last_error (fromRow r) = jr_last_error r"
  "job_tokens_in (fromRow r) = jr_tokens_in r" "job_tokens_out (fromRow r) = jr_tokens_out r"
  "job_cost_micros (fromRow r) = jr_cost_micros r"
  by (simp_all add: fromRow_def)

definition CostString :: "job \<Rightarrow> string" where
  "CostString j =
     (let c = job_cost_micros j
      in (if c < 0 then ''-'' else []) @ fixed6 (float_div (to_float (nat \<bar>c\<bar>)) 1000000))"

text \<open>
  The cost is printed to the last millionth although it goes through a float, up to 8.5 billion
  units of currency; the next millionth is already off.
\<close>

lemma CostString_exact:
  assumes "\<bar>job_cost_micros j\<bar> < 2 ^ 33 * 10 ^ 6"
  shows "CostString j = (let n = nat \<bar>job_cost_micros j\<bar> in
    (if job_cost_micros j < 0 then ''-'' else []) @ dec (n div 10 ^ 6) @ ''.'' @ pad_to 6 (dec (n mod 10 ^ 6)))"
proof -
  let ?n = "nat \<bar>job_cost_micros j\<bar>"
  have n: "?n < 2 ^ 33 * 10 ^ 6" using assms by simp
  then have "to_float ?n = ?n" by (intro to_float_small) simp
  then show ?thesis using millionths_exact[OF n] by (simp add: CostString_def fixed6_def case_prod_beta Let_def)
qed

lemma CostString_inexact:
  "CostString (j\<lparr>job_cost_micros := 2 ^ 33 * 10 ^ 6 + 1\<rparr>) = ''8589934592.000002''"
  by (simp add: CostString_def millionths_inexact)

definition Unmarshal :: "(string \<Rightarrow> 'v option) \<Rightarrow> job \<Rightarrow> 'v \<Rightarrow> string + 'v" where
  "Unmarshal decode j v =
     (if job_payload j = [] then Inr v
      else case decode (job_payload j) of
        None \<Rightarrow> Inl (''job '' @ job_id j @ '': decode payload'') | Some v' \<Rightarrow> Inr v')"

record job_event =
  ev_job_id :: string
  ev_kind :: string
  ev_state :: job_state
  ev_progress :: gofloat
  ev_note :: string
  ev_error :: string
  ev_at :: gotime

definition eventFor :: "job \<Rightarrow> job_event" where
  "eventFor j =
     \<lparr>ev_job_id = job_id j, ev_kind = job_kind j, ev_state = job_st j,
      ev_progress = job_progress j, ev_note = job_note j, ev_error = job_last_error j,
      ev_at = job_updated_at j\<rparr>"

record queue =
  q_table :: jobs_table
  q_bus :: "job_event broker"

definition NewQueue :: "jobs_table \<Rightarrow> queue" where
  "NewQueue t = \<lparr>q_table = t, q_bus = NewBroker\<rparr>"

definition publish_job :: "job \<Rightarrow> queue \<Rightarrow> queue" where
  "publish_job j q = q\<lparr>q_bus := Publish (eventFor j) (q_bus q)\<rparr>"

definition on_table ::
  "db_error option \<Rightarrow> (jobs_table \<Rightarrow> (db_error + 'a) \<times> jobs_table) \<Rightarrow> queue \<Rightarrow> (db_error + 'a) \<times> queue" where
  "on_table f st q = (let (x, t) = run_stmt f st (q_table q) in (x, q\<lparr>q_table := t\<rparr>))"

subsection \<open>Errors\<close>

datatype queue_error =
    KindRequired
  | EncodePayload string
  | ErrAlreadyQueued
  | EnqueueFailed string db_error
  | ErrNotFound string
  | GetFailed string db_error
  | ListFailed db_error
  | ListActiveFailed db_error
  | CancelFailed string db_error
  | AlreadyFinished string
  | StatsFailed db_error
  | PurgeFailed db_error

fun db_error_text :: "db_error \<Rightarrow> string" where
  "db_error_text NoRows = ''sql: no rows in result set''"
| "db_error_text (Constraint m) = ''constraint failed: '' @ m"
| "db_error_text CtxCanceled = ''context canceled''"
| "db_error_text (DriverFault m) = m"

definition isUniqueViolation :: "db_error \<Rightarrow> bool" where
  "isUniqueViolation e \<longleftrightarrow> contains (to_lower (db_error_text e)) ''unique constraint failed''"

subsection \<open>Operations\<close>

definition defaultMaxAttempts :: int where
  "defaultMaxAttempts = 3"

record enqueue_options =
  eo_priority :: int
  eo_max_attempts :: int
  eo_dedupe_key :: string
  eo_run_after :: "gotime option"

datatype payload = NilPayload | Encoded string | Unencodable

definition findPending :: "db_error option \<Rightarrow> string \<Rightarrow> queue \<Rightarrow> db_error + job" where
  "findPending f key q =
     (case run_query f (GetPendingJobByDedupeKey (Some key)) (q_table q) of
        Inl e \<Rightarrow> Inl e | Inr r \<Rightarrow> Inr (fromRow r))"

text \<open>
  \<open>Enqueue\<close> returns a job and an error, which are both there when an identical job is
  pending. The identifier \<open>fresh\<close> is what \<open>id.New(id.Job)\<close> generates.
\<close>

definition Enqueue ::
  "callenv \<Rightarrow> string \<Rightarrow> string \<Rightarrow> payload \<Rightarrow> enqueue_options \<Rightarrow> queue
   \<Rightarrow> (job option \<times> queue_error option) \<times> queue" where
  "Enqueue env fresh kind pl opts q =
     (if kind = [] then ((None, Some KindRequired), q)
      else if pl = Unencodable then ((None, Some (EncodePayload kind)), q)
      else
        let raw = (case pl of Encoded s \<Rightarrow> s | _ \<Rightarrow> ''{}'');
            maxatt = (if eo_max_attempts opts \<le> 0 then defaultMaxAttempts else eo_max_attempts opts);
            runafter = (case eo_run_after opts of None \<Rightarrow> clk env 0 | Some t \<Rightarrow> t);
            now = Millis (clk env (if eo_run_after opts = None then 1 else 0));
            dedupe = (if eo_dedupe_key opts = [] then None else Some (eo_dedupe_key opts));
            (res, q') = on_table (flt env 0)
              (EnqueueJob fresh kind raw (eo_priority opts) maxatt dedupe (Millis runafter) now now) q
        in case res of
             Inl e \<Rightarrow>
               (if eo_dedupe_key opts \<noteq> [] \<and> isUniqueViolation e then
                  case findPending (flt env 1) (eo_dedupe_key opts) q' of
                    Inr existing \<Rightarrow> ((Some existing, Some ErrAlreadyQueued), q')
                  | Inl _ \<Rightarrow> ((None, Some (EnqueueFailed kind e)), q')
                else ((None, Some (EnqueueFailed kind e)), q'))
           | Inr row \<Rightarrow> ((Some (fromRow row), None), publish_job (fromRow row) q'))"

definition Get :: "db_error option \<Rightarrow> string \<Rightarrow> queue \<Rightarrow> queue_error + job" where
  "Get f i q =
     (case run_query f (GetJob i) (q_table q) of
        Inl NoRows \<Rightarrow> Inl (ErrNotFound i)
      | Inl e \<Rightarrow> Inl (GetFailed i e)
      | Inr r \<Rightarrow> Inr (fromRow r))"

definition List_jobs :: "db_error option \<Rightarrow> string \<Rightarrow> int \<Rightarrow> queue \<Rightarrow> queue_error + job list" where
  "List_jobs f state limit q =
     (let limit = (if limit \<le> 0 then 50 else limit);
          rows = (if state = [] then run_query f (ListJobs limit) (q_table q)
                  else run_query f (ListJobsByState state limit) (q_table q))
      in case rows of Inl e \<Rightarrow> Inl (ListFailed e) | Inr rs \<Rightarrow> Inr (map fromRow rs))"

definition Active :: "db_error option \<Rightarrow> queue \<Rightarrow> queue_error + job list" where
  "Active f q =
     (case run_query f ListActiveJobs (q_table q) of
        Inl e \<Rightarrow> Inl (ListActiveFailed e) | Inr rs \<Rightarrow> Inr (map fromRow rs))"

definition Cancel :: "callenv \<Rightarrow> string \<Rightarrow> queue \<Rightarrow> queue_error option \<times> queue" where
  "Cancel env i q =
     (let now = Millis (clk env 0);
          (res, q') = on_table (flt env 0) (CancelJob (Some now) now i) q
      in case res of
           Inl e \<Rightarrow> (Some (CancelFailed i e), q')
         | Inr n \<Rightarrow>
             (if n = 0 then
                case Get (flt env 1) i q' of
                  Inl e \<Rightarrow> (Some e, q')
                | Inr _ \<Rightarrow> (Some (AlreadyFinished i), q')
              else
                case Get (flt env 1) i q' of
                  Inr j \<Rightarrow> (None, publish_job j q')
                | Inl _ \<Rightarrow> (None, q')))"

definition Stats :: "db_error option \<Rightarrow> queue \<Rightarrow> queue_error + (job_state \<rightharpoonup> nat)" where
  "Stats f q =
     (case run_query f CountJobsByState (q_table q) of
        Inl e \<Rightarrow> Inl (StatsFailed e) | Inr rows \<Rightarrow> Inr (map_of rows))"

definition PurgeFinishedBefore ::
  "db_error option \<Rightarrow> gotime \<Rightarrow> queue \<Rightarrow> (queue_error + nat) \<times> queue" where
  "PurgeFinishedBefore f cutoff q =
     (let (res, q') = on_table f (DeleteFinishedJobsBefore (MillisPtr (Some cutoff))) q
      in (case res of Inl e \<Rightarrow> (Inl (PurgeFailed e), q') | Inr n \<Rightarrow> (Inr n, q')))"

subsection \<open>Invariant\<close>

definition queue_inv :: "queue \<Rightarrow> bool" where
  "queue_inv q \<longleftrightarrow> jobs_inv (q_table q) \<and> broker_inv (q_bus q)"

lemma queue_invD [dest]:
  "queue_inv q \<Longrightarrow> jobs_inv (q_table q)" "queue_inv q \<Longrightarrow> broker_inv (q_bus q)"
  "queue_inv q \<Longrightarrow> jobs_ok (q_table q)"
  by (auto simp: queue_inv_def)

lemma publish_job_sel [simp]: "q_table (publish_job j q) = q_table q"
  by (simp add: publish_job_def)

lemma publish_job_inv: "queue_inv q \<Longrightarrow> queue_inv (publish_job j q)"
  by (simp add: queue_inv_def publish_job_def bus.publish_usable)

lemma on_table_simps [simp]:
  "on_table (Some e) st q = (Inl e, q)"
  "on_table None st q = (fst (st (q_table q)), q\<lparr>q_table := snd (st (q_table q))\<rparr>)"
  by (auto simp: on_table_def split: prod.split)

lemma on_table_inv:
  assumes "queue_inv q" and "\<And>t. jobs_inv t \<Longrightarrow> jobs_inv (snd (st t))"
  shows "queue_inv (snd (on_table f st q))"
  using assms run_stmt_inv[of "q_table q" st f]
  by (auto simp: on_table_def queue_inv_def split: prod.splits)

lemma on_table_invD:
  assumes "on_table f st q = (x, q')" and "queue_inv q" and "\<And>t. jobs_inv t \<Longrightarrow> jobs_inv (snd (st t))"
  shows "queue_inv q'"
  using on_table_inv[of q st f] assms by simp

lemma Enqueue_inv:
  assumes "queue_inv q"
  shows "queue_inv (snd (Enqueue env fresh kind pl opts q))"
proof -
  let ?st = "EnqueueJob fresh kind (case pl of Encoded s \<Rightarrow> s | _ \<Rightarrow> ''{}'') (eo_priority opts)
    (if eo_max_attempts opts \<le> 0 then defaultMaxAttempts else eo_max_attempts opts)
    (if eo_dedupe_key opts = [] then None else Some (eo_dedupe_key opts))
    (Millis (case eo_run_after opts of None \<Rightarrow> clk env 0 | Some t \<Rightarrow> t))
    (Millis (clk env (if eo_run_after opts = None then 1 else 0)))
    (Millis (clk env (if eo_run_after opts = None then 1 else 0)))"
  obtain res q' where e: "on_table (flt env 0) ?st q = (res, q')" by fastforce
  have "snd (Enqueue env fresh kind pl opts q) \<in> {q, q'} \<union> range (\<lambda>j. publish_job j q')"
    unfolding Enqueue_def Let_def e by (simp split: sum.split)
  moreover have "queue_inv q'" by (rule on_table_invD[OF e assms EnqueueJob_inv])
  ultimately show ?thesis using assms by (auto intro: publish_job_inv)
qed

lemma Cancel_inv:
  assumes "queue_inv q"
  shows "queue_inv (snd (Cancel env i q))"
proof -
  note step = on_table_invD[OF _ assms CancelJob_inv]
  show ?thesis
    unfolding Cancel_def Let_def
    by (auto intro!: publish_job_inv dest: step split: prod.split sum.split)
qed

lemma PurgeFinishedBefore_inv: "queue_inv q \<Longrightarrow> queue_inv (snd (PurgeFinishedBefore f c q))"
  using on_table_inv[of q "DeleteFinishedJobsBefore (MillisPtr (Some c))" f]
  by (auto simp: PurgeFinishedBefore_def DeleteFinishedJobsBefore_inv split: prod.splits sum.splits)

lemma queue_inv_bus: "queue_inv q \<Longrightarrow> broker_inv b \<Longrightarrow> queue_inv (q\<lparr>q_bus := b\<rparr>)"
  by (simp add: queue_inv_def)

lemma queue_inv_New: "jobs_inv t \<Longrightarrow> queue_inv (NewQueue t)"
  by (simp add: queue_inv_def NewQueue_def broker_inv_New)

lemma NewQueue_sel [simp]: "q_table (NewQueue t) = t" "q_bus (NewQueue t) = NewBroker"
  by (simp_all add: NewQueue_def)

subsection \<open>Lookup\<close>

lemma Get_eq:
  "Get None i q = (case job_by i (q_table q) of None \<Rightarrow> Inl (ErrNotFound i) | Some r \<Rightarrow> Inr (fromRow r))"
  by (simp add: Get_def GetJob_def split: option.split)

text \<open>At most one pending job holds a dedupe key, so the lookup by key finds that job.\<close>

lemma pending_holder_unique:
  assumes "jobs_ok t" "r \<in> set t" "r' \<in> set t" "pending_key r = Some k" "pending_key r' = Some k"
  shows "r = r'"
proof -
  from assms(1) have "distinct (List.map_filter pending_key t)" by (simp add: jobs_ok_iff)
  then show ?thesis using assms(2-)
  proof (induction t)
    case (Cons x t)
    have mem: "k \<in> set (List.map_filter pending_key t)" if "y \<in> set t" "pending_key y = Some k" for y
      using that by (auto simp: set_map_filter_iff)
    from Cons show ?case
      by (auto simp: map_filter_simps dest: mem split: option.splits)
  qed simp
qed

lemma find_pending_holder:
  assumes "jobs_ok t" "r \<in> set t" "pending r" "jr_dedupe_key r = Some k"
  shows "GetPendingJobByDedupeKey (Some k) t = Inr r"
proof -
  let ?P = "\<lambda>r. jr_dedupe_key r = Some k \<and> pending r"
  have "find ?P t \<noteq> None" using assms(2-4) by (auto simp: find_None_iff)
  then obtain r' where r': "find ?P t = Some r'" by auto
  then have "r' \<in> set t" "?P r'" by (auto simp: find_Some_iff)
  then have "r' = r" using assms by (intro pending_holder_unique[OF assms(1)]) (auto simp: pending_key_def)
  with r' show ?thesis by (simp add: GetPendingJobByDedupeKey_def)
qed

lemma unique_messages:
  "isUniqueViolation (Constraint ''UNIQUE constraint failed: jobs.id'')"
  "isUniqueViolation (Constraint ''UNIQUE constraint failed: jobs.dedupe_key'')"
  by code_simp+

lemma EnqueueJob_dup_key:
  assumes "r \<in> set t" "pending_key r = Some k"
  shows "\<exists>m. EnqueueJob i kd raw p ma (Some k) ra c u t = (Inl (Constraint m), t) \<and>
    isUniqueViolation (Constraint m)"
proof -
  have "k \<in> set (List.map_filter pending_key t)" using assms by (auto simp: set_map_filter_iff)
  then show ?thesis
    using unique_messages
    by (auto simp: EnqueueJob_def Let_def commit_jobs_def jobs_violation_def map_filter_append_iff
      map_filter_simps pending_key_def pending_def)
qed

lemma List_jobs_eq:
  "List_jobs None state n q = Inr (map fromRow (sql_limit (if n \<le> 0 then 50 else n)
     (sort_key (\<lambda>r. - jr_created_at r)
       (filter (\<lambda>r. state = [] \<or> state_text (jr_state r) = state) (q_table q)))))"
  by (simp add: List_jobs_def ListJobs_def ListJobsByState_def Let_def)

lemma sorted_created:
  "sorted (map (\<lambda>r. - jr_created_at r) rs) \<Longrightarrow> sorted (map (\<lambda>j. - job_created_at j) (map fromRow rs))"
  by (induction rs) (auto simp: fromRow_def Time_def)

subsection \<open>Properties\<close>

text \<open>C20. Asking for work that is already pending under the same dedupe key returns the pending
  job with \<open>ErrAlreadyQueued\<close> and changes nothing: no second job, no event.\<close>

theorem Enqueue_returns_pending_job:
  assumes "queue_inv q" "r \<in> set (q_table q)" "pending r"
    and key: "jr_dedupe_key r = Some (eo_dedupe_key opts)" "eo_dedupe_key opts \<noteq> []"
    and "kind \<noteq> []" "pl \<noteq> Unencodable" "flt env 0 = None" "flt env 1 = None"
  shows "Enqueue env fresh kind pl opts q = ((Some (fromRow r), Some ErrAlreadyQueued), q)"
proof -
  have "pending_key r = Some (eo_dedupe_key opts)" using assms by (simp add: pending_key_def)
  then obtain m where "EnqueueJob fresh kind (case pl of Encoded s \<Rightarrow> s | _ \<Rightarrow> ''{}'') (eo_priority opts)
      (if eo_max_attempts opts \<le> 0 then defaultMaxAttempts else eo_max_attempts opts)
      (Some (eo_dedupe_key opts))
      (Millis (case eo_run_after opts of None \<Rightarrow> clk env 0 | Some t \<Rightarrow> t))
      (Millis (clk env (if eo_run_after opts = None then 1 else 0)))
      (Millis (clk env (if eo_run_after opts = None then 1 else 0))) (q_table q)
        = (Inl (Constraint m), q_table q)" and m: "isUniqueViolation (Constraint m)"
    using EnqueueJob_dup_key[OF assms(2)] by blast
  note e = this(1)
  have "findPending None (eo_dedupe_key opts) q = Inr (fromRow r)"
    using assms find_pending_holder[of "q_table q" r] by (simp add: findPending_def queue_invD(3))
  then show ?thesis using assms m by (simp add: Enqueue_def Let_def e)
qed

lemma Enqueue_returns_pending_job_witness:
  "Enqueue (calm 0) ''j2'' ''convert'' NilPayload
     \<lparr>eo_priority = 0, eo_max_attempts = 0, eo_dedupe_key = ''k'', eo_run_after = None\<rparr> (NewQueue [demo_row]) =
   ((Some (fromRow demo_row), Some ErrAlreadyQueued), NewQueue [demo_row])"
  by (rule Enqueue_returns_pending_job) (simp_all add: queue_inv_New demo_inv demo_sel pending_def)

text \<open>New work is stored as one queued job at the end of the table with no attempt used,
  scheduled for \<open>RunAfter\<close> or for now, with three attempts unless the caller says otherwise,
  and announced to the subscribers.\<close>

lemma Enqueue_adds_one_queued_job:
  assumes inv: "queue_inv q" and fresh: "job_by fresh (q_table q) = None"
    and free: "\<And>r. r \<in> set (q_table q) \<Longrightarrow> pending r \<Longrightarrow> jr_dedupe_key r \<noteq> Some (eo_dedupe_key opts)"
    and "kind \<noteq> []" "pl \<noteq> Unencodable" "flt env 0 = None"
  shows "\<exists>r. Enqueue env fresh kind pl opts q =
      ((Some (fromRow r), None), publish_job (fromRow r) (q\<lparr>q_table := q_table q @ [r]\<rparr>)) \<and>
    jr_id r = fresh \<and> jr_kind r = kind \<and> jr_state r = StateQueued \<and> jr_attempts r = 0 \<and>
    jr_priority r = eo_priority opts \<and>
    jr_max_attempts r = (if eo_max_attempts opts \<le> 0 then 3 else eo_max_attempts opts) \<and>
    jr_run_after r = Millis (case eo_run_after opts of None \<Rightarrow> clk env 0 | Some t \<Rightarrow> t)"
proof -
  let ?now = "Millis (clk env (if eo_run_after opts = None then 1 else 0))"
  define r where "r = \<lparr>jr_id = fresh, jr_kind = kind,
      jr_payload = (case pl of Encoded s \<Rightarrow> s | _ \<Rightarrow> ''{}''), jr_state = StateQueued,
      jr_priority = eo_priority opts, jr_progress = Fin 0, jr_progress_note = [], jr_attempts = 0,
      jr_max_attempts = (if eo_max_attempts opts \<le> 0 then defaultMaxAttempts else eo_max_attempts opts),
      jr_last_error = [], jr_tokens_in = 0, jr_tokens_out = 0, jr_cost_micros = 0,
      jr_run_after = Millis (case eo_run_after opts of None \<Rightarrow> clk env 0 | Some t \<Rightarrow> t),
      jr_lease_until = None, jr_worker = [],
      jr_dedupe_key = (if eo_dedupe_key opts = [] then None else Some (eo_dedupe_key opts)),
      jr_created_at = ?now, jr_updated_at = ?now, jr_started_at = None, jr_finished_at = None\<rparr>"
  have "jobs_ok (q_table q @ [r])"
  proof (rule append_ok)
    show "jobs_ok (q_table q)" using inv by auto
    show "job_by (jr_id r) (q_table q) = None" using fresh by (simp add: r_def)
    show "row_violation r = None" by (simp add: r_def row_violation_def in64_def)
    show "k \<notin> set (List.map_filter pending_key (q_table q))" if "pending_key r = Some k" for k
      using that free by (auto simp: r_def pending_key_def set_map_filter_iff split: if_splits)
  qed
  then have "EnqueueJob fresh kind (case pl of Encoded s \<Rightarrow> s | _ \<Rightarrow> ''{}'') (eo_priority opts)
      (if eo_max_attempts opts \<le> 0 then defaultMaxAttempts else eo_max_attempts opts)
      (if eo_dedupe_key opts = [] then None else Some (eo_dedupe_key opts))
      (Millis (case eo_run_after opts of None \<Rightarrow> clk env 0 | Some t \<Rightarrow> t)) ?now ?now (q_table q)
        = (Inr r, q_table q @ [r])"
    by (simp add: EnqueueJob_def Let_def commit_ok flip: r_def)
  note e = this
  have "Enqueue env fresh kind pl opts q =
      ((Some (fromRow r), None), publish_job (fromRow r) (q\<lparr>q_table := q_table q @ [r]\<rparr>))"
    using assms(4-6) by (simp add: Enqueue_def Let_def e)
  then show ?thesis by (intro exI[of _ r]) (simp add: r_def defaultMaxAttempts_def)
qed

lemma Enqueue_adds_one_queued_job_witness:
  "\<exists>r. fst (Enqueue (calm 0) ''j2'' ''convert'' NilPayload
       \<lparr>eo_priority = 0, eo_max_attempts = 0, eo_dedupe_key = ''other'', eo_run_after = None\<rparr>
       (NewQueue [demo_row])) = (Some (fromRow r), None) \<and> jr_id r = ''j2'' \<and> jr_max_attempts r = 3"
proof -
  let ?o = "\<lparr>eo_priority = 0, eo_max_attempts = 0, eo_dedupe_key = ''other'', eo_run_after = None\<rparr>"
  have "\<exists>r. Enqueue (calm 0) ''j2'' ''convert'' NilPayload ?o (NewQueue [demo_row]) =
      ((Some (fromRow r), None), publish_job (fromRow r)
        ((NewQueue [demo_row])\<lparr>q_table := q_table (NewQueue [demo_row]) @ [r]\<rparr>)) \<and>
    jr_id r = ''j2'' \<and> jr_kind r = ''convert'' \<and> jr_state r = StateQueued \<and> jr_attempts r = 0 \<and>
    jr_priority r = eo_priority ?o \<and>
    jr_max_attempts r = (if eo_max_attempts ?o \<le> 0 then 3 else eo_max_attempts ?o) \<and>
    jr_run_after r = Millis (case eo_run_after ?o of None \<Rightarrow> clk (calm 0) 0 | Some t \<Rightarrow> t)"
    by (rule Enqueue_adds_one_queued_job) (auto simp: queue_inv_New demo_inv demo_sel)
  then show ?thesis by auto
qed

text \<open>\<open>Cancel\<close> cancels a queued or running job, releasing its lease and recording when it
  finished; it reports a finished job as finished and an unknown one as not found, and then
  changes nothing.\<close>

lemma Cancel_outcome:
  assumes inv: "queue_inv q" and "flt env 0 = None" "flt env 1 = None"
  shows "case job_by i (q_table q) of
      None \<Rightarrow> Cancel env i q = (Some (ErrNotFound i), q)
    | Some r \<Rightarrow> if pending r
        then \<exists>q'. Cancel env i q = (None, q') \<and>
          job_by i (q_table q') = Some (r\<lparr>jr_state := StateCancelled, jr_lease_until := None,
            jr_worker := [], jr_finished_at := Some (Millis (clk env 0)),
            jr_updated_at := Millis (clk env 0)\<rparr>) \<and>
          (\<forall>k. k \<noteq> i \<longrightarrow> job_by k (q_table q') = job_by k (q_table q))
        else Cancel env i q = (Some (AlreadyFinished i), q)"
proof -
  let ?f = "\<lambda>r. r\<lparr>jr_state := StateCancelled, jr_lease_until := None, jr_worker := [],
      jr_finished_at := Some (Millis (clk env 0)), jr_updated_at := Millis (clk env 0)\<rparr>"
  let ?P = "\<lambda>r. jr_id r = i \<and> pending r"
  have ok: "jobs_ok (q_table q)" using inv by auto
  note e = CancelJob_ok[OF ok]
  have rows: "job_by k (sql_update ?P ?f (q_table q)) = (case job_by k (q_table q) of None \<Rightarrow> None
      | Some r \<Rightarrow> Some (if k = i \<and> pending r then ?f r else r))" for k
    by (rule jobs.row_after_update) simp
  have aff: "sql_affected ?P (q_table q) =
      (case job_by i (q_table q) of None \<Rightarrow> 0 | Some r \<Rightarrow> if pending r then 1 else 0)"
    by (rule jobs.one_row_affected[OF ok])
  show ?thesis
  proof (cases "job_by i (q_table q)")
    case None
    then have "sql_affected ?P (q_table q) = 0" using aff by simp
    then show ?thesis using None assms(2,3) e
      by (simp add: Cancel_def Let_def Get_eq sql_update_none)
  next
    case (Some r)
    show ?thesis
    proof (cases "pending r")
      case True
      then have "sql_affected ?P (q_table q) = 1" using aff Some by simp
      then show ?thesis using Some True assms(2,3) e
        by (auto simp: Cancel_def Let_def Get_eq rows split: option.split)
    next
      case False
      then have "sql_affected ?P (q_table q) = 0" using aff Some by simp
      then show ?thesis using Some False assms(2,3) e
        by (simp add: Cancel_def Let_def Get_eq sql_update_none)
    qed
  qed
qed

lemma Cancel_outcome_witness:
  "Cancel (calm 0) ''nobody'' (NewQueue [demo_row]) = (Some (ErrNotFound ''nobody''), NewQueue [demo_row])"
  using Cancel_outcome[of "NewQueue [demo_row]" "calm 0" "''nobody''"]
  by (simp add: queue_inv_New demo_inv demo_sel)

text \<open>Listing returns only jobs of the asked state (all of them for the empty state), newest
  first, and as many as there are up to the limit, which is 50 when the caller gives none.\<close>

lemma List_jobs_newest_first:
  assumes "List_jobs None state n q = Inr js"
  shows "sorted (map (\<lambda>j. - job_created_at j) js) \<and>
    length js = min (sql_affected (\<lambda>r. state = [] \<or> state_text (jr_state r) = state) (q_table q))
      (if n \<le> 0 then 50 else nat n) \<and>
    set js \<subseteq> fromRow ` {r \<in> set (q_table q). state = [] \<or> state_text (jr_state r) = state}"
proof -
  let ?P = "\<lambda>r. state = [] \<or> state_text (jr_state r) = state"
  let ?rs = "sql_limit (if n \<le> 0 then 50 else n)
     (sort_key (\<lambda>r. - jr_created_at r) (filter ?P (q_table q)))"
  have js: "js = map fromRow ?rs" using assms by (simp add: List_jobs_eq)
  have "sorted (map (\<lambda>r. - jr_created_at r) ?rs)"
    by (intro sorted_sql_limit sorted_sort_key)
  then have "sorted (map (\<lambda>j. - job_created_at j) js)" unfolding js by (rule sorted_created)
  moreover have "length js = min (sql_affected ?P (q_table q)) (if n \<le> 0 then 50 else nat n)"
    by (auto simp: js length_sql_limit sql_affected_def)
  moreover have "set js \<subseteq> fromRow ` {r \<in> set (q_table q). ?P r}"
    using set_sql_limit[of "if n \<le> 0 then 50 else n" "sort_key (\<lambda>r. - jr_created_at r) (filter ?P (q_table q))"]
    by (auto simp: js)
  ultimately show ?thesis by blast
qed

lemma List_jobs_newest_first_witness:
  "length (map fromRow [demo_row]) =
     min (sql_affected (\<lambda>r. ([]::string) = [] \<or> state_text (jr_state r) = []) (q_table (NewQueue [demo_row])))
       (if (0::int) \<le> 0 then 50 else nat 0)"
proof -
  have "List_jobs None [] 0 (NewQueue [demo_row]) = Inr (map fromRow [demo_row])"
    by (simp add: List_jobs_eq sql_limit_def)
  from List_jobs_newest_first[OF this] show ?thesis by blast
qed

text \<open>Purging deletes exactly the finished jobs that finished before the cutoff and reports
  how many there were; queued and running jobs always stay.\<close>

lemma Purge_deletes_only_finished:
  assumes "queue_inv q"
  shows "PurgeFinishedBefore None cutoff q =
     (Inr (sql_affected (finished_before (Some (Millis cutoff))) (q_table q)),
      q\<lparr>q_table := sql_delete (finished_before (Some (Millis cutoff))) (q_table q)\<rparr>) \<and>
    (\<forall>r \<in> set (q_table q). \<not> Terminal (jr_state r) \<longrightarrow>
       r \<in> set (q_table (snd (PurgeFinishedBefore None cutoff q))))"
proof -
  have ok: "jobs_ok (q_table q)" using assms by auto
  note e = DeleteFinishedJobsBefore_ok[OF ok]
  show ?thesis
    by (simp add: PurgeFinishedBefore_def MillisPtr_def e finished_before_def)
qed

lemma Purge_deletes_only_finished_witness:
  "fst (PurgeFinishedBefore None 5 (NewQueue [demo_row])) =
     Inr (sql_affected (finished_before (Some (Millis 5))) (q_table (NewQueue [demo_row])))"
  using Purge_deletes_only_finished[OF queue_inv_New[OF demo_inv(1)], of 5] by simp

text \<open>The statistics map every state that occurs to its number of jobs, and no other.\<close>

lemma Stats_counts:
  assumes "Stats None q = Inr m"
  shows "m s = (if s \<in> jr_state ` set (q_table q)
    then Some (sql_affected (\<lambda>r. jr_state r = s) (q_table q)) else None)"
proof -
  have "m = map_of (map (\<lambda>s. (s, sql_affected (\<lambda>r. jr_state r = s) (q_table q)))
      (sort (remdups (map jr_state (q_table q)))))"
    using assms by (simp add: Stats_def CountJobsByState_def)
  then show ?thesis by (simp add: map_of_map_restrict restrict_map_def)
qed

lemma Stats_counts_witness:
  "\<exists>m. Stats None (NewQueue [demo_row]) = Inr m \<and>
     m StateQueued = Some (sql_affected (\<lambda>r. jr_state r = StateQueued) [demo_row])"
proof -
  obtain m where m: "Stats None (NewQueue [demo_row]) = Inr m" by (simp add: Stats_def CountJobsByState_def)
  with Stats_counts[OF m, of StateQueued] show ?thesis by (simp add: demo_sel)
qed

end
