(* ===== verification/ConfigTypes.thy ===== *)
theory ConfigTypes
  imports GoTime
begin

text \<open>
  The configuration structs of \<open>internal/config/config.go\<close> and the redacted string type of
  \<open>internal/config/secret.go\<close>. Durations are nanoseconds, as in Go.
\<close>

datatype secret = Secret (reveal: string)

record server_config =
  sc_addr :: string
  sc_base_url :: string
  sc_data_dir :: string
  sc_trust_proxy :: bool
  sc_read_timeout :: duration
  sc_write_timeout :: duration
  sc_max_upload_bytes :: int

record content_config =
  cc_languages :: "string list"
  cc_ocr_languages :: "string list"

record provider =
  pv_kind :: string
  pv_model :: string
  pv_api_key :: secret
  pv_base_url :: string
  pv_options :: "(string \<times> string) list"

record providers_config =
  ps_convert :: provider
  ps_ocr :: provider
  ps_translate :: provider
  ps_extract :: provider

record jobs_config =
  jc_workers :: int
  jc_poll_interval :: duration
  jc_lease_duration :: duration
  jc_max_attempts :: int

record log_config =
  lc_level :: string
  lc_format :: string

record config =
  cf_server :: server_config
  cf_content :: content_config
  cf_providers :: providers_config
  cf_jobs :: jobs_config
  cf_log :: log_config

definition Enabled :: "provider \<Rightarrow> bool" where
  "Enabled p \<longleftrightarrow> pv_kind p \<noteq> []"

end
