(* ===== verification/JobPool.thy ===== *)
theory JobPool
  imports JobQueue ConfigTypes "HOL-Library.Word"
begin

text \<open>
  \<open>internal/jobs/worker.go\<close>: the worker pool. A handler is a program that reports progress
  or usage any number of times, sees whether each report failed, and ends by returning or
  panicking; \<open>h_is_ctx\<close> says whether the error it returns wraps the pool's context error.
  The pool's context is a flag: once it is cancelled, \<open>database/sql\<close> refuses every statement
  sent under it. Random numbers and the clock are inputs.
\<close>

subsection \<open>Backoff\<close>

definition backoff_base :: "64 word" where "backoff_base = 5000000000"
definition backoff_max :: int where "backoff_max = 600000000000"

definition backoff_delay :: "int \<Rightarrow> int" where
  "backoff_delay attempt =
     (let attempt = (if attempt < 1 then 1 else attempt);
          shift = min (attempt - 1) 16;
          delay = sint (push_bit (nat shift) backoff_base)
      in if delay > backoff_max \<or> delay \<le> 0 then backoff_max else delay)"

text \<open>\<open>rand.Int64N(n)\<close> is some number below \<open>n\<close>, here \<open>rnd mod n\<close>.\<close>

definition ExponentialBackoff :: "int \<Rightarrow> nat \<Rightarrow> duration" where
  "ExponentialBackoff attempt rnd =
     (let delay = backoff_delay attempt; jitter = int rnd mod (delay div 4) in delay - jitter)"

subsection \<open>Handlers and the pool\<close>

datatype herror = HErr (h_text: string) (h_is_ctx: bool)

datatype hresult = Returned "herror option" | Panicked string

datatype hprog =
    HDone hresult
  | HProgress gofloat string "bool \<Rightarrow> hprog"
  | HUsage int int int "bool \<Rightarrow> hprog"

record pool =
  pl_handlers :: "string \<rightharpoonup> (job \<Rightarrow> hprog)"
  pl_workers :: int
  pl_poll :: duration
  pl_lease :: duration
  pl_renew_interval :: duration
  pl_backoff :: "int \<Rightarrow> nat \<Rightarrow> duration"

definition NewPool :: "jobs_config \<Rightarrow> pool" where
  "NewPool cfg =
     (let workers = (if jc_workers cfg \<le> 0 then 2 else jc_workers cfg);
          poll = (if jc_poll_interval cfg \<le> 0 then 2 * second else jc_poll_interval cfg);
          lease = (if jc_lease_duration cfg \<le> 0 then 15 * minute else jc_lease_duration cfg)
      in \<lparr>pl_handlers = Map.empty, pl_workers = workers, pl_poll = poll, pl_lease = lease,
          pl_renew_interval = lease div 3, pl_backoff = ExponentialBackoff\<rparr>)"

definition Register :: "string \<Rightarrow> (job \<Rightarrow> hprog) \<Rightarrow> pool \<Rightarrow> pool" where
  "Register kind h p = p\<lparr>pl_handlers := (pl_handlers p)(kind \<mapsto> h)\<rparr>"

definition handlerFor :: "pool \<Rightarrow> string \<Rightarrow> (job \<Rightarrow> hprog) option" where
  "handlerFor p kind = pl_handlers p kind"

text \<open>A statement sent under the pool's context fails once the context is cancelled.\<close>

definition under_ctx :: "bool \<Rightarrow> db_error option \<Rightarrow> db_error option" where
  "under_ctx cancelled f = (if cancelled then Some CtxCanceled else f)"

lemma under_ctx_simps [simp]: "under_ctx True f = Some CtxCanceled" "under_ctx False f = f"
  by (simp_all add: under_ctx_def)

definition claim :: "bool \<Rightarrow> callenv \<Rightarrow> string \<Rightarrow> pool \<Rightarrow> queue \<Rightarrow> (db_error + job option) \<times> queue" where
  "claim cancelled env worker p q =
     (let now = clk env 0; nowMS = Millis now; leaseUntil = Millis (now + pl_lease p);
          (res, q') = on_table (under_ctx cancelled (flt env 0))
            (ClaimNextJob worker (Some leaseUntil) (Some nowMS) nowMS nowMS) q
      in (case res of
            Inl NoRows \<Rightarrow> (Inr None, q')
          | Inl e \<Rightarrow> (Inl e, q')
          | Inr row \<Rightarrow> (Inr (Some (fromRow row)), q')))"

subsection \<open>Recording the outcome of a job\<close>

definition finishSucceeded :: "bool \<Rightarrow> callenv \<Rightarrow> job \<Rightarrow> queue \<Rightarrow> job \<times> queue" where
  "finishSucceeded cancelled env j q =
     (let now = Millis (clk env 0);
          (res, q') = on_table (under_ctx cancelled (flt env 0))
            (CompleteJob (job_note j) (Some now) now (job_id j)) q
      in case res of
           Inl _ \<Rightarrow> (j, q')
         | Inr _ \<Rightarrow> let j' = j\<lparr>job_st := StateSucceeded, job_progress := Fin 1\<rparr>
                    in (j', publish_job j' q'))"

definition finishFailed :: "bool \<Rightarrow> callenv \<Rightarrow> string \<Rightarrow> job \<Rightarrow> queue \<Rightarrow> job \<times> queue" where
  "finishFailed cancelled env cause j q =
     (let now = Millis (clk env 0);
          (res, q') = on_table (under_ctx cancelled (flt env 0))
            (FailJob cause (Some now) now (job_id j)) q
      in case res of
           Inl _ \<Rightarrow> (j, q')
         | Inr _ \<Rightarrow> let j' = j\<lparr>job_st := StateFailed, job_last_error := cause\<rparr>
                    in (j', publish_job j' q'))"

definition retry :: "bool \<Rightarrow> callenv \<Rightarrow> string \<Rightarrow> duration \<Rightarrow> job \<Rightarrow> queue \<Rightarrow> job \<times> queue" where
  "retry cancelled env cause delay j q =
     (let now = clk env 0;
          (res, q') = on_table (under_ctx cancelled (flt env 0))
            (RetryJob cause (Millis (now + delay)) (Millis now) (job_id j)) q
      in case res of
           Inl _ \<Rightarrow> (j, q')
         | Inr _ \<Rightarrow> let j' = j\<lparr>job_st := StateQueued, job_last_error := cause\<rparr>
                    in (j', publish_job j' q'))"

text \<open>\<open>release\<close> runs under a fresh context, so the pool's cancellation does not reach it.\<close>

definition release :: "callenv \<Rightarrow> job \<Rightarrow> queue \<Rightarrow> job \<times> queue" where
  "release env j q =
     (let now = Millis (clk env 0);
          (res, q') = on_table (flt env 0) (ReleaseJob now now (job_id j)) q
      in case res of
           Inl _ \<Rightarrow> (j, q')
         | Inr _ \<Rightarrow> let j' = j\<lparr>job_st := StateQueued\<rparr> in (j', publish_job j' q'))"

definition reclaim :: "bool \<Rightarrow> callenv \<Rightarrow> queue \<Rightarrow> (db_error + nat) \<times> queue" where
  "reclaim cancelled env q =
     (let now = Millis (clk env 0)
      in on_table (under_ctx cancelled (flt env 0)) (ReclaimExpiredLeases now (Some now)) q)"

text \<open>One tick of the renewal goroutine; a failure is only logged.\<close>

definition renew_tick :: "bool \<Rightarrow> callenv \<Rightarrow> pool \<Rightarrow> string \<Rightarrow> queue \<Rightarrow> queue" where
  "renew_tick cancelled env p i q =
     (let until = Millis (clk env 0 + pl_lease p)
      in snd (on_table (under_ctx cancelled (flt env 0)) (ExtendLease (Some until) (Millis (clk env 1)) i) q))"

text \<open>
  The two loops around these, over what wakes them up: a tick of their ticker, or the cancellation
  of their context, after which they return.
\<close>

datatype wakeup = Cancelled | Ticked callenv

fun renewLease :: "pool \<Rightarrow> wakeup list \<Rightarrow> string \<Rightarrow> queue \<Rightarrow> queue" where
  "renewLease p [] i q = q"
| "renewLease p (Cancelled # ws) i q = q"
| "renewLease p (Ticked env # ws) i q = renewLease p ws i (renew_tick False env p i q)"

fun reclaimLoop :: "wakeup list \<Rightarrow> queue \<Rightarrow> queue" where
  "reclaimLoop [] q = q"
| "reclaimLoop (Cancelled # ws) q = q"
| "reclaimLoop (Ticked env # ws) q = reclaimLoop ws (snd (reclaim False env q))"

subsection \<open>The reporter\<close>

definition clamp :: "gofloat \<Rightarrow> gofloat" where
  "clamp fraction = go_min (go_max fraction (Fin 0)) (Fin 1)"

definition Progress ::
  "callenv \<Rightarrow> gofloat \<Rightarrow> string \<Rightarrow> job \<Rightarrow> queue \<Rightarrow> db_error option \<times> job \<times> queue" where
  "Progress env fraction note j q =
     (let fraction = clamp fraction; now = Millis (clk env 0);
          (res, q') = on_table (flt env 0) (UpdateJobProgress fraction note now (job_id j)) q
      in case res of
           Inl e \<Rightarrow> (Some e, j, q')
         | Inr _ \<Rightarrow>
             let j' = j\<lparr>job_progress := fraction, job_note := note, job_updated_at := Time now\<rparr>
             in (None, j', publish_job j' q'))"

text \<open>Go's \<open>int64\<close> addition wraps around.\<close>

definition add64 :: "int \<Rightarrow> int \<Rightarrow> int" where
  "add64 a b = (a + b + 2 ^ 63) mod 2 ^ 64 - 2 ^ 63"

definition Usage ::
  "callenv \<Rightarrow> int \<Rightarrow> int \<Rightarrow> int \<Rightarrow> job \<Rightarrow> queue \<Rightarrow> db_error option \<times> job \<times> queue" where
  "Usage env tin tout cost j q =
     (let (res, q') = on_table (flt env 0)
            (RecordJobUsage tin tout cost (Millis (clk env 0)) (job_id j)) q
      in case res of
           Inl e \<Rightarrow> (Some e, j, q')
         | Inr _ \<Rightarrow> (None, j\<lparr>job_tokens_in := add64 (job_tokens_in j) tin,
             job_tokens_out := add64 (job_tokens_out j) tout,
             job_cost_micros := add64 (job_cost_micros j) cost\<rparr>, q'))"

subsection \<open>Running a job\<close>

text \<open>\<open>envs n\<close> is the environment of the \<open>n\<close>-th report the handler makes.\<close>

primrec run_hprog ::
  "hprog \<Rightarrow> (nat \<Rightarrow> callenv) \<Rightarrow> nat \<Rightarrow> job \<Rightarrow> queue \<Rightarrow> hresult \<times> job \<times> queue" where
  "run_hprog (HDone r) envs n j q = (r, j, q)"
| "run_hprog (HProgress f note k) envs n j q =
     (case Progress (envs n) f note j q of (e, j', q') \<Rightarrow> run_hprog (k (e \<noteq> None)) envs (Suc n) j' q')"
| "run_hprog (HUsage a b c k) envs n j q =
     (case Usage (envs n) a b c j q of (e, j', q') \<Rightarrow> run_hprog (k (e \<noteq> None)) envs (Suc n) j' q')"

definition runHandler :: "hresult \<Rightarrow> herror option" where
  "runHandler r = (case r of Returned e \<Rightarrow> e | Panicked v \<Rightarrow> Some (HErr (''handler panicked: '' @ v) False))"

definition no_handler_text :: "string \<Rightarrow> string" where
  "no_handler_text kind = ''no handler registered for job kind: '' @ kind"

text \<open>The switch at the end of \<open>execute\<close>, on the handler's error.\<close>

definition settle ::
  "pool \<Rightarrow> bool \<Rightarrow> callenv \<Rightarrow> nat \<Rightarrow> herror option \<Rightarrow> job \<Rightarrow> queue \<Rightarrow> job \<times> queue" where
  "settle p cancelled env rnd err j q =
     (case err of
        None \<Rightarrow> finishSucceeded cancelled env j q
      | Some e \<Rightarrow>
          if cancelled \<and> h_is_ctx e then release env j q
          else if job_attempts j \<ge> job_max_attempts j then finishFailed cancelled env (h_text e) j q
          else retry cancelled env (h_text e) (pl_backoff p (job_attempts j) rnd) j q)"

definition execute ::
  "pool \<Rightarrow> bool \<Rightarrow> callenv \<Rightarrow> (nat \<Rightarrow> callenv) \<Rightarrow> nat \<Rightarrow> job \<Rightarrow> queue \<Rightarrow> job \<times> queue" where
  "execute p cancelled env envs rnd j q =
     (case handlerFor p (job_kind j) of
        None \<Rightarrow> finishFailed cancelled env (no_handler_text (job_kind j)) j q
      | Some h \<Rightarrow>
          let q1 = publish_job j q;
              (res, j', q2) = run_hprog (h j) envs 0 j q1
          in settle p cancelled env rnd (runHandler res) j' q2)"

text \<open>One round of a worker's loop; \<open>False\<close> says that the worker stops.\<close>

definition worker_round ::
  "pool \<Rightarrow> bool \<Rightarrow> bool \<Rightarrow> callenv \<Rightarrow> callenv \<Rightarrow> (nat \<Rightarrow> callenv) \<Rightarrow> nat \<Rightarrow> string \<Rightarrow> queue \<Rightarrow> bool \<times> queue" where
  "worker_round p cancelled cancelled_later env env2 envs rnd name q =
     (if cancelled then (False, q)
      else case claim False env name p q of
        (Inl _, q') \<Rightarrow> (\<not> cancelled_later, q')
      | (Inr None, q') \<Rightarrow> (\<not> cancelled_later, q')
      | (Inr (Some j), q') \<Rightarrow> (True, snd (execute p cancelled_later env2 envs rnd j q')))"

subsection \<open>Every operation of the pool keeps the queue's invariant\<close>

lemma claim_inv: "queue_inv q \<Longrightarrow> queue_inv (snd (claim c env w p q))"
  unfolding claim_def Let_def
  by (auto dest: on_table_invD[OF _ _ ClaimNextJob_inv] split: prod.splits sum.splits db_error.splits)

lemma finishSucceeded_inv: "queue_inv q \<Longrightarrow> queue_inv (snd (finishSucceeded c env j q))"
  unfolding finishSucceeded_def Let_def
  by (auto intro!: publish_job_inv dest: on_table_invD[OF _ _ CompleteJob_inv] split: prod.splits sum.splits)

lemma finishFailed_inv: "queue_inv q \<Longrightarrow> queue_inv (snd (finishFailed c env e j q))"
  unfolding finishFailed_def Let_def
  by (auto intro!: publish_job_inv dest: on_table_invD[OF _ _ FailJob_inv] split: prod.splits sum.splits)

lemma retry_inv: "queue_inv q \<Longrightarrow> queue_inv (snd (retry c env e d j q))"
  unfolding retry_def Let_def
  by (auto intro!: publish_job_inv dest: on_table_invD[OF _ _ RetryJob_inv] split: prod.splits sum.splits)

lemma release_inv: "queue_inv q \<Longrightarrow> queue_inv (snd (release env j q))"
  unfolding release_def Let_def
  by (auto intro!: publish_job_inv dest: on_table_invD[OF _ _ ReleaseJob_inv] split: prod.splits sum.splits)

lemma reclaim_inv: "queue_inv q \<Longrightarrow> queue_inv (snd (reclaim c env q))"
  unfolding reclaim_def Let_def by (rule on_table_inv) (auto intro: ReclaimExpiredLeases_inv)

lemma renew_tick_inv: "queue_inv q \<Longrightarrow> queue_inv (renew_tick c env p i q)"
  unfolding renew_tick_def Let_def by (rule on_table_inv) (auto intro: ExtendLease_inv)

lemma Progress_inv: "queue_inv q \<Longrightarrow> queue_inv (snd (snd (Progress env f n j q)))"
  unfolding Progress_def Let_def
  by (auto intro!: publish_job_inv dest: on_table_invD[OF _ _ UpdateJobProgress_inv] split: prod.splits sum.splits)

lemma Usage_inv: "queue_inv q \<Longrightarrow> queue_inv (snd (snd (Usage env a b c j q)))"
  unfolding Usage_def Let_def
  by (auto dest: on_table_invD[OF _ _ RecordJobUsage_inv] split: prod.splits sum.splits)

lemmas pool_inv = claim_inv finishSucceeded_inv finishFailed_inv retry_inv release_inv reclaim_inv
  renew_tick_inv Progress_inv Usage_inv

lemma run_hprog_inv: "queue_inv q \<Longrightarrow> queue_inv (snd (snd (run_hprog h envs n j q)))"
proof (induction h arbitrary: n j q)
  case (HProgress f m k)
  then show ?case
    using Progress_inv[of q "envs n" f m j] by (auto split: prod.split)
next
  case (HUsage a b c k)
  then show ?case
    using Usage_inv[of q "envs n" a b c j] by (auto split: prod.split)
qed simp

lemma settle_inv: "queue_inv q \<Longrightarrow> queue_inv (snd (settle p c env rnd err j q))"
  by (auto simp: settle_def pool_inv split: option.split)

lemma execute_inv:
  assumes "queue_inv q"
  shows "queue_inv (snd (execute p c env envs rnd j q))"
proof (cases "handlerFor p (job_kind j)")
  case None
  then show ?thesis by (simp add: execute_def assms pool_inv)
next
  case (Some h)
  obtain res j' q2 where r: "run_hprog (h j) envs 0 j (publish_job j q) = (res, j', q2)"
    by (metis prod_cases3)
  have "queue_inv q2"
    using run_hprog_inv[OF publish_job_inv[OF assms], of "h j" envs 0 j j] r by simp
  then show ?thesis by (simp add: execute_def Some Let_def r settle_inv)
qed

lemma worker_round_inv:
  assumes "queue_inv q"
  shows "queue_inv (snd (worker_round p c c' env env2 envs rnd w q))"
proof -
  obtain x q' where e: "claim False env w p q = (x, q')" by fastforce
  have "queue_inv q'" using claim_inv[OF assms, of False env w p] e by simp
  then show ?thesis
    using assms by (auto simp: worker_round_def e execute_inv split: sum.split option.split)
qed

subsection \<open>Backoff\<close>

lemma backoff_delay_shift:
  assumes "s \<le> 16"
  shows "sint (push_bit s backoff_base) = 5000000000 * 2 ^ s"
proof -
  have "s \<in> set [0..<17]" using assms by auto
  moreover have "\<forall>s \<in> set [0..<17]. sint (push_bit s backoff_base) = 5000000000 * 2 ^ s"
    by code_simp
  ultimately show ?thesis by blast
qed

lemma backoff_delay_eq:
  "backoff_delay a = (if a \<le> 1 then 5000000000 else min (5000000000 * 2 ^ nat (min (a - 1) 16)) 600000000000)"
proof (cases "a \<le> 1")
  case True
  then show ?thesis
    using backoff_delay_shift[of 0] by (auto simp: backoff_delay_def Let_def backoff_max_def)
next
  case False
  have "nat (min (a - 1) 16) \<le> 16" by simp
  then show ?thesis
    using False by (auto simp: backoff_delay_def Let_def backoff_max_def backoff_delay_shift min_def)
qed

lemma backoff_delay_bounds: "5000000000 \<le> backoff_delay a \<and> backoff_delay a \<le> 600000000000"
proof -
  have "(1::int) \<le> 2 ^ n" for n by simp
  then show ?thesis by (auto simp: backoff_delay_eq)
qed

subsection \<open>What a handler's reports leave alone\<close>

definition core :: "job_row \<Rightarrow> job_state \<times> int \<times> int \<times> millis option" where
  "core r = (jr_state r, jr_attempts r, jr_max_attempts r, jr_lease_until r)"

definition same_job :: "job \<Rightarrow> job \<Rightarrow> bool" where
  "same_job j j' \<longleftrightarrow> job_id j' = job_id j \<and> job_attempts j' = job_attempts j \<and>
     job_max_attempts j' = job_max_attempts j"

lemma commit_core:
  assumes "\<And>r. jr_id (f r) = jr_id r" "\<And>r. core (f r) = core r"
  shows "map_option core (job_by i (snd (commit_jobs t (sql_update P f t) v))) = map_option core (job_by i t)"
proof -
  have "map_option core (job_by i (sql_update P f t)) = map_option core (job_by i t)"
    using assms by (cases "job_by i t") (auto simp: row_by_sql_update)
  then show ?thesis by (cases rule: commit_cases[of "sql_update P f t" t v]) auto
qed

lemma on_table_core:
  assumes "on_table f st q = (x, q')"
    and "\<And>t. map_option core (job_by i (snd (st t))) = map_option core (job_by i t)"
  shows "map_option core (job_by i (q_table q')) = map_option core (job_by i (q_table q))"
  using assms by (cases f) auto

lemma UpdateJobProgress_core:
  "map_option core (job_by i (snd (UpdateJobProgress p n u k t))) = map_option core (job_by i t)"
  unfolding UpdateJobProgress_def by (rule commit_core) (simp_all add: core_def)

lemma RecordJobUsage_core:
  "map_option core (job_by i (snd (RecordJobUsage a b c u k t))) = map_option core (job_by i t)"
  unfolding RecordJobUsage_def by (rule commit_core) (simp_all add: core_def)

lemma Progress_core:
  assumes "Progress env f n j q = (e, j', q')"
  shows "same_job j j' \<and> map_option core (job_by i (q_table q')) = map_option core (job_by i (q_table q))"
  using assms unfolding Progress_def Let_def
  by (auto simp: same_job_def dest: on_table_core[OF _ UpdateJobProgress_core, where i = i]
      split: prod.splits sum.splits)

lemma Usage_core:
  assumes "Usage env a b c j q = (e, j', q')"
  shows "same_job j j' \<and> map_option core (job_by i (q_table q')) = map_option core (job_by i (q_table q))"
  using assms unfolding Usage_def Let_def
  by (auto simp: same_job_def dest: on_table_core[OF _ RecordJobUsage_core, where i = i]
      split: prod.splits sum.splits)

lemma run_hprog_core:
  assumes "run_hprog h envs n j q = (res, j', q')"
  shows "same_job j j' \<and> map_option core (job_by i (q_table q')) = map_option core (job_by i (q_table q))"
  using assms
proof (induction h arbitrary: n j q)
  case (HProgress f m k)
  obtain e j1 q1 where p: "Progress (envs n) f m j q = (e, j1, q1)" by (metis prod_cases3)
  with HProgress show ?case
    using Progress_core[OF p, of i] by (fastforce simp: same_job_def)
next
  case (HUsage a b c k)
  obtain e j1 q1 where p: "Usage (envs n) a b c j q = (e, j1, q1)" by (metis prod_cases3)
  with HUsage show ?case
    using Usage_core[OF p, of i] by (fastforce simp: same_job_def)
qed (simp add: same_job_def)

subsection \<open>What settling does to the row of a running job\<close>

lemma RetryJob_pending:
  assumes ok: "jobs_ok t" and r: "job_by i t = Some r" "pending r"
  shows "RetryJob e ra u i t = (Inr (), sql_update (\<lambda>r. jr_id r = i)
       (\<lambda>r. r\<lparr>jr_state := StateQueued, jr_last_error := e, jr_run_after := ra,
             jr_lease_until := None, jr_worker := [], jr_updated_at := u\<rparr>) t)"
  unfolding RetryJob_def
proof (intro commit_ok update_ok[OF ok])
  fix x assume "x \<in> set t" "jr_id x = i"
  then have "x = r" using jobs.row_of_mem[OF ok] r by fastforce
  with r show "pending_key (x\<lparr>jr_state := StateQueued, jr_last_error := e, jr_run_after := ra,
      jr_lease_until := None, jr_worker := [], jr_updated_at := u\<rparr>) \<in> {None, pending_key x}"
    by (simp add: pending_key_def pending_def)
qed (simp_all add: row_violation_def split: if_splits)

lemma row_after_id_update:
  "(\<And>r. jr_id (f r) = jr_id r) \<Longrightarrow> job_by k (sql_update (\<lambda>r. jr_id r = i) f t) =
     map_option (\<lambda>r. if k = i then f r else r) (job_by k t)"
  using jobs.row_after_update[where Q = "\<lambda>_. True" and f = f and k = i and k' = k and t = t]
  by (simp split: option.split)

lemma row_after_state_update:
  "(\<And>r. jr_id (f r) = jr_id r) \<Longrightarrow> job_by k (sql_update (\<lambda>r. jr_id r = i \<and> jr_state r = s) f t) =
     map_option (\<lambda>r. if k = i \<and> jr_state r = s then f r else r) (job_by k t)"
  using jobs.row_after_update[where Q = "\<lambda>r. jr_state r = s" and f = f and k = i and k' = k and t = t]
  by (simp split: option.split)

definition settled ::
  "pool \<Rightarrow> bool \<Rightarrow> callenv \<Rightarrow> nat \<Rightarrow> herror option \<Rightarrow> job_row \<Rightarrow> job_row \<Rightarrow> bool" where
  "settled p cancelled env rnd err r r' \<longleftrightarrow>
     (case err of
        None \<Rightarrow> if cancelled then core r' = core r
          else jr_state r' = StateSucceeded \<and> jr_progress r' = Fin 1 \<and>
            jr_finished_at r' = Some (Millis (clk env 0)) \<and> jr_attempts r' = jr_attempts r
      | Some e \<Rightarrow>
          if cancelled \<and> h_is_ctx e then jr_state r' = StateQueued \<and>
            jr_attempts r' = max (jr_attempts r - 1) 0 \<and> jr_run_after r' = Millis (clk env 0)
          else if cancelled then core r' = core r
          else if jr_attempts r \<ge> jr_max_attempts r
            then jr_state r' = StateFailed \<and> jr_last_error r' = h_text e \<and>
              jr_finished_at r' = Some (Millis (clk env 0)) \<and> jr_attempts r' = jr_attempts r
          else jr_state r' = StateQueued \<and> jr_last_error r' = h_text e \<and>
            jr_run_after r' = Millis (clk env 0 + pl_backoff p (jr_attempts r) rnd) \<and>
            jr_attempts r' = jr_attempts r)"

lemma settle_row:
  assumes inv: "queue_inv q" and row: "job_by (job_id j) (q_table q) = Some r"
    and run: "jr_state r = StateRunning" and calm: "flt env 0 = None"
    and j: "job_attempts j = jr_attempts r" "job_max_attempts j = jr_max_attempts r"
  shows "\<exists>r'. job_by (job_id j) (q_table (snd (settle p c env rnd err j q))) = Some r' \<and>
    settled p c env rnd err r r'"
proof -
  have ok: "jobs_ok (q_table q)" using inv by auto
  have pend: "pending r" using run by (simp add: pending_def)
  show ?thesis
  proof (cases err)
    case None
    then show ?thesis using row calm
      by (cases c) (simp_all add: settle_def finishSucceeded_def Let_def settled_def
        CompleteJob_ok[OF ok] row_after_id_update)
  next
    case (Some e)
    consider (rel) "c" "h_is_ctx e" | (lost) "c" "\<not> h_is_ctx e" | (live) "\<not> c" by blast
    then show ?thesis
    proof cases
      case rel
      then show ?thesis using Some row run calm
        by (simp add: settle_def release_def Let_def settled_def ReleaseJob_ok[OF ok]
          row_after_state_update)
    next
      case lost
      then show ?thesis using Some row
        by (simp add: settle_def finishFailed_def retry_def Let_def settled_def)
    next
      case live
      then show ?thesis using Some row calm j
        by (simp add: settle_def finishFailed_def retry_def Let_def settled_def FailJob_ok[OF ok]
          RetryJob_pending[OF ok row pend] row_after_id_update)
    qed
  qed
qed

lemma ExponentialBackoff_le: "ExponentialBackoff a rnd \<le> 600000000000"
proof -
  have "0 < backoff_delay a div 4" using backoff_delay_bounds[of a] by linarith
  then have "0 \<le> int rnd mod (backoff_delay a div 4)" by simp
  then show ?thesis
    using backoff_delay_bounds[of a] unfolding ExponentialBackoff_def Let_def by linarith
qed

lemma bad_row_not_ok: "r \<in> set t \<Longrightarrow> row_violation r \<noteq> None \<Longrightarrow> \<not> jobs_ok t"
  by (auto simp: jobs_ok_iff)

lemma div_mult_le4: "4 * (d div 4) \<le> (d::int)"
  by presburger

subsection \<open>Claiming\<close>

text \<open>The room for one more attempt below the 64-bit limit of the counter.\<close>

definition attempts_room :: "jobs_table \<Rightarrow> bool" where
  "attempts_room t \<longleftrightarrow> (\<forall>r \<in> set t. jr_attempts r < 2 ^ 63 - 1)"

lemma claim_cases:
  assumes "queue_inv q" "attempts_room (q_table q)" "flt env 0 = None"
  obtains (none) "\<forall>r \<in> set (q_table q). \<not> runnable (Millis (clk env 0)) r"
      "claim False env w p q = (Inr None, q)"
    | (job) r r' q' where "r \<in> set (q_table q)" "runnable (Millis (clk env 0)) r"
      "\<And>x. x \<in> set (q_table q) \<Longrightarrow> runnable (Millis (clk env 0)) x \<Longrightarrow> claim_order r \<le> claim_order x"
      "r' = claim_row w (Some (Millis (clk env 0 + pl_lease p))) (Some (Millis (clk env 0)))
         (Millis (clk env 0)) r"
      "q' = q\<lparr>q_table := sql_update (\<lambda>x. jr_id x = jr_id r)
         (claim_row w (Some (Millis (clk env 0 + pl_lease p))) (Some (Millis (clk env 0)))
           (Millis (clk env 0))) (q_table q)\<rparr>"
      "claim False env w p q = (Inr (Some (fromRow r')), q')"
proof -
  have ok: "jobs_ok (q_table q)" using assms(1) by auto
  have room: "\<forall>r \<in> set (q_table q). jr_attempts r < 2 ^ 63 - 1"
    using assms(2) by (simp add: attempts_room_def)
  let ?now = "Millis (clk env 0)" and ?l = "Some (Millis (clk env 0 + pl_lease p))"
  show thesis
  proof (cases rule: ClaimNextJob_cases[OF ok room, where w = w and l = ?l and s = "Some ?now" and u = ?now
      and now = ?now, case_names none job])
    case none
    then show ?thesis using assms(3) by (intro that(1)) (auto simp: claim_def Let_def)
  next
    case (job r)
    then show ?thesis using assms(3) by (intro that(2)[of r]) (auto simp: claim_def Let_def)
  qed
qed

text \<open>A job another claim has just taken is running, and running jobs are not runnable.\<close>

primrec claim_all :: "pool \<Rightarrow> (callenv \<times> string) list \<Rightarrow> queue \<Rightarrow> job list \<times> queue" where
  "claim_all p [] q = ([], q)"
| "claim_all p (c # cs) q =
     (case claim False (fst c) (snd c) p q of
        (Inr (Some j), q') \<Rightarrow> (case claim_all p cs q' of (js, q'') \<Rightarrow> (j # js, q''))
      | (_, q') \<Rightarrow> claim_all p cs q')"

lemma claim_elim:
  assumes "queue_inv q" "claim c env w p q = (x, q')"
  obtains (same) "q' = q" "\<nexists>j. x = Inr (Some j)"
    | (job) r f where "job_by (jr_id r) (q_table q) = Some r" "jr_state r = StateQueued"
      "f = claim_row w (Some (Millis (clk env 0 + pl_lease p))) (Some (Millis (clk env 0))) (Millis (clk env 0))"
      "x = Inr (Some (fromRow (f r)))"
      "q' = q\<lparr>q_table := sql_update (\<lambda>y. jr_id y = jr_id r) f (q_table q)\<rparr>"
proof (cases "under_ctx c (flt env 0)")
  case None
  have ok: "jobs_ok (q_table q)" using assms(1) by auto
  let ?now = "Millis (clk env 0)" and ?l = "Some (Millis (clk env 0 + pl_lease p))"
  show thesis
  proof (cases rule: ClaimNextJob_elim[OF ok, where w = w and l = ?l and s = "Some ?now" and u = ?now
      and now = ?now, case_names same job])
    case (same e)
    then show ?thesis using assms(2) None
      by (intro that(1)) (auto simp: claim_def Let_def split: db_error.splits)
  next
    case (job r)
    then show ?thesis using assms(2) None
      by (intro that(2)[of r]) (auto simp: claim_def Let_def runnable_def)
  qed
next
  case (Some e)
  then show ?thesis using assms(2)
    by (intro that(1)) (auto simp: claim_def Let_def split: db_error.splits)
qed

lemma claim_keeps_running:
  assumes "queue_inv q" "claim c env w p q = (x, q')"
    and "job_by i (q_table q) = Some r" "jr_state r = StateRunning"
  shows "job_by i (q_table q') = Some r \<and> (\<forall>j. x = Inr (Some j) \<longrightarrow> job_id j \<noteq> i)"
  by (cases rule: claim_elim[OF assms(1,2)])
    (use assms(3,4) in \<open>auto simp: row_after_id_update\<close>)

lemma claim_taken:
  assumes "queue_inv q" "claim c env w p q = (Inr (Some j), q')"
  shows "\<exists>r. job_by (job_id j) (q_table q') = Some r \<and> jr_state r = StateRunning \<and> j = fromRow r"
  by (cases rule: claim_elim[OF assms]) (auto simp: row_after_id_update)

lemma claim_all_running:
  assumes "queue_inv q" "job_by i (q_table q) = Some r" "jr_state r = StateRunning"
  shows "i \<notin> job_id ` set (fst (claim_all p cs q))"
  using assms
proof (induction cs arbitrary: q)
  case (Cons c cs)
  obtain x q' where e: "claim False (fst c) (snd c) p q = (x, q')" by fastforce
  have "queue_inv q'" using claim_inv[OF Cons.prems(1), of False "fst c" "snd c" p] e by simp
  moreover note keep = claim_keeps_running[OF Cons.prems(1) e Cons.prems(2,3)]
  ultimately have "i \<notin> job_id ` set (fst (claim_all p cs q'))" using Cons by blast
  then show ?case using keep e by (auto split: sum.split option.split prod.splits)
qed simp

lemma claim_all_distinct: "queue_inv q \<Longrightarrow> distinct (map job_id (fst (claim_all p cs q)))"
proof (induction cs arbitrary: q)
  case (Cons c cs)
  obtain x q' where e: "claim False (fst c) (snd c) p q = (x, q')" by fastforce
  have inv: "queue_inv q'" using claim_inv[OF Cons.prems, of False "fst c" "snd c" p] e by simp
  have "job_id j \<notin> job_id ` set (fst (claim_all p cs q'))" if "x = Inr (Some j)" for j
    using claim_taken[OF Cons.prems, of False "fst c" "snd c" p j q'] e that claim_all_running[OF inv] by blast
  then show ?case using e Cons.IH[OF inv] by (auto split: sum.split option.split prod.splits)
qed simp

subsection \<open>An example pool\<close>

definition demo_pool :: "hresult \<Rightarrow> pool" where
  "demo_pool res = Register ''convert'' (\<lambda>_. HDone res)
     (NewPool \<lparr>jc_workers = 2, jc_poll_interval = 2 * second, jc_lease_duration = 15 * minute,
        jc_max_attempts = 3\<rparr>)"

lemma demo_pool_sel [simp]:
  "handlerFor (demo_pool res) ''convert'' = Some (\<lambda>_. HDone res)"
  "pl_backoff (demo_pool res) = ExponentialBackoff"
  "pl_lease (demo_pool res) = 15 * minute"
  by (simp_all add: demo_pool_def Register_def handlerFor_def NewPool_def Let_def)

lemma demo_pool_other: "k \<noteq> ''convert'' \<Longrightarrow> handlerFor (demo_pool res) k = None"
  by (simp add: demo_pool_def Register_def handlerFor_def NewPool_def Let_def)

subsection \<open>Properties\<close>

text \<open>C8. A claim takes the runnable job of highest priority, the oldest id first among equals,
  charges it one attempt and leases it to the worker, leaving every other job as it was; it
  reports an empty queue exactly when no queued job is due, and then changes nothing.\<close>

theorem claim_takes_first_runnable:
  assumes "queue_inv q" "attempts_room (q_table q)" "flt env 0 = None"
  shows "(\<exists>r \<in> set (q_table q). runnable (Millis (clk env 0)) r \<and>
      (\<forall>x \<in> set (q_table q). runnable (Millis (clk env 0)) x \<longrightarrow>
         jr_priority x < jr_priority r \<or> jr_priority x = jr_priority r \<and> jr_id r \<le> jr_id x) \<and>
      (\<exists>r' q'. claim False env w p q = (Inr (Some (fromRow r')), q') \<and>
         job_by (jr_id r) (q_table q') = Some r' \<and> jr_state r' = StateRunning \<and>
         jr_attempts r' = jr_attempts r + 1 \<and> jr_worker r' = w \<and>
         jr_lease_until r' = Some (Millis (clk env 0 + pl_lease p)) \<and>
         (\<forall>k. k \<noteq> jr_id r \<longrightarrow> job_by k (q_table q') = job_by k (q_table q)))) \<or>
    (\<forall>r \<in> set (q_table q). \<not> runnable (Millis (clk env 0)) r) \<and> claim False env w p q = (Inr None, q)"
  using assms
proof (cases rule: claim_cases[where w = w and p = p, case_names none job])
  case (job r r' q')
  have "job_by (jr_id r) (q_table q) = Some r" using jobs.row_of_mem job(1) assms(1) by auto
  then have "job_by (jr_id r) (q_table q') = Some r'"
    and "\<forall>k. k \<noteq> jr_id r \<longrightarrow> job_by k (q_table q') = job_by k (q_table q)"
    using job(4,5) by (simp_all add: row_after_id_update option.map_ident)
  then show ?thesis using job
    by (intro disjI1 bexI[of _ r] conjI exI[of _ r'] exI[of _ q'])
      (auto simp: claim_order_def less_le_not_le dest!: job(3))
qed simp

lemma claim_takes_first_runnable_witness:
  "\<exists>r' q'. claim False (calm 0) ''worker-0'' (demo_pool (Returned None)) (NewQueue [demo_row]) =
     (Inr (Some (fromRow r')), q') \<and> jr_attempts r' = 1"
proof -
  have "attempts_room [demo_row]" "runnable 0 demo_row"
    by (simp_all add: attempts_room_def demo_sel runnable_def)
  then show ?thesis
    using claim_takes_first_runnable[of "NewQueue [demo_row]" "calm 0" "''worker-0''" "demo_pool (Returned None)"]
    by (auto simp: queue_inv_New demo_inv demo_sel Millis_def)
qed

text \<open>However many workers claim, in whatever order and with whatever database failures, no
  job is handed out twice while it is running.\<close>

lemma claims_never_share_a_job:
  assumes "queue_inv q"
  shows "distinct (map job_id (fst (claim_all p cs q)))"
  by (rule claim_all_distinct[OF assms])

lemma claims_never_share_a_job_witness:
  "distinct (map job_id (fst (claim_all (demo_pool (Returned None))
     [(calm 0, ''worker-0''), (calm 0, ''worker-1'')] (NewQueue [demo_row]))))"
  by (rule claims_never_share_a_job) (simp add: queue_inv_New demo_inv)

text \<open>C5. Executing a running job settles it by what its handler returns, whatever it reports on
  the way: success completes it, an error reschedules it after the backoff delay until its
  attempts are used up and then fails it, a panic counts as an error, and a context error
  during shutdown gives the job back with the attempt refunded. When the pool is shut down and
  the handler returns anything else, nothing is recorded and the job keeps its lease.\<close>

theorem execute_outcome:
  assumes "queue_inv q" "job_by (job_id j) (q_table q) = Some r" "jr_state r = StateRunning"
    and "flt env 0 = None" "handlerFor p (job_kind j) = Some h"
    and "job_attempts j = jr_attempts r" "job_max_attempts j = jr_max_attempts r"
  shows "\<exists>r'. job_by (job_id j) (q_table (snd (execute p c env envs rnd j q))) = Some r' \<and>
    settled p c env rnd (runHandler (fst (run_hprog (h j) envs 0 j (publish_job j q)))) r r'"
proof -
  obtain res j' q2 where e: "run_hprog (h j) envs 0 j (publish_job j q) = (res, j', q2)"
    by (metis prod_cases3)
  note c = run_hprog_core[OF e, of "job_id j"]
  have inv: "queue_inv q2"
    using run_hprog_inv[OF publish_job_inv[OF assms(1)], of "h j" envs 0 j j] e by simp
  obtain r1 where r1: "job_by (job_id j') (q_table q2) = Some r1" "core r1 = core r"
    using c assms(2) by (auto simp: same_job_def)
  have "\<exists>r'. job_by (job_id j') (q_table (snd (settle p c env rnd (runHandler res) j' q2))) = Some r' \<and>
      settled p c env rnd (runHandler res) r1 r'"
    using settle_row[OF inv r1(1) _ assms(4)] r1 assms c by (simp add: core_def same_job_def)
  moreover have "settled p c env rnd x r1 r' = settled p c env rnd x r r'" for x r'
    using r1(2) by (simp add: settled_def core_def split: option.split)
  ultimately show ?thesis using assms(5) c by (simp add: execute_def Let_def e same_job_def)
qed

lemma execute_outcome_witness:
  "\<exists>r'. job_by ''j1'' (q_table (snd (execute (demo_pool (Returned None)) False (calm 0) (\<lambda>_. calm 0) 0
       (fromRow demo_running) (NewQueue [demo_running])))) = Some r' \<and> jr_state r' = StateSucceeded"
  using execute_outcome[of "NewQueue [demo_running]" "fromRow demo_running" demo_running "calm 0"
      "demo_pool (Returned None)" "\<lambda>_. HDone (Returned None)" False "\<lambda>_. calm 0" 0]
  by (auto simp: queue_inv_New demo_inv demo_running_sel settled_def runHandler_def)

text \<open>A job whose kind has no handler fails for good at once, however many attempts it has
  left.\<close>

lemma missing_handler_fails_job:
  assumes "queue_inv q" "job_by (job_id j) (q_table q) = Some r" "flt env 0 = None"
    and "handlerFor p (job_kind j) = None"
  shows "\<exists>r'. job_by (job_id j) (q_table (snd (execute p False env envs rnd j q))) = Some r' \<and>
    jr_state r' = StateFailed \<and> jr_last_error r' = no_handler_text (job_kind j) \<and>
    jr_attempts r' = jr_attempts r"
proof -
  have ok: "jobs_ok (q_table q)" using assms(1) by auto
  show ?thesis using assms
    by (simp add: execute_def finishFailed_def Let_def FailJob_ok[OF ok] row_after_id_update)
qed

lemma missing_handler_fails_job_witness:
  "\<exists>r'. job_by ''j1'' (q_table (snd (execute (NewPool \<lparr>jc_workers = 0, jc_poll_interval = 0,
       jc_lease_duration = 0, jc_max_attempts = 3\<rparr>) False (calm 0) (\<lambda>_. calm 0) 0
       (fromRow demo_running) (NewQueue [demo_running])))) = Some r' \<and> jr_state r' = StateFailed"
  using missing_handler_fails_job[of "NewQueue [demo_running]" "fromRow demo_running" demo_running "calm 0"
      "NewPool \<lparr>jc_workers = 0, jc_poll_interval = 0, jc_lease_duration = 0, jc_max_attempts = 3\<rparr>"
      "\<lambda>_. calm 0" 0]
  by (auto simp: queue_inv_New demo_inv demo_running_sel handlerFor_def NewPool_def Let_def)

text \<open>A job interrupted by shutdown goes back to the queue with the attempts it had before it
  was claimed, due at once.\<close>

lemma shutdown_refunds_attempt:
  assumes "queue_inv q" "claim False env w p q = (Inr (Some j), q1)"
    and "flt env2 0 = None" "handlerFor p (job_kind j) = Some h"
    and "fst (run_hprog (h j) envs 0 j (publish_job j q1)) = Returned (Some e)" "h_is_ctx e"
  shows "\<exists>r r'. job_by (job_id j) (q_table q) = Some r \<and>
    job_by (job_id j) (q_table (snd (execute p True env2 envs rnd j q1))) = Some r' \<and>
    jr_state r' = StateQueued \<and> jr_attempts r' = jr_attempts r \<and> jr_run_after r' = Millis (clk env2 0)"
  using assms(1,2)
proof (cases rule: claim_elim[case_names same job])
  case (job r f)
  obtain res j' q2 where e: "run_hprog (h j) envs 0 j (publish_job j q1) = (res, j', q2)"
    by (metis prod_cases3)
  have j: "j = fromRow (f r)" "job_id j = jr_id r" using job by simp_all
  have inv1: "queue_inv q1" using claim_inv[OF assms(1), of False env w p] assms(2) by simp
  have inv2: "queue_inv q2"
    using run_hprog_inv[OF publish_job_inv[OF inv1], of "h j" envs 0 j j] e by simp
  have row1: "job_by (jr_id r) (q_table q1) = Some (f r)" using job by (simp add: row_after_id_update)
  note c = run_hprog_core[OF e, of "jr_id r"]
  obtain r1 where r1: "job_by (job_id j') (q_table q2) = Some r1" "core r1 = core (f r)"
    using c row1 j by (auto simp: same_job_def)
  have "0 \<le> jr_attempts r"
    using assms(1) job(1) by (auto simp: queue_inv_def jobs_inv_def row_inv_def dest: row_by_SomeD)
  moreover have "core r1 = (StateRunning, jr_attempts r + 1, jr_max_attempts r, jr_lease_until (f r))"
    using r1(2) job(3) by (simp add: core_def)
  moreover obtain r' where "job_by (job_id j') (q_table (snd (settle p True env2 rnd (Some e) j' q2))) = Some r'"
      "settled p True env2 rnd (Some e) r1 r'"
    using settle_row[OF inv2 r1(1) _ assms(3), where c = True and p = p and rnd = rnd and err = "Some e"] c job r1
    by (auto simp: core_def same_job_def)
  ultimately show ?thesis using assms(4,5,6) e job(1) c j
    by (auto simp: execute_def Let_def runHandler_def settled_def core_def same_job_def)
qed simp

lemma shutdown_refunds_attempt_witness:
  "\<exists>j q1 r'. claim False (calm 0) ''worker-0'' (demo_pool (Returned (Some (HErr ''stop'' True))))
       (NewQueue [demo_row]) = (Inr (Some j), q1) \<and>
     job_by (job_id j) (q_table (snd (execute (demo_pool (Returned (Some (HErr ''stop'' True)))) True
       (calm 0) (\<lambda>_. calm 0) 0 j q1))) = Some r' \<and> jr_state r' = StateQueued"
proof -
  let ?p = "demo_pool (Returned (Some (HErr ''stop'' True)))"
  have inv: "queue_inv (NewQueue [demo_row])" by (simp add: queue_inv_New demo_inv)
  have room: "attempts_room (q_table (NewQueue [demo_row]))" by (simp add: attempts_room_def demo_sel)
  obtain r1 q1 where c: "claim False (calm 0) ''worker-0'' ?p (NewQueue [demo_row]) = (Inr (Some (fromRow r1)), q1)"
    and k: "jr_kind r1 = ''convert''"
    by (rule claim_cases[OF inv room calm_sel(2)[of 0 0], where w = "''worker-0''" and p = ?p])
      (auto simp: demo_sel runnable_def Millis_def)
  have "\<exists>r r'. job_by (job_id (fromRow r1)) (q_table (NewQueue [demo_row])) = Some r \<and>
    job_by (job_id (fromRow r1)) (q_table (snd (execute ?p True (calm 0) (\<lambda>_. calm 0) 0 (fromRow r1) q1))) = Some r' \<and>
    jr_state r' = StateQueued \<and> jr_attempts r' = jr_attempts r \<and> jr_run_after r' = Millis (clk (calm 0) 0)"
    by (rule shutdown_refunds_attempt[OF inv c, of "calm 0" "\<lambda>_. HDone (Returned (Some (HErr ''stop'' True)))"
        _ "HErr ''stop'' True"]) (simp_all add: k)
  then show ?thesis using c by blast
qed

lemma reclaim_rows:
  assumes "queue_inv q" "flt env 0 = None"
  shows "fst (reclaim False env q) = Inr (sql_affected (lease_expired (Some (Millis (clk env 0)))) (q_table q)) \<and>
    job_by i (q_table (snd (reclaim False env q))) = map_option
      (\<lambda>r. if jr_state r = StateRunning \<and> the (jr_lease_until r) < Millis (clk env 0)
         then r\<lparr>jr_state := StateQueued, jr_lease_until := None, jr_worker := [],
           jr_last_error := ''worker lease expired; job reclaimed'', jr_updated_at := Millis (clk env 0)\<rparr>
         else r) (job_by i (q_table q))"
proof -
  let ?now = "Millis (clk env 0)"
  let ?f = "\<lambda>r. r\<lparr>jr_state := StateQueued, jr_lease_until := None, jr_worker := [],
           jr_last_error := ''worker lease expired; job reclaimed'', jr_updated_at := ?now\<rparr>"
  have ok: "jobs_ok (q_table q)" using assms(1) by auto
  have e: "lease_expired (Some ?now) r \<longleftrightarrow> jr_state r = StateRunning \<and> the (jr_lease_until r) < ?now"
    if "r \<in> set (q_table q)" for r
    using that assms(1)
    by (auto simp: lease_expired_def queue_inv_def jobs_inv_def row_inv_def split: option.split)
  have "map_option (\<lambda>r. if lease_expired (Some ?now) r then ?f r else r) (job_by i (q_table q)) =
      map_option (\<lambda>r. if jr_state r = StateRunning \<and> the (jr_lease_until r) < ?now then ?f r else r)
        (job_by i (q_table q))"
    using e by (intro option.map_cong) (auto dest: row_by_SomeD)
  then show ?thesis
    using assms(2) by (simp add: reclaim_def Let_def ReclaimExpiredLeases_ok[OF ok] row_by_sql_update)
qed

text \<open>C26. Reclaiming returns exactly the running jobs whose lease has expired to the queue, keeping
  their attempts, and touches no other job; it reports how many it returned.\<close>

theorem reclaim_exactly_expired:
  assumes "queue_inv q" "flt env 0 = None"
  shows "reclaim False env q = (Inr (sql_affected (lease_expired (Some (Millis (clk env 0)))) (q_table q)),
      snd (reclaim False env q)) \<and>
    job_by i (q_table (snd (reclaim False env q))) = map_option
      (\<lambda>r. if jr_state r = StateRunning \<and> the (jr_lease_until r) < Millis (clk env 0)
         then r\<lparr>jr_state := StateQueued, jr_lease_until := None, jr_worker := [],
           jr_last_error := ''worker lease expired; job reclaimed'', jr_updated_at := Millis (clk env 0)\<rparr>
         else r) (job_by i (q_table q))"
  using reclaim_rows[OF assms, of i] by (simp add: prod_eq_iff)

lemma reclaim_exactly_expired_witness:
  "map_option jr_state (job_by ''j1'' (q_table (snd (reclaim False (calm (1000 * millisecond))
     (NewQueue [demo_running]))))) = Some StateQueued"
  using reclaim_exactly_expired[of "NewQueue [demo_running]" "calm (1000 * millisecond)" "''j1''"]
  by (simp add: queue_inv_New demo_inv demo_running_sel Millis_def)

text \<open>C34. The retry delay is at most the nominal delay of five seconds doubled with every attempt and
  capped at ten minutes, and more than three quarters of it; it is always positive and the
  shift never overflows 64 bits.\<close>

theorem backoff_bounds:
  "ExponentialBackoff a rnd \<le> min (5 * second * 2 ^ nat (max 0 (min (a - 1) 16))) (10 * minute) \<and>
   4 * ExponentialBackoff a rnd > 3 * min (5 * second * 2 ^ nat (max 0 (min (a - 1) 16))) (10 * minute) \<and>
   0 < ExponentialBackoff a rnd"
proof -
  let ?n = "min (5 * second * 2 ^ nat (max 0 (min (a - 1) 16))) (10 * minute)"
  have n: "backoff_delay a = ?n"
    by (cases "a \<le> 1") (simp_all add: backoff_delay_eq max_def)
  define quarter jitter where "quarter = backoff_delay a div 4" and "jitter = int rnd mod quarter"
  have "0 < quarter" "4 * quarter \<le> backoff_delay a"
    using backoff_delay_bounds[of a] div_mult_le4[of "backoff_delay a"]
    unfolding quarter_def by linarith+
  then have "jitter < quarter" "0 \<le> jitter" by (simp_all add: jitter_def)
  moreover have "ExponentialBackoff a rnd = backoff_delay a - jitter"
    by (simp add: ExponentialBackoff_def Let_def quarter_def jitter_def)
  ultimately have "ExponentialBackoff a rnd \<le> backoff_delay a \<and>
      4 * ExponentialBackoff a rnd > 3 * backoff_delay a \<and> 0 < ExponentialBackoff a rnd"
    using backoff_delay_bounds[of a] \<open>4 * quarter \<le> backoff_delay a\<close> by linarith
  then show ?thesis unfolding n by blast
qed

text \<open>Any progress value a handler reports, infinities and values outside 0 to 1 included, is
  accepted once clamped; only NaN is refused, by the column's constraint.\<close>

lemma Progress_accepts_all_but_NaN:
  assumes "queue_inv q" "flt env 0 = None" "job_by (job_id j) (q_table q) = Some r"
    "jr_state r = StateRunning"
  shows "fst (Progress env f m j q) = None \<longleftrightarrow> f \<noteq> NaN"
proof (cases "f = NaN")
  case True
  have r: "r \<in> set (q_table q)" "jr_id r = job_id j" using assms(3) by (auto dest: row_by_SomeD)
  let ?u = "\<lambda>x :: job_row. x\<lparr>jr_progress := NaN, jr_progress_note := m, jr_updated_at := Millis (clk env 0)\<rparr>"
  let ?t = "sql_update (\<lambda>r. jr_id r = job_id j \<and> jr_state r = StateRunning) ?u (q_table q)"
  have "?u r \<in> set ?t" using r assms(4) by (auto simp: set_sql_update)
  moreover have "row_violation (?u r) \<noteq> None" by (simp add: row_violation_def)
  ultimately have "\<not> jobs_ok ?t" by (rule bad_row_not_ok)
  then show ?thesis using True assms(2)
    by (cases rule: commit_cases[of ?t "q_table q" "()"])
      (simp_all add: Progress_def Let_def clamp_def go_min_def go_max_def UpdateJobProgress_def)
next
  case False
  have "float_le (Fin 0) (clamp f)" "float_le (clamp f) (Fin 1)"
    using False by (cases f; auto simp: clamp_def go_min_def go_max_def)+
  then show ?thesis using False assms
    by (simp add: Progress_def Let_def UpdateJobProgress_ok queue_invD(3))
qed

lemma Progress_accepts_all_but_NaN_witness:
  "fst (Progress (calm 0) PosInf [] (fromRow demo_running) (NewQueue [demo_running])) = None"
  using Progress_accepts_all_but_NaN[of "NewQueue [demo_running]" "calm 0" "fromRow demo_running" demo_running PosInf]
  by (simp add: queue_inv_New demo_inv demo_running_sel)

end
