(* ===== verification/JobSystem.thy ===== *)
theory JobSystem
  imports JobPool
begin

text \<open>
  The job subsystem as a whole: rounds of one worker over time, and the small-step system of
  several workers, callers of the queue, lease renewal, reclaiming, shutdown and process
  crashes over one shared queue. The queue's invariant is proved of the reachable states by rule
  induction, and \<open>execute\<close> is shown to be a sequence of small steps. \<open>JobLife\<close> goes on with what
  happens to each job.
\<close>

subsection \<open>What no operation of the pool changes\<close>

definition ident :: "job_row \<Rightarrow> string \<times> string \<times> int" where
  "ident r = (jr_id r, jr_kind r, jr_max_attempts r)"

abbreviation idents :: "queue \<Rightarrow> (string \<times> string \<times> int) list" where
  "idents q \<equiv> map ident (q_table q)"

lemma commit_ident:
  "(\<And>r. ident (f r) = ident r) \<Longrightarrow> map ident (snd (commit_jobs t (sql_update P f t) v)) = map ident t"
  by (cases rule: commit_cases[of "sql_update P f t" t v]) (auto simp: map_sql_update)

lemma stmt_ident:
  "map ident (snd (ClaimNextJob w l s u n t)) = map ident t"
  "map ident (snd (UpdateJobProgress p m u i t)) = map ident t"
  "map ident (snd (ExtendLease l u i t)) = map ident t"
  "map ident (snd (RecordJobUsage a b c u i t)) = map ident t"
  "map ident (snd (CompleteJob m fin u i t)) = map ident t"
  "map ident (snd (ReleaseJob ra u i t)) = map ident t"
  "map ident (snd (RetryJob e ra u i t)) = map ident t"
  "map ident (snd (FailJob e fin u i t)) = map ident t"
  "map ident (snd (CancelJob fin u i t)) = map ident t"
  "map ident (snd (ReclaimExpiredLeases u l t)) = map ident t"
  by (auto simp: ClaimNextJob_def UpdateJobProgress_def ExtendLease_def RecordJobUsage_def
      CompleteJob_def ReleaseJob_def RetryJob_def FailJob_def CancelJob_def
      ReclaimExpiredLeases_def Let_def ident_def claim_row_def intro!: commit_ident split: option.split)

lemma on_table_ident:
  "on_table f st q = (x, q') \<Longrightarrow> (\<And>t. map ident (snd (st t)) = map ident t) \<Longrightarrow> idents q' = idents q"
  by (cases f) auto

lemma claim_ident: "idents (snd (claim c env w p q)) = idents q"
  unfolding claim_def Let_def
  by (auto dest: on_table_ident[OF _ stmt_ident(1)] split: prod.splits sum.splits db_error.splits)

lemma Progress_ident: "idents (snd (snd (Progress env f m j q))) = idents q"
  unfolding Progress_def Let_def
  by (auto dest: on_table_ident[OF _ stmt_ident(2)] split: prod.splits sum.splits)

lemma Usage_ident: "idents (snd (snd (Usage env a b c j q))) = idents q"
  unfolding Usage_def Let_def
  by (auto dest: on_table_ident[OF _ stmt_ident(4)] split: prod.splits sum.splits)

lemma run_hprog_ident: "idents (snd (snd (run_hprog h envs n j q))) = idents q"
proof (induction h arbitrary: n j q)
  case (HProgress f m k)
  then show ?case using Progress_ident[of "envs n" f m j q] by (auto split: prod.split)
next
  case (HUsage a b c k)
  then show ?case using Usage_ident[of "envs n" a b c j q] by (auto split: prod.split)
qed simp

lemma settle_ident: "idents (snd (settle p c env rnd err j q)) = idents q"
  unfolding settle_def finishSucceeded_def finishFailed_def retry_def release_def Let_def
  by (auto dest: on_table_ident[OF _ stmt_ident(5)] on_table_ident[OF _ stmt_ident(6)]
      on_table_ident[OF _ stmt_ident(7)] on_table_ident[OF _ stmt_ident(8)]
      split: prod.splits sum.splits option.splits)

lemma execute_ident:
  assumes "handlerFor p (job_kind j) = Some h"
  shows "idents (snd (execute p c env envs rnd j q)) = idents q"
proof -
  obtain res j' q2 where r: "run_hprog (h j) envs 0 j (publish_job j q) = (res, j', q2)"
    by (metis prod_cases3)
  then have "idents q2 = idents q" using run_hprog_ident[of "h j" envs 0 j "publish_job j q"] by simp
  then show ?thesis by (simp add: execute_def assms Let_def r settle_ident)
qed

subsection \<open>A worker over time\<close>

text \<open>The \<open>n\<close>-th round of a worker starts at \<open>tm n\<close>; the database answers and nothing shuts down.\<close>

primrec rounds :: "pool \<Rightarrow> string \<Rightarrow> (nat \<Rightarrow> gotime) \<Rightarrow> (nat \<Rightarrow> nat) \<Rightarrow> nat \<Rightarrow> queue \<Rightarrow> queue" where
  "rounds p w tm rnd 0 q = q"
| "rounds p w tm rnd (Suc n) q =
     snd (worker_round p False False (calm (tm n)) (calm (tm n)) (\<lambda>_. calm (tm n)) (rnd n) w
       (rounds p w tm rnd n q))"

lemma rounds_inv: "queue_inv q \<Longrightarrow> queue_inv (rounds p w tm rnd n q)"
  by (induction n) (auto intro: worker_round_inv)

definition always_fails :: "(job \<Rightarrow> hprog) \<Rightarrow> bool" where
  "always_fails h \<longleftrightarrow> (\<forall>j envs n j0 q. runHandler (fst (run_hprog (h j) envs n j0 q)) \<noteq> None)"

lemma round_of_failing_job:
  assumes inv: "queue_inv q" and tab: "q_table q = [r]" and due: "runnable (Millis t) r"
    and room: "jr_attempts r < 2 ^ 63 - 1"
    and h: "handlerFor p (jr_kind r) = Some h" "always_fails h"
    and b: "pl_backoff p = ExponentialBackoff"
  shows "\<exists>r'. q_table (snd (worker_round p False False (calm t) (calm t) (\<lambda>_. calm t) rnd w q)) = [r'] \<and>
    ident r' = ident r \<and> jr_attempts r' = jr_attempts r + 1 \<and>
    (if jr_attempts r + 1 \<ge> jr_max_attempts r then jr_state r' = StateFailed
     else jr_state r' = StateQueued \<and> jr_run_after r' \<le> Millis (t + 10 * minute))"
proof -
  have ar: "attempts_room (q_table q)" using tab room by (simp add: attempts_room_def)
  obtain r1 q1 where c: "claim False (calm t) w p q = (Inr (Some (fromRow r1)), q1)"
    and r1: "r1 = claim_row w (Some (Millis (t + pl_lease p))) (Some (Millis t)) (Millis t) r"
    and q1: "q_table q1 = [r1]"
    by (rule claim_cases[OF inv ar calm_sel(2)[of t 0], where w = w and p = p])
      (use tab due in \<open>auto simp: sql_update_def\<close>)
  have inv1: "queue_inv q1" using claim_inv[OF inv, of False "calm t" w p] c by simp
  let ?q2 = "snd (execute p False (calm t) (\<lambda>_. calm t) rnd (fromRow r1) q1)"
  have h1: "handlerFor p (job_kind (fromRow r1)) = Some h" using h r1 by simp
  obtain e where e: "runHandler (fst (run_hprog (h (fromRow r1)) (\<lambda>_. calm t) 0 (fromRow r1)
      (publish_job (fromRow r1) q1))) = Some e"
    using h(2) unfolding always_fails_def by blast
  obtain r' where r': "job_by (jr_id r) (q_table ?q2) = Some r'" "settled p False (calm t) rnd (Some e) r1 r'"
    using execute_outcome[OF inv1, of "fromRow r1" r1 "calm t" p h False "\<lambda>_. calm t" rnd] q1 r1 h1 e by auto
  have "idents ?q2 = [ident r1]" using execute_ident[OF h1] q1 by simp
  then obtain r2 where r2: "q_table ?q2 = [r2]" "ident r2 = ident r1" by auto
  have "r2 = r'" using r'(1) r2 r1 by (simp add: ident_def split: if_splits)
  moreover have "ident r1 = ident r" using r1 by (simp add: ident_def)
  moreover have "Millis (t + ExponentialBackoff (jr_attempts r + 1) rnd) \<le> Millis (t + 10 * minute)"
    using ExponentialBackoff_le by (intro Millis_mono) simp
  ultimately show ?thesis using c r2 r'(2) r1 b
    by (intro exI[of _ r2]) (auto simp: worker_round_def settled_def ident_def)
qed

lemma rounds_of_failing_job:
  assumes "queue_inv q" "q_table q = [r]" "jr_state r = StateQueued" "jr_attempts r = 0"
    "1 \<le> jr_max_attempts r" "jr_max_attempts r < 2 ^ 63" "jr_run_after r \<le> Millis (tm 0)"
    "\<And>n. tm n + 10 * minute \<le> tm (Suc n)"
    "handlerFor p (jr_kind r) = Some h" "always_fails h" "pl_backoff p = ExponentialBackoff"
  shows "\<exists>r'. q_table (rounds p w tm rnd n q) = [r'] \<and> ident r' = ident r \<and>
    (if int n < jr_max_attempts r
     then jr_state r' = StateQueued \<and> jr_attempts r' = int n \<and> jr_run_after r' \<le> Millis (tm n)
     else jr_state r' = StateFailed \<and> jr_attempts r' = jr_max_attempts r)"
proof (induction n)
  case 0
  then show ?case using assms by simp
next
  case (Suc n)
  then obtain r' where r': "q_table (rounds p w tm rnd n q) = [r']" "ident r' = ident r"
    "if int n < jr_max_attempts r
     then jr_state r' = StateQueued \<and> jr_attempts r' = int n \<and> jr_run_after r' \<le> Millis (tm n)
     else jr_state r' = StateFailed \<and> jr_attempts r' = jr_max_attempts r" by blast
  let ?q = "rounds p w tm rnd n q"
  have inv: "queue_inv ?q" using assms(1) by (rule rounds_inv)
  show ?case
  proof (cases "int n < jr_max_attempts r")
    case True
    then have due: "runnable (Millis (tm n)) r'" and room: "jr_attempts r' < 2 ^ 63 - 1"
      using r' assms(6) by (auto simp: runnable_def)
    have h: "handlerFor p (jr_kind r') = Some h" using r'(2) assms(9) by (simp add: ident_def)
    obtain r2 where "q_table (rounds p w tm rnd (Suc n) q) = [r2]" "ident r2 = ident r'"
      "jr_attempts r2 = jr_attempts r' + 1"
      "if jr_attempts r' + 1 \<ge> jr_max_attempts r' then jr_state r2 = StateFailed
       else jr_state r2 = StateQueued \<and> jr_run_after r2 \<le> Millis (tm n + 10 * minute)"
      using round_of_failing_job[OF inv r'(1) due room h assms(10,11), of "rnd n" w] by auto
    moreover have "Millis (tm n + 10 * minute) \<le> Millis (tm (Suc n))" by (intro Millis_mono assms(8))
    ultimately show ?thesis using r' True by (auto simp: ident_def split: if_splits)
  next
    case False
    then have "\<not> runnable (Millis (tm n)) r'" using r'(3) by (simp add: runnable_def)
    then have "claim False (calm (tm n)) w p ?q = (Inr None, ?q)"
      using r'(1) by (simp add: claim_def Let_def ClaimNextJob_def next_runnable_def)
    then have "rounds p w tm rnd (Suc n) q = ?q" by (simp add: worker_round_def)
    then show ?thesis using r' False by auto
  qed
qed

text \<open>C14. A job that is alone in the table and whose handler fails every time is run by one worker
  exactly as often as its maximum number of attempts, when no statement fails, nothing shuts down,
  the backoff is the exponential one and the worker's rounds are at least ten minutes apart: after
  fewer rounds it is queued again with one attempt per round charged, after that it has failed for
  good and no further round runs it.\<close>

theorem failing_job_runs_max_attempts_times:
  assumes "queue_inv q" "q_table q = [r]" "jr_state r = StateQueued" "jr_attempts r = 0"
    "1 \<le> jr_max_attempts r" "jr_max_attempts r < 2 ^ 63" "jr_run_after r \<le> Millis (tm 0)"
    "\<And>n. tm n + 10 * minute \<le> tm (Suc n)"
    "handlerFor p (jr_kind r) = Some h" "always_fails h" "pl_backoff p = ExponentialBackoff"
  shows "\<exists>r'. q_table (rounds p w tm rnd n q) = [r'] \<and>
    jr_attempts r' = min (int n) (jr_max_attempts r) \<and>
    jr_state r' = (if int n < jr_max_attempts r then StateQueued else StateFailed)"
  using rounds_of_failing_job[OF assms, of w rnd n] by (auto simp: min_def split: if_splits)

lemma failing_job_runs_max_attempts_times_witness:
  "\<exists>r'. q_table (rounds (demo_pool (Panicked ''boom'')) ''worker-0'' (\<lambda>n. int n * (10 * minute)) (\<lambda>_. 0) 5
     (NewQueue [demo_row])) = [r'] \<and> jr_attempts r' = 3 \<and> jr_state r' = StateFailed"
proof -
  have "\<exists>r'. q_table (rounds (demo_pool (Panicked ''boom'')) ''worker-0'' (\<lambda>n. int n * (10 * minute)) (\<lambda>_. 0) 5
      (NewQueue [demo_row])) = [r'] \<and>
    jr_attempts r' = min (int 5) (jr_max_attempts demo_row) \<and>
    jr_state r' = (if int 5 < jr_max_attempts demo_row then StateQueued else StateFailed)"
    by (rule failing_job_runs_max_attempts_times[where h = "\<lambda>_. HDone (Panicked ''boom'')"])
      (simp_all add: queue_inv_New demo_inv demo_sel Millis_def always_fails_def runHandler_def)
  then show ?thesis by (simp add: demo_sel)
qed

text \<open>
  A job that kills its worker: it is claimed, the worker dies without recording anything, and
  the job is reclaimed after its lease has run out. Neither statement compares the attempts with
  the maximum.
\<close>

primrec crash_cycles :: "pool \<Rightarrow> string \<Rightarrow> (nat \<Rightarrow> gotime) \<Rightarrow> nat \<Rightarrow> queue \<Rightarrow> queue" where
  "crash_cycles p w tm 0 q = q"
| "crash_cycles p w tm (Suc n) q =
     snd (reclaim False (calm (tm n + pl_lease p + millisecond))
       (snd (claim False (calm (tm n)) w p (crash_cycles p w tm n q))))"

text \<open>C36. A job that kills its worker every time is never failed: after any number of crashes it is
  back in the queue, its attempts far beyond its maximum.\<close>

theorem crashing_job_never_fails:
  assumes "queue_inv q" "q_table q = [r]" "jr_state r = StateQueued" "jr_attempts r = 0"
    "jr_run_after r \<le> Millis (tm 0)" "\<And>n. tm n \<le> tm (Suc n)" "n < 2 ^ 63 - 1"
  shows "\<exists>r'. q_table (crash_cycles p w tm n q) = [r'] \<and> jr_state r' = StateQueued \<and>
    jr_attempts r' = int n \<and> jr_max_attempts r' = jr_max_attempts r \<and> jr_run_after r' = jr_run_after r"
  using assms(7)
proof (induction n)
  case 0
  then show ?case using assms by simp
next
  case (Suc n)
  let ?q = "crash_cycles p w tm n q"
  obtain r' where r': "q_table ?q = [r']" "jr_state r' = StateQueued" "jr_attempts r' = int n"
      "jr_max_attempts r' = jr_max_attempts r" "jr_run_after r' = jr_run_after r"
    using Suc by auto
  have inv: "queue_inv ?q" by (induction n) (simp_all add: assms(1) claim_inv reclaim_inv)
  have "tm 0 \<le> tm n" by (induction n) (use assms(6) order_trans in auto)
  then have due: "runnable (Millis (tm n)) r'"
    using r' assms(5) Millis_mono[of "tm 0" "tm n"] by (simp add: runnable_def)
  have room: "attempts_room (q_table ?q)" using r' Suc.prems by (simp add: attempts_room_def)
  obtain r1 q1 where c: "claim False (calm (tm n)) w p ?q = (Inr (Some (fromRow r1)), q1)"
    and r1: "r1 = claim_row w (Some (Millis (tm n + pl_lease p))) (Some (Millis (tm n))) (Millis (tm n)) r'"
    and q1: "q_table q1 = [r1]"
    by (rule claim_cases[OF inv room calm_sel(2)[of "tm n" 0], where w = w and p = p])
      (use r' due in \<open>auto simp: sql_update_def\<close>)
  have ok1: "jobs_ok (q_table q1)" using claim_inv[OF inv, of False "calm (tm n)" w p] c by auto
  have late: "Millis (tm n + pl_lease p) < Millis (tm n + pl_lease p + millisecond)"
    using Millis_add_ms[of "tm n + pl_lease p" 1] by simp
  have "jr_state r1 = StateRunning" "jr_lease_until r1 = Some (Millis (tm n + pl_lease p))"
    "jr_attempts r1 = int (Suc n)" "jr_max_attempts r1 = jr_max_attempts r" "jr_run_after r1 = jr_run_after r"
    using r1 r' by (simp_all add: claim_row_def)
  then show ?case
    using c q1 late ReclaimExpiredLeases_ok[OF ok1]
    by (simp add: reclaim_def Let_def sql_update_def lease_expired_def)
qed

lemma crashing_job_never_fails_witness:
  "\<exists>r'. q_table (crash_cycles (demo_pool (Returned None)) ''worker-0'' (\<lambda>n. 0) 100 (NewQueue [demo_row])) = [r'] \<and>
     jr_state r' = StateQueued \<and> jr_attempts r' = 100 \<and> jr_max_attempts r' = 3"
proof -
  have "\<exists>r'. q_table (crash_cycles (demo_pool (Returned None)) ''worker-0'' (\<lambda>n. 0) 100 (NewQueue [demo_row])) = [r'] \<and>
     jr_state r' = StateQueued \<and> jr_attempts r' = int 100 \<and> jr_max_attempts r' = jr_max_attempts demo_row \<and>
     jr_run_after r' = jr_run_after demo_row"
    by (rule crashing_job_never_fails) (simp_all add: queue_inv_New demo_inv demo_sel Millis_def)
  then show ?thesis by (auto simp: demo_sel)
qed

subsection \<open>The small-step system\<close>

text \<open>
  The state of the running process: the queue, the job and the rest of the handler each busy
  worker holds, \<open>None\<close> when the pool has no handler for the job's kind, and whether the pool's
  context is cancelled. \<open>sy_issued\<close> is a ghost: the ids handed out so far, none of which
  \<open>id.New\<close> generates again. Workers interleave with the callers of the queue at the granularity
  of one statement, and each step chooses its own clock readings and statement failures.
\<close>

record sys =
  sy_queue :: queue
  sy_busy :: "string \<rightharpoonup> job \<times> hprog option"
  sy_down :: bool
  sy_issued :: "string set"

definition sys_init :: sys where
  "sys_init = \<lparr>sy_queue = NewQueue [], sy_busy = Map.empty, sy_down = False, sy_issued = {}\<rparr>"

text \<open>
  Labels tell apart the steps in which the reclaimer takes back jobs that no worker runs any more,
  those in which it takes away a job that a worker still runs, because the lease was not renewed in
  time, and those in which the process dies.
\<close>

datatype label = Regular | Reclaims | Crashes | Expires

definition held_in_time :: "millis \<Rightarrow> sys \<Rightarrow> bool" where
  "held_in_time now s \<longleftrightarrow> (\<forall>w j h r. sy_busy s w = Some (j, h) \<longrightarrow>
     job_by (job_id j) (q_table (sy_queue s)) = Some r \<longrightarrow> \<not> lease_expired (Some now) r)"

inductive sys_step :: "pool \<Rightarrow> label \<Rightarrow> sys \<Rightarrow> sys \<Rightarrow> bool" for p where
  enqueue: "fresh \<notin> sy_issued s \<Longrightarrow> sys_step p Regular s
     (s\<lparr>sy_queue := snd (Enqueue env fresh kind pl opts (sy_queue s)),
        sy_issued := insert fresh (sy_issued s)\<rparr>)"
| cancel: "sys_step p Regular s (s\<lparr>sy_queue := snd (Cancel env i (sy_queue s))\<rparr>)"
| purge: "sys_step p Regular s (s\<lparr>sy_queue := snd (PurgeFinishedBefore f cutoff (sy_queue s))\<rparr>)"
| start: "sy_busy s w = None \<Longrightarrow>
     claim (sy_down s) env w p (sy_queue s) = (Inr (Some j), q') \<Longrightarrow>
     handlerFor p (job_kind j) = Some h \<Longrightarrow>
     sys_step p Regular s (s\<lparr>sy_queue := publish_job j q', sy_busy := (sy_busy s)(w \<mapsto> (j, Some (h j)))\<rparr>)"
| unknown: "sy_busy s w = None \<Longrightarrow>
     claim (sy_down s) env w p (sy_queue s) = (Inr (Some j), q') \<Longrightarrow>
     handlerFor p (job_kind j) = None \<Longrightarrow>
     sys_step p Regular s (s\<lparr>sy_queue := q', sy_busy := (sy_busy s)(w \<mapsto> (j, None))\<rparr>)"
| nohandler: "sy_busy s w = Some (j, None) \<Longrightarrow>
     sys_step p Regular s
       (s\<lparr>sy_queue := snd (finishFailed (sy_down s) env (no_handler_text (job_kind j)) j (sy_queue s)),
          sy_busy := (sy_busy s)(w := None)\<rparr>)"
| idle: "sy_busy s w = None \<Longrightarrow> claim (sy_down s) env w p (sy_queue s) = (x, q') \<Longrightarrow>
     \<nexists>j. x = Inr (Some j) \<Longrightarrow> sys_step p Regular s (s\<lparr>sy_queue := q'\<rparr>)"
| report: "sy_busy s w = Some (j, Some (HProgress f m k)) \<Longrightarrow>
     Progress env f m j (sy_queue s) = (e, j', q') \<Longrightarrow>
     sys_step p Regular s (s\<lparr>sy_queue := q', sy_busy := (sy_busy s)(w \<mapsto> (j', Some (k (e \<noteq> None))))\<rparr>)"
| usage: "sy_busy s w = Some (j, Some (HUsage a b c k)) \<Longrightarrow>
     Usage env a b c j (sy_queue s) = (e, j', q') \<Longrightarrow>
     sys_step p Regular s (s\<lparr>sy_queue := q', sy_busy := (sy_busy s)(w \<mapsto> (j', Some (k (e \<noteq> None))))\<rparr>)"
| finish: "sy_busy s w = Some (j, Some (HDone res)) \<Longrightarrow>
     settle p (sy_down s) env rnd (runHandler res) j (sy_queue s) = (j', q') \<Longrightarrow>
     sys_step p Regular s (s\<lparr>sy_queue := q', sy_busy := (sy_busy s)(w := None)\<rparr>)"
| renew: "sy_busy s w = Some (j, Some h) \<Longrightarrow>
     sys_step p Regular s (s\<lparr>sy_queue := renew_tick (sy_down s) env p (job_id j) (sy_queue s)\<rparr>)"
| shutdown: "sys_step p Regular s (s\<lparr>sy_down := True\<rparr>)"
| subscribe: "Subscribe (q_bus (sy_queue s)) = (x, b) \<Longrightarrow>
     sys_step p Regular s (s\<lparr>sy_queue := (sy_queue s)\<lparr>q_bus := b\<rparr>\<rparr>)"
| unsubscribe: "sys_step p Regular s
     (s\<lparr>sy_queue := (sy_queue s)\<lparr>q_bus := Unsubscribe x (q_bus (sy_queue s))\<rparr>\<rparr>)"
| take: "sys_step p Regular s
     (s\<lparr>sy_queue := (sy_queue s)\<lparr>q_bus := snd (receive ch (q_bus (sy_queue s)))\<rparr>\<rparr>)"
| close: "sys_step p Regular s
     (s\<lparr>sy_queue := (sy_queue s)\<lparr>q_bus := Close (q_bus (sy_queue s))\<rparr>\<rparr>)"
| reclaim_abandoned: "held_in_time (Millis (clk env 0)) s \<Longrightarrow>
     sys_step p Reclaims s (s\<lparr>sy_queue := snd (reclaim (sy_down s) env (sy_queue s))\<rparr>)"
| reclaim_expired: "sys_step p Expires s (s\<lparr>sy_queue := snd (reclaim (sy_down s) env (sy_queue s))\<rparr>)"
| crash: "sys_step p Crashes s
     (s\<lparr>sy_queue := NewQueue (q_table (sy_queue s)), sy_busy := Map.empty, sy_down := False\<rparr>)"

inductive_cases crash_stepE: "sys_step p Crashes s s'"

inductive reach :: "pool \<Rightarrow> label set \<Rightarrow> sys \<Rightarrow> bool" for p L where
  init: "reach p L sys_init"
| step: "reach p L s \<Longrightarrow> l \<in> L \<Longrightarrow> sys_step p l s s' \<Longrightarrow> reach p L s'"

lemma sys_step_inv:
  assumes "sys_step p l s s'" "queue_inv (sy_queue s)"
  shows "queue_inv (sy_queue s')"
  using assms
proof cases
  case (start w env j q' h)
  then show ?thesis
    using claim_inv[OF assms(2), of "sy_down s" env w p] by (auto intro: publish_job_inv)
next
  case (unknown w env j q')
  then show ?thesis using claim_inv[OF assms(2), of "sy_down s" env w p] by auto
next
  case (idle w env x q')
  then show ?thesis using claim_inv[OF assms(2), of "sy_down s" env w p] by auto
next
  case (report w j f m k env e j' q')
  then show ?thesis using Progress_inv[OF assms(2), of env f m j] by auto
next
  case (usage w j a b c k env e j' q')
  then show ?thesis using Usage_inv[OF assms(2), of env a b c j] by auto
next
  case (finish w j res env rnd j' q')
  then show ?thesis using settle_inv[OF assms(2), of p "sy_down s" env rnd "runHandler res" j] by auto
next
  case (subscribe x b)
  then show ?thesis using Subscribe_inv[of "q_bus (sy_queue s)"] assms(2) by (auto intro: queue_inv_bus)
qed (auto intro: Enqueue_inv Cancel_inv PurgeFinishedBefore_inv renew_tick_inv reclaim_inv finishFailed_inv
    queue_inv_bus queue_inv_New Unsubscribe_inv receive_inv Close_inv)

text \<open>In every state the process can reach, through any interleaving of its workers with
  callers, cancellations, lease expiry, shutdown and crashes, the jobs table and the event broker
  satisfy their invariants: a lease is held exactly while a job runs, finished jobs have a finish
  time, at most one pending job holds a dedupe key, and no channel operation has panicked.\<close>

lemma reachable_queue_inv:
  assumes "reach p L s"
  shows "queue_inv (sy_queue s)"
  using assms
proof induction
  case init
  then show ?case by (simp add: sys_init_def queue_inv_New)
next
  case (step s l s')
  then show ?case by (blast intro: sys_step_inv)
qed

subsection \<open>A worker's round is a sequence of small steps\<close>

abbreviation steps :: "pool \<Rightarrow> sys \<Rightarrow> sys \<Rightarrow> bool" where
  "steps p \<equiv> (sys_step p Regular)\<^sup>*\<^sup>*"

lemma run_steps:
  assumes "sy_busy s w = Some (j, Some h)" "run_hprog h envs n j (sy_queue s) = (res, j', q')"
  shows "steps p s (s\<lparr>sy_queue := q', sy_busy := (sy_busy s)(w \<mapsto> (j', Some (HDone res)))\<rparr>)"
  using assms
proof (induction h arbitrary: s n j)
  case (HDone r)
  then show ?case by (cases s) (auto simp: fun_upd_idem)
next
  case (HProgress f m k)
  obtain e j1 q1 where pr: "Progress (envs n) f m j (sy_queue s) = (e, j1, q1)" by (metis prod_cases3)
  let ?s = "s\<lparr>sy_queue := q1, sy_busy := (sy_busy s)(w \<mapsto> (j1, Some (k (e \<noteq> None))))\<rparr>"
  have "sys_step p Regular s ?s" using HProgress.prems(1) pr by (rule sys_step.report)
  moreover have "steps p ?s (?s\<lparr>sy_queue := q', sy_busy := (sy_busy ?s)(w \<mapsto> (j', Some (HDone res)))\<rparr>)"
    using HProgress.prems(2) pr by (intro HProgress.IH[of _ _ j1 "Suc n"]) auto
  moreover have "?s\<lparr>sy_queue := q', sy_busy := (sy_busy ?s)(w \<mapsto> (j', Some (HDone res)))\<rparr> =
      s\<lparr>sy_queue := q', sy_busy := (sy_busy s)(w \<mapsto> (j', Some (HDone res)))\<rparr>" by simp
  ultimately show ?case by (metis converse_rtranclp_into_rtranclp)
next
  case (HUsage a b c k)
  obtain e j1 q1 where us: "Usage (envs n) a b c j (sy_queue s) = (e, j1, q1)" by (metis prod_cases3)
  let ?s = "s\<lparr>sy_queue := q1, sy_busy := (sy_busy s)(w \<mapsto> (j1, Some (k (e \<noteq> None))))\<rparr>"
  have "sys_step p Regular s ?s" using HUsage.prems(1) us by (rule sys_step.usage)
  moreover have "steps p ?s (?s\<lparr>sy_queue := q', sy_busy := (sy_busy ?s)(w \<mapsto> (j', Some (HDone res)))\<rparr>)"
    using HUsage.prems(2) us by (intro HUsage.IH[of _ _ j1 "Suc n"]) auto
  moreover have "?s\<lparr>sy_queue := q', sy_busy := (sy_busy ?s)(w \<mapsto> (j', Some (HDone res)))\<rparr> =
      s\<lparr>sy_queue := q', sy_busy := (sy_busy s)(w \<mapsto> (j', Some (HDone res)))\<rparr>" by simp
  ultimately show ?case by (metis converse_rtranclp_into_rtranclp)
qed

lemma down_step: "steps p s (s\<lparr>sy_down := sy_down s \<or> c\<rparr>)"
  by (cases c) (auto intro: sys_step.shutdown)

lemma execute_steps:
  assumes w: "sy_busy s w = None" and d: "\<not> sy_down s"
    and c: "claim False env w p (sy_queue s) = (Inr (Some j), q1)" and h: "handlerFor p (job_kind j) = Some h"
  shows "steps p s (s\<lparr>sy_queue := snd (execute p b env2 envs rnd j q1), sy_down := b\<rparr>)"
proof -
  obtain res j' q2 where r: "run_hprog (h j) envs 0 j (publish_job j q1) = (res, j', q2)"
    by (metis prod_cases3)
  obtain j3 q3 where f: "settle p b env2 rnd (runHandler res) j' q2 = (j3, q3)" by fastforce
  let ?s1 = "s\<lparr>sy_queue := publish_job j q1, sy_busy := (sy_busy s)(w \<mapsto> (j, Some (h j)))\<rparr>"
  let ?s2 = "?s1\<lparr>sy_queue := q2, sy_busy := (sy_busy ?s1)(w \<mapsto> (j', Some (HDone res)))\<rparr>"
  let ?s3 = "?s2\<lparr>sy_down := b\<rparr>"
  have 1: "steps p s ?s1" using w c d h by (intro r_into_rtranclp sys_step.start) simp_all
  have 2: "steps p ?s1 ?s2" using r by (intro run_steps[of _ _ j "h j"]) simp_all
  have 3: "steps p ?s2 ?s3" using down_step[of p ?s2 b] d by simp
  have 4: "steps p ?s3 (?s3\<lparr>sy_queue := q3, sy_busy := (sy_busy ?s3)(w := None)\<rparr>)"
    using f by (intro r_into_rtranclp sys_step.finish[of _ _ j' res]) simp_all
  have 5: "?s3\<lparr>sy_queue := q3, sy_busy := (sy_busy ?s3)(w := None)\<rparr> =
      s\<lparr>sy_queue := snd (execute p b env2 envs rnd j q1), sy_down := b\<rparr>"
    using w by (simp add: execute_def h Let_def r f fun_upd_idem)
  show ?thesis
    using rtranclp_trans[OF rtranclp_trans[OF rtranclp_trans[OF 1 2] 3] 4] unfolding 5 .
qed

text \<open>C33. The worker loop's round, in which the code claims a job and runs it to its end in one
  piece, is a run of the small-step system, so what is proved of all interleavings of small
  steps holds of the code's rounds, the shutdown that arrives in the middle included.\<close>

theorem worker_round_is_steps:
  assumes "sy_busy s w = None" "\<not> sy_down s"
  shows "steps p s (s\<lparr>sy_queue := snd (worker_round p False b env env2 envs rnd w (sy_queue s)), sy_down := b\<rparr>)"
proof -
  obtain x q1 where c: "claim False env w p (sy_queue s) = (x, q1)" by fastforce
  show ?thesis
  proof (cases "\<exists>j. x = Inr (Some j)")
    case True
    then obtain j where j: "x = Inr (Some j)" ..
    show ?thesis
    proof (cases "handlerFor p (job_kind j)")
      case None
      let ?s1 = "s\<lparr>sy_queue := q1, sy_busy := (sy_busy s)(w \<mapsto> (j, None))\<rparr>"
      let ?s2 = "?s1\<lparr>sy_down := b\<rparr>"
      let ?s3 = "?s2\<lparr>sy_queue := snd (finishFailed b env2 (no_handler_text (job_kind j)) j q1),
        sy_busy := (sy_busy ?s2)(w := None)\<rparr>"
      have 1: "steps p s ?s1" using None assms c j by (intro r_into_rtranclp sys_step.unknown) simp_all
      have 2: "steps p ?s1 ?s2" using down_step[of p ?s1 b] assms(2) by simp
      have 3: "steps p ?s2 ?s3" using sys_step.nohandler[of ?s2 w j p env2] by (simp add: r_into_rtranclp)
      have 4: "?s3 = s\<lparr>sy_queue := snd (worker_round p False b env env2 envs rnd w (sy_queue s)), sy_down := b\<rparr>"
        using assms(1) c j None by (simp add: worker_round_def execute_def fun_upd_idem)
      show ?thesis using rtranclp_trans[OF rtranclp_trans[OF 1 2] 3] unfolding 4 .
    next
      case (Some h)
      then show ?thesis
        using execute_steps[OF assms _ Some] c j by (simp add: worker_round_def)
    qed
  next
    case False
    then have "sys_step p Regular s (s\<lparr>sy_queue := q1\<rparr>)"
      using assms c by (intro sys_step.idle[of _ w]) simp_all
    moreover have "steps p (s\<lparr>sy_queue := q1\<rparr>) (s\<lparr>sy_queue := q1, sy_down := b\<rparr>)"
      using down_step[of p "s\<lparr>sy_queue := q1\<rparr>" b] assms(2) by simp
    moreover have "snd (worker_round p False b env env2 envs rnd w (sy_queue s)) = q1"
      using c False by (auto simp: worker_round_def split: sum.split option.split)
    ultimately show ?thesis by (simp add: converse_rtranclp_into_rtranclp)
  qed
qed

lemma worker_round_is_steps_witness:
  "steps (demo_pool (Returned None)) sys_init (sys_init\<lparr>sy_queue := snd (worker_round (demo_pool (Returned None))
     False True (calm 0) (calm 0) (\<lambda>_. calm 0) 0 ''worker-0'' (sy_queue sys_init)), sy_down := True\<rparr>)"
  by (rule worker_round_is_steps) (simp_all add: sys_init_def)

text \<open>The goroutines that renew and reclaim leases are runs of the system too.\<close>

lemma renewLease_steps:
  assumes "sy_busy s w = Some (j, Some h)" "\<not> sy_down s"
  shows "steps p s (s\<lparr>sy_queue := renewLease p ws (job_id j) (sy_queue s)\<rparr>)"
  using assms
proof (induction p ws "job_id j" "sy_queue s" arbitrary: s rule: renewLease.induct)
  case (3 p env ws)
  let ?s = "s\<lparr>sy_queue := renew_tick False env p (job_id j) (sy_queue s)\<rparr>"
  have "sys_step p Regular s ?s" using sys_step.renew[of s w j h p env] 3(2,3) by simp
  moreover have "steps p ?s (?s\<lparr>sy_queue := renewLease p ws (job_id j) (sy_queue ?s)\<rparr>)"
    using 3(1)[of ?s] 3(2,3) by simp
  ultimately show ?case by (simp add: converse_rtranclp_into_rtranclp)
qed simp_all

lemma reclaimLoop_reach:
  assumes "reach p UNIV s" "\<not> sy_down s"
  shows "reach p UNIV (s\<lparr>sy_queue := reclaimLoop ws (sy_queue s)\<rparr>)"
  using assms
proof (induction ws "sy_queue s" arbitrary: s rule: reclaimLoop.induct)
  case (3 env ws)
  let ?s = "s\<lparr>sy_queue := snd (reclaim False env (sy_queue s))\<rparr>"
  have "reach p UNIV ?s" using reach.step[OF 3(2) _ sys_step.reclaim_expired[of p s env]] 3(3) by simp
  then show ?case using 3(1)[of ?s] 3(3) by simp
qed simp_all

subsection \<open>Recovering from a crash\<close>

text \<open>
  Whatever was running when the process died is queued again by the first reclaim after the last
  lease has run out, with the attempt it had begun counted; nothing else changes.
\<close>

lemma crash_then_reclaim:
  assumes inv: "queue_inv (sy_queue s)" and crash: "sys_step p Crashes s s1"
    and env: "flt env 0 = None"
    and late: "\<And>r u. r \<in> set (q_table (sy_queue s)) \<Longrightarrow> jr_lease_until r = Some u \<Longrightarrow> u < Millis (clk env 0)"
    and r: "job_by i (q_table (sy_queue s)) = Some r"
  shows "sy_busy s1 = Map.empty \<and>
    (\<exists>r'. job_by i (q_table (snd (reclaim False env (sy_queue s1)))) = Some r' \<and>
      jr_attempts r' = jr_attempts r \<and>
      jr_state r' = (if jr_state r = StateRunning then StateQueued else jr_state r))"
proof -
  have q: "q_table (sy_queue s1) = q_table (sy_queue s)" and b: "sy_busy s1 = Map.empty"
    using crash by (elim crash_stepE; simp)+
  have inv1: "queue_inv (sy_queue s1)" using sys_step_inv[OF crash inv] .
  have "the (jr_lease_until r) < Millis (clk env 0)" if "jr_state r = StateRunning"
    using that inv late r by (auto simp: queue_inv_def jobs_inv_def row_inv_def dest!: row_by_SomeD)
  then show ?thesis
    using reclaim_rows[OF inv1 env, of i] r q b by simp
qed

subsection \<open>Cancelling a running job\<close>

text \<open>C35. Cancelling a running job does not stop its worker: a progress report on the cancelled job
  succeeds without effect on its row, and when the handler returns, the statement that records
  success or a retry does not look at the state, so the cancelled job ends up succeeded or back
  in the queue.\<close>

theorem cancelled_job_is_overwritten:
  assumes inv: "queue_inv q" and r: "job_by (job_id j) (q_table q) = Some r" "jr_state r = StateRunning"
    and key: "jr_dedupe_key r = None"
    and calm: "flt env 0 = None" "flt env1 0 = None" "flt env2 0 = None" and f: "f \<noteq> NaN"
    and q1: "q1 = snd (Cancel env (job_id j) q)"
  shows "map_option jr_state (job_by (job_id j) (q_table q1)) = Some StateCancelled \<and>
    fst (Progress env1 f m j q1) = None \<and>
    job_by (job_id j) (q_table (snd (snd (Progress env1 f m j q1)))) = job_by (job_id j) (q_table q1) \<and>
    map_option jr_state (job_by (job_id j) (q_table (snd (finishSucceeded False env2 j q1)))) =
      Some StateSucceeded \<and>
    map_option jr_state (job_by (job_id j) (q_table (snd (retry False env2 e d j q1)))) = Some StateQueued"
proof -
  let ?c = "\<lambda>r. r\<lparr>jr_state := StateCancelled, jr_lease_until := None, jr_worker := [],
      jr_finished_at := Some (Millis (clk env 0)), jr_updated_at := Millis (clk env 0)\<rparr>"
  have ok: "jobs_ok (q_table q)" using inv by auto
  have t1: "q_table q1 = sql_update (\<lambda>r. jr_id r = job_id j \<and> pending r) ?c (q_table q)"
    using calm(1) unfolding q1 Cancel_def Let_def
    by (auto simp: CancelJob_ok[OF ok] split: sum.split)
  have inv1: "queue_inv q1" unfolding q1 by (rule Cancel_inv[OF inv])
  then have ok1: "jobs_ok (q_table q1)" by auto
  have row1: "job_by (job_id j) (q_table q1) = Some (?c r)"
    unfolding t1 using r jobs.row_after_update[where Q = pending and f = ?c and t = "q_table q"
        and k = "job_id j" and k' = "job_id j"] by (simp add: pending_def)
  have fl: "float_le (Fin 0) (clamp f)" "float_le (clamp f) (Fin 1)"
    using f by (cases f; auto simp: clamp_def go_min_def go_max_def)+
  have re: "jobs_ok (sql_update (\<lambda>r. jr_id r = job_id j) (\<lambda>r. r\<lparr>jr_state := StateQueued,
      jr_last_error := e, jr_run_after := ra, jr_lease_until := None, jr_worker := [],
      jr_updated_at := u\<rparr>) (q_table q1))" for ra u
  proof (rule update_ok[OF ok1])
    fix x assume "x \<in> set (q_table q1)" "jr_id x = job_id j"
    then have "x = ?c r" using jobs.row_of_mem[OF ok1, of x] row1 by simp
    with key show "pending_key (x\<lparr>jr_state := StateQueued, jr_last_error := e, jr_run_after := ra,
        jr_lease_until := None, jr_worker := [], jr_updated_at := u\<rparr>) \<in> {None, pending_key x}"
      by (simp add: pending_key_def)
  qed (simp_all add: row_violation_def split: if_splits)
  show ?thesis
    using row1 calm fl
    by (simp add: Progress_def finishSucceeded_def retry_def Let_def UpdateJobProgress_ok[OF ok1]
      CompleteJob_ok[OF ok1] RetryJob_def commit_ok[OF re] row_after_state_update row_after_id_update)
qed

lemma cancelled_job_is_overwritten_witness:
  "map_option jr_state (job_by ''j1'' (q_table (snd (finishSucceeded False (calm 2) (fromRow demo_running)
     (snd (Cancel (calm 1) ''j1'' (NewQueue [demo_running]))))))) = Some StateSucceeded"
  using cancelled_job_is_overwritten[where q = "NewQueue [demo_running]" and j = "fromRow demo_running"
      and r = demo_running and env = "calm 1" and ?env1.0 = "calm 1" and ?env2.0 = "calm 2" and f = "Fin 0"]
  by (simp add: queue_inv_New demo_inv demo_running_sel)

end
