(* ===== verification/JobLife.thy ===== *)
theory JobLife
  imports JobSystem
begin

text \<open>
  The life of a job in the system of \<open>JobSystem\<close>: what each operation does to the one row it touches,
  why no two workers ever run the same job as long as the living renew their leases in time, and
  the states a job moves between from then on.
\<close>

subsection \<open>One row changes\<close>

definition row_change :: "string \<Rightarrow> (job_row \<Rightarrow> job_row \<Rightarrow> bool) \<Rightarrow> jobs_table \<Rightarrow> jobs_table \<Rightarrow> bool" where
  "row_change i R t t' \<longleftrightarrow> (\<forall>k. case job_by k t of
       None \<Rightarrow> job_by k t' = None
     | Some r \<Rightarrow> \<exists>r'. job_by k t' = Some r' \<and> (r' = r \<or> k = i \<and> R r r'))"

lemma row_change_refl [simp]: "row_change i R t t"
  by (simp add: row_change_def split: option.split)

lemma row_changeD:
  assumes "row_change i R t t'"
  shows "job_by k t = None \<Longrightarrow> job_by k t' = None"
    and "job_by k t = Some r \<Longrightarrow> \<exists>r'. job_by k t' = Some r' \<and> (r' = r \<or> k = i \<and> R r r')"
    and "job_by k t' = Some r' \<Longrightarrow> \<exists>r. job_by k t = Some r \<and> (r' = r \<or> k = i \<and> R r r')"
proof -
  show 1: "job_by k t = None \<Longrightarrow> job_by k t' = None"
    and 2: "job_by k t = Some r \<Longrightarrow> \<exists>r'. job_by k t' = Some r' \<and> (r' = r \<or> k = i \<and> R r r')" for r
    using assms[unfolded row_change_def, rule_format, of k] by auto
  show "job_by k t' = Some r' \<Longrightarrow> \<exists>r. job_by k t = Some r \<and> (r' = r \<or> k = i \<and> R r r')"
    using 1 2 by (cases "job_by k t") auto
qed

lemma row_change_other: "row_change i R t t' \<Longrightarrow> k \<noteq> i \<Longrightarrow> job_by k t' = job_by k t"
  using row_changeD[of i R t t' k] by (cases "job_by k t") auto

lemma row_change_mono:
  assumes "row_change i R t t'" "\<And>r r'. job_by i t = Some r \<Longrightarrow> R r r' \<Longrightarrow> S r r'"
  shows "row_change i S t t'"
  unfolding row_change_def using row_changeD[OF assms(1)] assms(2) by (fastforce split: option.split)

lemma commit_change:
  assumes "\<And>r. jr_id (f r) = jr_id r" "\<And>r. P r \<Longrightarrow> jr_id r = i" "\<And>r. job_by i t = Some r \<Longrightarrow> P r \<Longrightarrow> R r (f r)"
  shows "row_change i R t (snd (commit_jobs t (sql_update P f t) v))"
proof -
  have "job_by k (sql_update P f t) = map_option (\<lambda>r. if P r then f r else r) (job_by k t)" for k
    using assms(1) by (rule row_by_sql_update)
  moreover have "k = i \<and> R r (f r)" if "job_by k t = Some r" "P r" for k r
    using assms(2)[OF that(2)] assms(3)[OF _ that(2)] row_by_SomeD[OF that(1)] that(1) by auto
  ultimately have "row_change i R t (sql_update P f t)" by (auto simp: row_change_def split: option.split)
  then show ?thesis by (cases rule: commit_cases[of "sql_update P f t" t v]) auto
qed

lemma on_table_table:
  "on_table f st q = (x, q') \<Longrightarrow> q_table q' = q_table q \<or> q_table q' = snd (st (q_table q))"
  by (cases f) auto

lemma on_table_change:
  "on_table f st q = (x, q') \<Longrightarrow> (\<And>t. row_change i R t (snd (st t))) \<Longrightarrow> row_change i R (q_table q) (q_table q')"
  using on_table_table[of f st q x q'] row_change_refl by metis

text \<open>What an operation may do to its row.\<close>

definition same_life :: "job_row \<Rightarrow> job_row \<Rightarrow> bool" where
  "same_life r r' \<longleftrightarrow> jr_attempts r' = jr_attempts r \<and> jr_max_attempts r' = jr_max_attempts r"

definition untouched :: "job_row \<Rightarrow> job_row \<Rightarrow> bool" where
  "untouched r r' \<longleftrightarrow> same_life r r' \<and> jr_state r' = jr_state r"

definition cancels :: "job_row \<Rightarrow> job_row \<Rightarrow> bool" where
  "cancels r r' \<longleftrightarrow> same_life r r' \<and> pending r \<and> jr_state r' = StateCancelled"

definition ends :: "job_state \<Rightarrow> job_row \<Rightarrow> job_row \<Rightarrow> bool" where
  "ends x r r' \<longleftrightarrow> same_life r r' \<and> jr_state r' = x"

definition requeues :: "job_row \<Rightarrow> job_row \<Rightarrow> bool" where
  "requeues r r' \<longleftrightarrow> jr_max_attempts r' = jr_max_attempts r \<and> jr_state r' = StateQueued \<and>
     (jr_attempts r' = jr_attempts r \<and> jr_attempts r < jr_max_attempts r \<or>
      jr_attempts r' = max (jr_attempts r - 1) 0 \<and> jr_state r = StateRunning)"

definition starts :: "job_row \<Rightarrow> job_row \<Rightarrow> bool" where
  "starts r r' \<longleftrightarrow> jr_max_attempts r' = jr_max_attempts r \<and> jr_state r = StateQueued \<and>
     jr_state r' = StateRunning \<and> jr_attempts r' = jr_attempts r + 1"

lemmas row_effects = same_life_def untouched_def cancels_def ends_def requeues_def

lemma stmt_change:
  "row_change i cancels t (snd (CancelJob fin u i t))"
  "row_change i untouched t (snd (ExtendLease l u i t))"
  "row_change i untouched t (snd (UpdateJobProgress p m u i t))"
  "row_change i untouched t (snd (RecordJobUsage a b k u i t))"
  "row_change i (ends StateSucceeded) t (snd (CompleteJob m fin u i t))"
  "row_change i (ends StateFailed) t (snd (FailJob e fin u i t))"
  "row_change i requeues t (snd (ReleaseJob ra u i t))"
  unfolding CancelJob_def ExtendLease_def UpdateJobProgress_def RecordJobUsage_def CompleteJob_def
    FailJob_def ReleaseJob_def
  by (rule commit_change; auto simp: row_effects pending_def)+

lemma RetryJob_change:
  "(\<And>r. job_by i t = Some r \<Longrightarrow> jr_attempts r < jr_max_attempts r) \<Longrightarrow>
   row_change i requeues t (snd (RetryJob e ra u i t))"
  unfolding RetryJob_def by (rule commit_change) (auto simp: row_effects)

lemma Cancel_change: "row_change i cancels (q_table q) (q_table (snd (Cancel env i q)))"
  unfolding Cancel_def Let_def
  by (auto dest: on_table_change[OF _ stmt_change(1)] split: prod.splits sum.splits)

lemma renew_change: "row_change i untouched (q_table q) (q_table (renew_tick c env p i q))"
  unfolding renew_tick_def Let_def 
  by (rule on_table_change[OF _ stmt_change(2)]) (rule prod.collapse[symmetric])

lemma Progress_change: "row_change (job_id j) untouched (q_table q) (q_table (snd (snd (Progress env f m j q))))"
  unfolding Progress_def Let_def
  by (auto dest: on_table_change[OF _ stmt_change(3)] split: prod.splits sum.splits)

lemma Usage_change: "row_change (job_id j) untouched (q_table q) (q_table (snd (snd (Usage env a b k j q))))"
  unfolding Usage_def Let_def
  by (auto dest: on_table_change[OF _ stmt_change(4)] split: prod.splits sum.splits)

lemma finish_change:
  "row_change (job_id j) (ends StateSucceeded) (q_table q) (q_table (snd (finishSucceeded c env j q)))"
  "row_change (job_id j) (ends StateFailed) (q_table q) (q_table (snd (finishFailed c env e j q)))"
  "row_change (job_id j) requeues (q_table q) (q_table (snd (release env j q)))"
  unfolding finishSucceeded_def finishFailed_def release_def Let_def
  by (auto dest: on_table_change[OF _ stmt_change(5)] on_table_change[OF _ stmt_change(6)]
      on_table_change[OF _ stmt_change(7)] split: prod.splits sum.splits)

lemma retry_change:
  assumes "\<And>r. job_by (job_id j) (q_table q) = Some r \<Longrightarrow> jr_attempts r < jr_max_attempts r"
  shows "row_change (job_id j) requeues (q_table q) (q_table (snd (retry c env e d j q)))"
proof -
  let ?st = "RetryJob e (Millis (clk env 0 + d)) (Millis (clk env 0)) (job_id j)"
  obtain x q1 where o: "on_table (under_ctx c (flt env 0)) ?st q = (x, q1)" by fastforce
  have "row_change (job_id j) requeues (q_table q) (q_table q1)"
    using on_table_table[OF o] RetryJob_change[OF assms] by auto
  then show ?thesis using o by (simp add: retry_def Let_def split: sum.split)
qed

text \<open>A job has its budget: its attempts stay below the maximum, and while it waits one is left.\<close>

definition budget :: "job_row \<Rightarrow> bool" where
  "budget r \<longleftrightarrow> 1 \<le> jr_max_attempts r \<and> jr_attempts r \<le> jr_max_attempts r \<and>
     (jr_state r = StateQueued \<longrightarrow> jr_attempts r < jr_max_attempts r)"

definition settles :: "job_row \<Rightarrow> job_row \<Rightarrow> bool" where
  "settles r r' \<longleftrightarrow> ends StateSucceeded r r' \<or> ends StateFailed r r' \<or> requeues r r'"

lemma settle_change:
  assumes "\<And>r. job_by (job_id j) (q_table q) = Some r \<Longrightarrow>
    jr_attempts r = job_attempts j \<and> jr_max_attempts r = job_max_attempts j"
  shows "row_change (job_id j) settles (q_table q) (q_table (snd (settle p d env rnd err j q)))"
proof -
  have up: "row_change (job_id j) (ends StateSucceeded) (q_table q) t \<Longrightarrow> row_change (job_id j) settles (q_table q) t"
    "row_change (job_id j) (ends StateFailed) (q_table q) t \<Longrightarrow> row_change (job_id j) settles (q_table q) t"
    "row_change (job_id j) requeues (q_table q) t \<Longrightarrow> row_change (job_id j) settles (q_table q) t" for t
    by (erule row_change_mono, simp add: settles_def)+
  have "row_change (job_id j) requeues (q_table q) (q_table (snd (retry d env e del j q)))"
    if "\<not> job_max_attempts j \<le> job_attempts j" for e del
    using assms that by (intro retry_change) auto
  then show ?thesis
    unfolding settle_def
    using up(1)[OF finish_change(1)] up(2)[OF finish_change(2)] up(3)[OF finish_change(3)] up(3)
    by (auto split: option.split)
qed

lemma settles_cases:
  assumes "settles r r'"
  shows "jr_max_attempts r' = jr_max_attempts r" "jr_state r' \<in> {StateSucceeded, StateFailed, StateQueued}"
    "budget r \<Longrightarrow> budget r'"
  using assms by (auto simp: settles_def row_effects budget_def)

subsection \<open>The invariant of exclusive running\<close>

text \<open>
  A worker's job is in the table as the worker knows it, running or cancelled meanwhile, or purged
  after that; no two workers hold the same job; and, when \<open>b\<close> is set, a job that waits has an attempt
  left. \<open>I\<close> are the ids handed out so far.
\<close>

definition rows_ok :: "bool \<Rightarrow> string set \<Rightarrow> jobs_table \<Rightarrow> bool" where
  "rows_ok b I t \<longleftrightarrow> (\<forall>i r. job_by i t = Some r \<longrightarrow> (b \<longrightarrow> budget r) \<and> i \<in> I)"

definition holds :: "job \<Rightarrow> job_row \<Rightarrow> bool" where
  "holds j r \<longleftrightarrow> jr_state r \<in> {StateRunning, StateCancelled} \<and> jr_attempts r = job_attempts j \<and>
     jr_max_attempts r = job_max_attempts j"

definition busy_ok :: "string set \<Rightarrow> jobs_table \<Rightarrow> (string \<rightharpoonup> job \<times> hprog option) \<Rightarrow> bool" where
  "busy_ok I t B \<longleftrightarrow> (\<forall>w j h. B w = Some (j, h) \<longrightarrow> job_id j \<in> I \<and>
     (\<forall>r. job_by (job_id j) t = Some r \<longrightarrow> holds j r))"

definition apart :: "(string \<rightharpoonup> job \<times> hprog option) \<Rightarrow> bool" where
  "apart B \<longleftrightarrow> (\<forall>w w' j j' h h'. B w = Some (j, h) \<longrightarrow> B w' = Some (j', h') \<longrightarrow>
     job_id j = job_id j' \<longrightarrow> w = w')"

definition exclusive :: "bool \<Rightarrow> sys \<Rightarrow> bool" where
  "exclusive b s \<longleftrightarrow> rows_ok b (sy_issued s) (q_table (sy_queue s)) \<and>
     busy_ok (sy_issued s) (q_table (sy_queue s)) (sy_busy s) \<and> apart (sy_busy s)"

text \<open>A quiet change charges no attempt and at most cancels.\<close>

definition quiet :: "jobs_table \<Rightarrow> jobs_table \<Rightarrow> bool" where
  "quiet t t' \<longleftrightarrow> (\<forall>k. case job_by k t of
       None \<Rightarrow> job_by k t' = None
     | Some r \<Rightarrow> \<exists>r'. job_by k t' = Some r' \<and> (untouched r r' \<or> cancels r r'))"

lemma quiet_refl [simp]: "quiet t t"
  by (simp add: quiet_def row_effects split: option.split)

lemma quietD:
  assumes "quiet t t'"
  shows "job_by k t = None \<Longrightarrow> job_by k t' = None"
    and "job_by k t' = Some r' \<Longrightarrow> \<exists>r. job_by k t = Some r \<and> (untouched r r' \<or> cancels r r')"
proof -
  show "job_by k t = None \<Longrightarrow> job_by k t' = None"
    "job_by k t' = Some r' \<Longrightarrow> \<exists>r. job_by k t = Some r \<and> (untouched r r' \<or> cancels r r')"
    using assms[unfolded quiet_def, rule_format, of k] by (auto split: option.splits)
qed

lemma quiet_trans: "quiet t t1 \<Longrightarrow> quiet t1 t2 \<Longrightarrow> quiet t t2"
  unfolding quiet_def
proof (intro allI)
  fix k
  assume "\<forall>k. case job_by k t of None \<Rightarrow> job_by k t1 = None
      | Some r \<Rightarrow> \<exists>r'. job_by k t1 = Some r' \<and> (untouched r r' \<or> cancels r r')"
    and "\<forall>k. case job_by k t1 of None \<Rightarrow> job_by k t2 = None
      | Some r \<Rightarrow> \<exists>r'. job_by k t2 = Some r' \<and> (untouched r r' \<or> cancels r r')"
  from this[rule_format, of k]
  show "case job_by k t of None \<Rightarrow> job_by k t2 = None
      | Some r \<Rightarrow> \<exists>r'. job_by k t2 = Some r' \<and> (untouched r r' \<or> cancels r r')"
    by (auto simp: row_effects pending_def split: option.splits)
qed

lemma change_quiet:
  "row_change i untouched t t' \<Longrightarrow> quiet t t'" "row_change i cancels t t' \<Longrightarrow> quiet t t'"
  using row_changeD(1,2) unfolding quiet_def by (fastforce simp: row_effects split: option.split)+

lemmas quiet_ops = Cancel_change[THEN change_quiet(2)] renew_change[THEN change_quiet(1)]
  Progress_change[THEN change_quiet(1)] Usage_change[THEN change_quiet(1)]

lemma exclusive_quiet:
  assumes "exclusive b s" "quiet (q_table (sy_queue s)) (q_table q')"
  shows "exclusive b (s\<lparr>sy_queue := q'\<rparr>)"
proof -
  have "(b \<longrightarrow> budget r') \<and> k \<in> sy_issued s" if "job_by k (q_table q') = Some r'" for k r'
    using quietD(2)[OF assms(2) that] assms(1)
    by (auto simp: exclusive_def rows_ok_def budget_def row_effects)
  moreover have "holds j r'" if "sy_busy s w = Some (j, h)" "job_by (job_id j) (q_table q') = Some r'" for w j h r'
    using quietD(2)[OF assms(2) that(2)] assms(1) that(1)
    by (fastforce simp: exclusive_def busy_ok_def holds_def row_effects)
  ultimately show ?thesis using assms(1) by (auto simp: exclusive_def rows_ok_def busy_ok_def)
qed

lemma busy_holds:
  "exclusive b s \<Longrightarrow> sy_busy s w = Some (j, h) \<Longrightarrow> job_by (job_id j) (q_table (sy_queue s)) = Some r \<Longrightarrow>
   holds j r"
  by (auto simp: exclusive_def busy_ok_def)

lemma exclusive_shrink:
  assumes "exclusive b s" "\<And>k r. job_by k (q_table q') = Some r \<Longrightarrow> job_by k (q_table (sy_queue s)) = Some r"
  shows "exclusive b (s\<lparr>sy_queue := q'\<rparr>)"
  using assms by (auto simp: exclusive_def rows_ok_def busy_ok_def)

subsection \<open>The steps preserve it\<close>

lemma Enqueue_table:
  "q_table (snd (Enqueue env fresh kind pl opts q)) = q_table q \<or>
   (\<exists>r. q_table (snd (Enqueue env fresh kind pl opts q)) = q_table q @ [r] \<and> jr_id r = fresh \<and> budget r \<and>
     jr_state r = StateQueued)"
proof -
  let ?ma = "if eo_max_attempts opts \<le> 0 then defaultMaxAttempts else eo_max_attempts opts"
  have st: "snd (EnqueueJob fresh kind raw pr ?ma d ra c u t) = t \<or>
      (\<exists>r. snd (EnqueueJob fresh kind raw pr ?ma d ra c u t) = t @ [r] \<and> jr_id r = fresh \<and> budget r \<and>
     jr_state r = StateQueued)"
    for raw pr d ra c u t
  proof -
    let ?r = "\<lparr>jr_id = fresh, jr_kind = kind, jr_payload = raw, jr_state = StateQueued,
               jr_priority = pr, jr_progress = Fin 0, jr_progress_note = [],
               jr_attempts = 0, jr_max_attempts = ?ma, jr_last_error = [],
               jr_tokens_in = 0, jr_tokens_out = 0, jr_cost_micros = 0,
               jr_run_after = ra, jr_lease_until = None, jr_worker = [],
               jr_dedupe_key = d, jr_created_at = c, jr_updated_at = u,
               jr_started_at = None, jr_finished_at = None\<rparr>"
    have "budget ?r" by (simp add: budget_def defaultMaxAttempts_def)
    then show ?thesis
      by (cases rule: commit_cases[of "t @ [?r]" t ?r]) (auto simp: EnqueueJob_def Let_def)
  qed
  let ?st = "EnqueueJob fresh kind (case pl of Encoded s \<Rightarrow> s | _ \<Rightarrow> ''{}'') (eo_priority opts) ?ma
    (if eo_dedupe_key opts = [] then None else Some (eo_dedupe_key opts))
    (Millis (case eo_run_after opts of None \<Rightarrow> clk env 0 | Some t \<Rightarrow> t))
    (Millis (clk env (if eo_run_after opts = None then 1 else 0)))
    (Millis (clk env (if eo_run_after opts = None then 1 else 0)))"
  obtain res q' where e: "on_table (flt env 0) ?st q = (res, q')" by fastforce
  have "snd (Enqueue env fresh kind pl opts q) \<in> {q, q'} \<union> range (\<lambda>j. publish_job j q')"
    unfolding Enqueue_def Let_def e by (simp split: sum.split)
  moreover have "q_table q' = q_table q \<or> q_table q' = snd (?st (q_table q))"
    using e by (cases "flt env 0") auto
  ultimately show ?thesis
    using st[of "case pl of Encoded s \<Rightarrow> s | _ \<Rightarrow> ''{}''" "eo_priority opts"
      "if eo_dedupe_key opts = [] then None else Some (eo_dedupe_key opts)"
      "Millis (case eo_run_after opts of None \<Rightarrow> clk env 0 | Some t \<Rightarrow> t)"
      "Millis (clk env (if eo_run_after opts = None then 1 else 0))"
      "Millis (clk env (if eo_run_after opts = None then 1 else 0))" "q_table q"]
    by auto
qed

lemma busy_ok_keep:
  "busy_ok I t B \<Longrightarrow> B w = Some (j, h) \<Longrightarrow> same_job j j' \<Longrightarrow> busy_ok I t (B(w \<mapsto> (j', h')))"
  unfolding busy_ok_def same_job_def holds_def by (auto split: if_splits)

lemma apart_keep: "apart B \<Longrightarrow> B w = Some (j, h) \<Longrightarrow> same_job j j' \<Longrightarrow> apart (B(w \<mapsto> (j', h')))"
  unfolding apart_def same_job_def by (auto split: if_splits)

lemma apart_remove: "apart B \<Longrightarrow> apart (B(w := None))"
  unfolding apart_def by (auto split: if_splits)

lemma exclusive_enqueue:
  assumes ex: "exclusive b s" and fresh: "fresh \<notin> sy_issued s"
  shows "exclusive b (s\<lparr>sy_queue := snd (Enqueue env fresh kind pl opts (sy_queue s)),
        sy_issued := insert fresh (sy_issued s)\<rparr>)"
proof -
  let ?t = "q_table (sy_queue s)" and ?t' = "q_table (snd (Enqueue env fresh kind pl opts (sy_queue s)))"
  have rows: "job_by k ?t' = Some r \<Longrightarrow> job_by k ?t = Some r \<or> k = fresh \<and> budget r" for k r
    using Enqueue_table[of env fresh kind pl opts "sy_queue s"]
    by (auto simp: row_by_append split: option.splits if_splits)
  have "rows_ok b (insert fresh (sy_issued s)) ?t'"
    using ex rows unfolding exclusive_def rows_ok_def by blast
  moreover have "busy_ok (insert fresh (sy_issued s)) ?t' (sy_busy s)"
    using ex rows fresh unfolding exclusive_def busy_ok_def by blast
  ultimately show ?thesis using ex by (simp add: exclusive_def)
qed

lemma exclusive_claim:
  assumes ex: "exclusive b s" and inv: "queue_inv (sy_queue s)" and w: "sy_busy s w = None"
    and c: "claim d env w p (sy_queue s) = (Inr (Some j), q')"
  shows "exclusive b (s\<lparr>sy_queue := q', sy_busy := (sy_busy s)(w \<mapsto> (j, h))\<rparr>)"
  using inv c
proof (cases rule: claim_elim[case_names same job])
  case (job r f)
  let ?t = "q_table (sy_queue s)"
  have rows: "job_by k (q_table q') = map_option (\<lambda>x. if k = jr_id r then f x else x) (job_by k ?t)" for k
    unfolding job(3,5) by (simp add: row_after_id_update)
  have r: "b \<Longrightarrow> budget r" "jr_id r \<in> sy_issued s"
    using ex job(1) by (auto simp: exclusive_def rows_ok_def)
  have "b \<Longrightarrow> budget (f r)" using r(1) job(2,3) by (simp add: budget_def)
  then have "rows_ok b (sy_issued s) (q_table q')"
    using ex r job(1) unfolding exclusive_def rows_ok_def rows by (auto split: if_splits)
  moreover have free: "job_id j' \<noteq> jr_id r" if "sy_busy s w' = Some (j', h')" for w' j' h'
    using busy_holds[OF ex that, of r] job(1,2) by (auto simp: holds_def)
  have "busy_ok (sy_issued s) (q_table q') ((sy_busy s)(w \<mapsto> (j, h)))"
    unfolding busy_ok_def
  proof (intro allI impI)
    fix w' j' h' assume w: "((sy_busy s)(w \<mapsto> (j, h))) w' = Some (j', h')"
    show "job_id j' \<in> sy_issued s \<and> (\<forall>r'. job_by (job_id j') (q_table q') = Some r' \<longrightarrow> holds j' r')"
    proof (cases "w' = w")
      case True
      have "holds j (f r)" "job_id j = jr_id r" using job(3,4) by (simp_all add: holds_def)
      then show ?thesis using True w r(2) job(1) by (simp add: rows)
    next
      case False
      then have o: "sy_busy s w' = Some (j', h')" using w by simp
      then show ?thesis
        using free[OF o] busy_holds[OF ex o] ex by (auto simp: rows exclusive_def busy_ok_def)
    qed
  qed
  moreover have "apart ((sy_busy s)(w \<mapsto> (j, h)))"
    using ex free job unfolding exclusive_def apart_def by (fastforce split: if_splits)
  ultimately show ?thesis by (simp add: exclusive_def)
qed simp

text \<open>A worker lets go of its job; the row may have been settled.\<close>

lemma exclusive_release:
  assumes ex: "exclusive b s" and w: "sy_busy s w = Some (j, h)"
    and ch: "row_change (job_id j) settles (q_table (sy_queue s)) (q_table q')"
  shows "exclusive b (s\<lparr>sy_queue := q', sy_busy := (sy_busy s)(w := None)\<rparr>)"
proof -
  have "(b \<longrightarrow> budget r') \<and> k \<in> sy_issued s" if "job_by k (q_table q') = Some r'" for k r'
    using row_changeD(3)[OF ch that] ex settles_cases(3) by (auto simp: exclusive_def rows_ok_def)
  moreover have "holds j' r" if o: "sy_busy s w' = Some (j', h')" "w' \<noteq> w" "job_by (job_id j') (q_table q') = Some r"
    for w' j' h' r
  proof -
    have "job_id j' \<noteq> job_id j" using ex w o(1,2) by (auto simp: exclusive_def apart_def)
    then show ?thesis using row_change_other[OF ch] o busy_holds[OF ex o(1)] by simp
  qed
  ultimately show ?thesis
    using ex apart_remove[of "sy_busy s" w] by (auto simp: exclusive_def rows_ok_def busy_ok_def)
qed

lemma exclusive_finish:
  assumes "exclusive b s" "sy_busy s w = Some (j, h)" "settle p d env rnd err j (sy_queue s) = (j', q')"
  shows "exclusive b (s\<lparr>sy_queue := q', sy_busy := (sy_busy s)(w := None)\<rparr>)"
  using exclusive_release[OF assms(1,2)] settle_change[of j "sy_queue s" p d env rnd err]
    busy_holds[OF assms(1,2)] assms(3) by (simp add: holds_def)

lemma exclusive_report:
  assumes ex: "exclusive b s" and w: "sy_busy s w = Some (j, h)" and same: "same_job j j'"
    and qu: "quiet (q_table (sy_queue s)) (q_table q')"
  shows "exclusive b (s\<lparr>sy_queue := q', sy_busy := (sy_busy s)(w \<mapsto> (j', h'))\<rparr>)"
  using exclusive_quiet[OF ex qu] w same by (simp add: exclusive_def busy_ok_keep apart_keep)

lemma PurgeFinishedBefore_rows:
  assumes "queue_inv q"
  shows "job_by k (q_table (snd (PurgeFinishedBefore f c q))) = job_by k (q_table q) \<or>
    job_by k (q_table (snd (PurgeFinishedBefore f c q))) = None \<and>
    (\<exists>r. job_by k (q_table q) = Some r \<and> Terminal (jr_state r))"
proof -
  have "jobs_ok (q_table q)" using assms by auto
  then show ?thesis
    by (cases f) (auto simp: PurgeFinishedBefore_def DeleteFinishedJobsBefore_ok jobs.row_after_delete
        finished_before_def split: option.split)
qed

lemma reclaim_change:
  assumes "queue_inv q"
  shows "job_by k (q_table q) = None \<Longrightarrow> job_by k (q_table (snd (reclaim c env q))) = None"
    and "job_by k (q_table q) = Some r \<Longrightarrow> \<exists>r'. job_by k (q_table (snd (reclaim c env q))) = Some r' \<and>
      (r' = r \<or> lease_expired (Some (Millis (clk env 0))) r \<and> same_life r r' \<and> jr_state r' = StateQueued)"
    and "job_by k (q_table (snd (reclaim c env q))) = Some r' \<Longrightarrow> \<exists>r. job_by k (q_table q) = Some r \<and>
      (r' = r \<or> lease_expired (Some (Millis (clk env 0))) r \<and> same_life r r' \<and> jr_state r' = StateQueued)"
proof -
  have "jobs_ok (q_table q)" using assms by auto
  note e = reclaim_def Let_def ReclaimExpiredLeases_ok[OF this] row_by_sql_update same_life_def
  show 1: "job_by k (q_table q) = None \<Longrightarrow> job_by k (q_table (snd (reclaim c env q))) = None"
    and 2: "job_by k (q_table q) = Some r \<Longrightarrow> \<exists>r'. job_by k (q_table (snd (reclaim c env q))) = Some r' \<and>
      (r' = r \<or> lease_expired (Some (Millis (clk env 0))) r \<and> same_life r r' \<and> jr_state r' = StateQueued)" for r
    by (cases "under_ctx c (flt env 0)"; simp add: e)+
  show "job_by k (q_table (snd (reclaim c env q))) = Some r' \<Longrightarrow> \<exists>r. job_by k (q_table q) = Some r \<and>
      (r' = r \<or> lease_expired (Some (Millis (clk env 0))) r \<and> same_life r r' \<and> jr_state r' = StateQueued)"
    using 1 2 by (cases "job_by k (q_table q)") auto
qed

lemma exclusive_reclaim:
  assumes "exclusive False s" "queue_inv (sy_queue s)" "held_in_time (Millis (clk env 0)) s"
  shows "exclusive False (s\<lparr>sy_queue := snd (reclaim c env (sy_queue s))\<rparr>)"
  using assms reclaim_change(3)[OF assms(2), where c = c and env = env]
  by (fastforce simp: exclusive_def rows_ok_def busy_ok_def held_in_time_def)

text \<open>
  Without its attempts, exclusive running survives everything but a reclaim that takes a job from a
  living worker; with them, everything but a reclaim, which charges the attempt and gives the job
  another.
\<close>

lemma sys_step_exclusive:
  assumes "sys_step p l s s'" "queue_inv (sy_queue s)" "exclusive b s"
    "l \<noteq> Expires" "b \<longrightarrow> l \<noteq> Reclaims"
  shows "exclusive b s'"
  using assms(1)
proof cases
  case (enqueue fresh env kind pl opts)
  then show ?thesis using exclusive_enqueue[OF assms(3)] by blast
next
  case (cancel env i)
  then show ?thesis using exclusive_quiet[OF assms(3) quiet_ops(1)] by blast
next
  case (purge f cutoff)
  show ?thesis
    unfolding purge
    by (rule exclusive_shrink[OF assms(3)]) (metis PurgeFinishedBefore_rows[OF assms(2)] option.distinct(1))
next
  case (start w env j q' h)
  then show ?thesis using exclusive_claim[OF assms(3,2) start(3,4), of "Some (h j)"]
    by (simp add: exclusive_def)
next
  case (unknown w env j q')
  then show ?thesis using exclusive_claim[OF assms(3,2) unknown(3,4), of None]
    by (simp add: exclusive_def)
next
  case (nohandler w j env)
  have "row_change (job_id j) settles (q_table (sy_queue s))
      (q_table (snd (finishFailed (sy_down s) env (no_handler_text (job_kind j)) j (sy_queue s))))"
    using row_change_mono[OF finish_change(2)] by (simp add: settles_def)
  from exclusive_release[OF assms(3) nohandler(3) this] show ?thesis using nohandler(2) by simp
next
  case (idle w env x q')
  then have "q' = sy_queue s" using claim_elim[OF assms(2) idle(4)] by blast
  then show ?thesis using idle assms(3) by simp
next
  case (report w j f m k env e j' q')
  then show ?thesis
    using exclusive_report[OF assms(3) report(3)] Progress_core[OF report(4)]
      quiet_ops(3)[of "sy_queue s" env f m j] by simp
next
  case (usage w j a b c k env e j' q')
  then show ?thesis
    using exclusive_report[OF assms(3) usage(3)] Usage_core[OF usage(4)]
      quiet_ops(4)[of "sy_queue s" env a b c j] by simp
next
  case (finish w j res env rnd j' q')
  then show ?thesis using exclusive_finish[OF assms(3)] by blast
next
  case (renew w j h env)
  then show ?thesis using exclusive_quiet[OF assms(3) quiet_ops(2)] by blast
next
  case (reclaim_abandoned env)
  then show ?thesis using exclusive_reclaim[OF _ assms(2)] assms(3,5) by auto
next
  case crash
  then show ?thesis using assms(3) by (simp add: exclusive_def busy_ok_def apart_def)
qed (use assms(3,4) in \<open>simp_all add: exclusive_def\<close>)

subsection \<open>The life of a job\<close>

text \<open>
  The states a job moves between, as the package's comment on its states means them; \<open>None\<close> is a job
  that does not exist, or not any more. One move is what the code adds to it: a cancelled job whose
  worker goes on is overwritten when the worker returns.
\<close>

inductive life :: "job_state option \<Rightarrow> job_state option \<Rightarrow> bool" where
  enqueued: "life None (Some StateQueued)"
| claimed: "life (Some StateQueued) (Some StateRunning)"
| ended: "x \<in> {StateRunning, StateCancelled} \<Longrightarrow> y \<in> {StateSucceeded, StateFailed} \<Longrightarrow> life (Some x) (Some y)"
| requeued: "x \<in> {StateRunning, StateCancelled} \<Longrightarrow> life (Some x) (Some StateQueued)"
| cancelled: "x \<in> {StateQueued, StateRunning} \<Longrightarrow> life (Some x) (Some StateCancelled)"
| purged: "Terminal x \<Longrightarrow> life (Some x) None"

inductive_cases life_endedE: "life (Some StateSucceeded) y" "life (Some StateFailed) y"
inductive_cases life_startE: "life None y"

definition state_of :: "string \<Rightarrow> jobs_table \<Rightarrow> job_state option" where
  "state_of i t = map_option jr_state (job_by i t)"

text \<open>Every job moves along its life, and no id of \<open>I\<close> is used again.\<close>

definition moves :: "string set \<Rightarrow> jobs_table \<Rightarrow> jobs_table \<Rightarrow> bool" where
  "moves I t t' \<longleftrightarrow> (\<forall>i. state_of i t' = state_of i t \<or>
     life (state_of i t) (state_of i t') \<and> (state_of i t = None \<longrightarrow> i \<notin> I))"

lemma moves_refl [simp]: "moves I t t"
  by (simp add: moves_def)

lemma rows_move:
  assumes "\<And>k. job_by k t = None \<Longrightarrow> job_by k t' = None"
    and "\<And>k r. job_by k t = Some r \<Longrightarrow> \<exists>r'. job_by k t' = Some r' \<and>
      (jr_state r' = jr_state r \<or> life (Some (jr_state r)) (Some (jr_state r')))"
  shows "moves I t t'"
  unfolding moves_def state_of_def
proof
  fix k
  show "map_option jr_state (job_by k t') = map_option jr_state (job_by k t) \<or>
      life (map_option jr_state (job_by k t)) (map_option jr_state (job_by k t')) \<and>
      (map_option jr_state (job_by k t) = None \<longrightarrow> k \<notin> I)"
    using assms[of k] by (cases "job_by k t") auto
qed

lemma quiet_moves: "quiet t t' \<Longrightarrow> moves I t t'"
proof (rule rows_move)
  fix k r
  assume "quiet t t'" "job_by k t = Some r"
  then show "\<exists>r'. job_by k t' = Some r' \<and> (jr_state r' = jr_state r \<or> life (Some (jr_state r)) (Some (jr_state r')))"
    unfolding quiet_def by (fastforce simp: row_effects pending_def intro: life.cancelled dest: spec[of _ k])
qed (rule quietD)

lemma row_change_moves:
  assumes "row_change i R t t'"
    "\<And>r r'. job_by i t = Some r \<Longrightarrow> R r r' \<Longrightarrow> jr_state r' = jr_state r \<or> life (Some (jr_state r)) (Some (jr_state r'))"
  shows "moves I t t'"
proof (rule rows_move)
  fix k r
  assume "job_by k t = Some r"
  then show "\<exists>r'. job_by k t' = Some r' \<and> (jr_state r' = jr_state r \<or> life (Some (jr_state r)) (Some (jr_state r')))"
    using row_changeD(2)[OF assms(1), of k r] assms(2) by fastforce
qed (rule row_changeD(1)[OF assms(1)])

lemma settle_moves: "settles r r' \<Longrightarrow> holds j r \<Longrightarrow> life (Some (jr_state r)) (Some (jr_state r'))"
  using settles_cases(2)[of r r'] by (auto simp: holds_def intro: life.intros)

lemma claim_moves:
  assumes "queue_inv q" "claim c env w p q = (x, q')"
  shows "moves I (q_table q) (q_table q')"
    "x = Inr (Some j) \<Longrightarrow> row_change (job_id j) starts (q_table q) (q_table q')"
proof -
  show 2: "row_change (job_id j) starts (q_table q) (q_table q')" if "x = Inr (Some j)" for j
    using assms
  proof (cases rule: claim_elim[case_names same job])
    case (job r f)
    then have "job_id j = jr_id r" using that by simp
    then show ?thesis
      using job by (auto simp: row_change_def row_after_id_update starts_def split: option.split)
  qed (use that in simp)
  show "moves I (q_table q) (q_table q')"
  proof (cases "\<exists>j. x = Inr (Some j)")
    case True
    then obtain j where "x = Inr (Some j)" ..
    from 2[OF this] show ?thesis by (rule row_change_moves) (auto simp: starts_def intro: life.claimed)
  next
    case False
    then show ?thesis using claim_elim[OF assms] by (metis moves_refl)
  qed
qed

text \<open>A step moves every job along its life, unless it takes a job from a living worker.\<close>

lemma sys_step_moves:
  assumes "sys_step p l s s'" "queue_inv (sy_queue s)" "exclusive False s" "l \<noteq> Expires"
  shows "moves (sy_issued s) (q_table (sy_queue s)) (q_table (sy_queue s'))"
  using assms(1)
proof cases
  case (enqueue fresh env kind pl opts)
  then show ?thesis
    using Enqueue_table[of env fresh kind pl opts "sy_queue s"] enqueue(2,3)
    by (auto simp: moves_def state_of_def row_by_append life.enqueued split: option.split if_splits)
next
  case (cancel env i)
  then show ?thesis using quiet_moves[OF quiet_ops(1)] by simp
next
  case (purge f cutoff)
  have "state_of i (q_table (snd (PurgeFinishedBefore f cutoff (sy_queue s)))) = state_of i (q_table (sy_queue s)) \<or>
      (\<exists>x. state_of i (q_table (sy_queue s)) = Some x \<and> Terminal x) \<and>
      state_of i (q_table (snd (PurgeFinishedBefore f cutoff (sy_queue s)))) = None" for i
    using PurgeFinishedBefore_rows[OF assms(2), of i f cutoff] by (auto simp: state_of_def)
  then show ?thesis using purge(2) by (fastforce simp: moves_def intro: life.purged)
next
  case (start w env j q' h)
  then show ?thesis using claim_moves(1)[OF assms(2) start(4)] by simp
next
  case (unknown w env j q')
  then show ?thesis using claim_moves(1)[OF assms(2) unknown(4)] by simp
next
  case (nohandler w j env)
  have "moves (sy_issued s) (q_table (sy_queue s))
      (q_table (snd (finishFailed (sy_down s) env (no_handler_text (job_kind j)) j (sy_queue s))))"
    using finish_change(2)
    by (rule row_change_moves)
      (use busy_holds[OF assms(3) nohandler(3)] in \<open>auto simp: holds_def row_effects intro: life.ended\<close>)
  then show ?thesis using nohandler(2) by simp
next
  case (idle w env x q')
  then show ?thesis using claim_moves(1)[OF assms(2) idle(4)] by simp
next
  case (report w j f m k env e j' q')
  then show ?thesis using quiet_moves[OF quiet_ops(3)[of "sy_queue s" env f m j]] by simp
next
  case (usage w j a b c k env e j' q')
  then show ?thesis using quiet_moves[OF quiet_ops(4)[of "sy_queue s" env a b c j]] by simp
next
  case (finish w j res env rnd j' q')
  have "row_change (job_id j) settles (q_table (sy_queue s)) (q_table q')"
    using settle_change[of j "sy_queue s" p "sy_down s" env rnd "runHandler res"]
      busy_holds[OF assms(3) finish(3)] finish(4) by (simp add: holds_def)
  then have "moves (sy_issued s) (q_table (sy_queue s)) (q_table q')"
    by (rule row_change_moves) (use settle_moves busy_holds[OF assms(3) finish(3)] in blast)
  then show ?thesis using finish(2) by simp
next
  case (renew w j h env)
  then show ?thesis using quiet_moves[OF quiet_ops(2)] by simp
next
  case (reclaim_abandoned env)
  have "moves (sy_issued s) (q_table (sy_queue s)) (q_table (snd (reclaim (sy_down s) env (sy_queue s))))"
  proof (rule rows_move)
    fix k r
    assume "job_by k (q_table (sy_queue s)) = Some r"
    from reclaim_change(2)[OF assms(2) this, of "sy_down s" env]
    show "\<exists>r'. job_by k (q_table (snd (reclaim (sy_down s) env (sy_queue s)))) = Some r' \<and>
        (jr_state r' = jr_state r \<or> life (Some (jr_state r)) (Some (jr_state r')))"
      by (auto simp: lease_expired_def intro: life.requeued)
  qed (rule reclaim_change(1)[OF assms(2)])
  then show ?thesis using reclaim_abandoned(2) by simp
qed (use assms(4) in simp_all)

lemma sys_step_issued: "sys_step p l s s' \<Longrightarrow> sy_issued s \<subseteq> sy_issued s'"
  by (induction rule: sys_step.induct) auto

text \<open>A job that succeeded or failed stays as it is until it is purged, and then it is gone.\<close>

lemma moves_settled:
  assumes "moves I t t'" "i \<in> I" "x \<in> {StateSucceeded, StateFailed}" "state_of i t \<in> {Some x, None}"
  shows "state_of i t' \<in> {Some x, None}"
  using assms unfolding moves_def by (metis insertE life_endedE singletonD insertCI)

end
