(* ===== verification/Lease.thy ===== *)
theory Lease
  imports JobLife
begin

text \<open>
  Why a living worker keeps its job: the goroutine of \<open>renewLease\<close> and that of \<open>reclaimLoop\<close>, both
  started by the pool (\<open>internal/jobs/worker.go\<close>), side by side over time. The lease is renewed three
  times per period, so a worker survives two renewals in a row that fail.
\<close>

datatype lease_event = RenewTick callenv | ReclaimTick callenv

primrec side_by_side :: "pool \<Rightarrow> string \<Rightarrow> lease_event list \<Rightarrow> queue \<Rightarrow> queue" where
  "side_by_side p i [] q = q"
| "side_by_side p i (x # xs) q =
     side_by_side p i xs (case x of
        RenewTick env \<Rightarrow> renew_tick False env p i q
      | ReclaimTick env \<Rightarrow> snd (reclaim False env q))"

text \<open>
  The schedule: no tick of the renewal comes later than one interval after the one before, which was
  at \<open>t\<close>, and no three in a row fail, \<open>n\<close> being the number of the last ones that did.
\<close>

primrec on_schedule :: "pool \<Rightarrow> nat \<Rightarrow> gotime \<Rightarrow> lease_event list \<Rightarrow> bool" where
  "on_schedule p n t [] \<longleftrightarrow> True"
| "on_schedule p n t (x # xs) \<longleftrightarrow> (case x of
      RenewTick env \<Rightarrow> clk env 0 \<le> t + pl_renew_interval p \<and> (flt env 0 = None \<or> n < 2) \<and>
        on_schedule p (if flt env 0 = None then 0 else Suc n) (clk env 0) xs
    | ReclaimTick env \<Rightarrow> clk env 0 \<le> t + pl_renew_interval p \<and> on_schedule p n t xs)"

definition leased :: "pool \<Rightarrow> nat \<Rightarrow> gotime \<Rightarrow> job_row \<Rightarrow> bool" where
  "leased p n t r \<longleftrightarrow> jr_state r = StateRunning \<and>
     (\<exists>l. jr_lease_until r = Some l \<and> Millis (t + pl_lease p - int n * pl_renew_interval p) \<le> l)"

lemma renew_tick_row:
  assumes "queue_inv q" "job_by i (q_table q) = Some r" "jr_state r = StateRunning"
  shows "job_by i (q_table (renew_tick False env p i q)) = Some (if flt env 0 = None
    then r\<lparr>jr_lease_until := Some (Millis (clk env 0 + pl_lease p)), jr_updated_at := Millis (clk env 1)\<rparr> else r)"
proof -
  have ok: "jobs_ok (q_table q)" using assms(1) by auto
  show ?thesis
    using assms(2,3) row_by_SomeD[OF assms(2)]
    by (cases "flt env 0") (simp_all add: renew_tick_def Let_def ExtendLease_ok[OF ok] row_by_sql_update)
qed

lemma side_by_side_keeps:
  assumes "queue_inv q" "job_by i (q_table q) = Some r" "leased p n t r" "n \<le> 2" "on_schedule p n t xs"
    "3 * pl_renew_interval p \<le> pl_lease p" "0 \<le> pl_renew_interval p"
  shows "\<exists>r'. job_by i (q_table (side_by_side p i xs q)) = Some r' \<and> jr_state r' = StateRunning \<and>
    jr_attempts r' = jr_attempts r \<and> jr_worker r' = jr_worker r"
  using assms(1-5)
proof (induction xs arbitrary: q r n t)
  case Nil
  then show ?case by (simp add: leased_def)
next
  case (Cons x xs)
  from Cons.prems obtain l where l: "jr_state r = StateRunning" "jr_lease_until r = Some l"
    "Millis (t + pl_lease p - int n * pl_renew_interval p) \<le> l" by (auto simp: leased_def)
  have n: "int n * pl_renew_interval p \<le> 2 * pl_renew_interval p"
    using Cons.prems(4) assms(7) by (intro mult_right_mono) simp_all
  show ?case
  proof (cases x)
    case (RenewTick env)
    let ?q = "renew_tick False env p i q" and ?n = "if flt env 0 = None then 0 else Suc n"
    obtain r1 where r1: "job_by i (q_table ?q) = Some r1" "r1 = (if flt env 0 = None then
        r\<lparr>jr_lease_until := Some (Millis (clk env 0 + pl_lease p)), jr_updated_at := Millis (clk env 1)\<rparr> else r)"
      using renew_tick_row[OF Cons.prems(1,2) l(1)] by blast
    have t: "clk env 0 \<le> t + pl_renew_interval p" "flt env 0 \<noteq> None \<Longrightarrow> n < 2" "on_schedule p ?n (clk env 0) xs"
      using Cons.prems(5) RenewTick by auto
    have "Millis (clk env 0 + pl_lease p - int (Suc n) * pl_renew_interval p) \<le>
        Millis (t + pl_lease p - int n * pl_renew_interval p)"
      using t(1) by (intro Millis_mono) (simp add: algebra_simps)
    then have "leased p ?n (clk env 0) r1" using l r1(2) by (auto simp: leased_def)
    moreover have "?n \<le> 2" using t(2) by auto
    ultimately obtain r' where "job_by i (q_table (side_by_side p i xs ?q)) = Some r' \<and> jr_state r' = StateRunning \<and>
        jr_attempts r' = jr_attempts r1 \<and> jr_worker r' = jr_worker r1"
      using Cons.IH[OF renew_tick_inv[OF Cons.prems(1)] r1(1) _ _ t(3)] by blast
    then show ?thesis using RenewTick r1(2) by auto
  next
    case (ReclaimTick env)
    have t: "clk env 0 \<le> t + pl_renew_interval p" "on_schedule p n t xs" using Cons.prems(5) ReclaimTick by auto
    have "Millis (clk env 0) \<le> Millis (t + pl_lease p - int n * pl_renew_interval p)"
      using t(1) n assms(6) by (intro Millis_mono) simp
    then have "\<not> lease_expired (Some (Millis (clk env 0))) r" using l by (simp add: lease_expired_def)
    then have "job_by i (q_table (snd (reclaim False env q))) = Some r"
      using reclaim_change(2)[OF Cons.prems(1,2)] by blast
    then show ?thesis
      using Cons.IH[OF reclaim_inv[OF Cons.prems(1)] _ Cons.prems(3,4) t(2)] ReclaimTick by simp
  qed
qed

lemma NewPool_intervals:
  "0 \<le> pl_renew_interval (NewPool cfg)" "3 * pl_renew_interval (NewPool cfg) \<le> pl_lease (NewPool cfg)"
  by (simp_all add: NewPool_def Let_def pos_imp_zdiv_nonneg_iff)

text \<open>A lease of one or two nanoseconds is a valid setting, but has no interval to renew it in.\<close>

lemma tiny_lease_has_no_interval:
  "0 < jc_lease_duration cfg \<Longrightarrow> jc_lease_duration cfg < 3 \<Longrightarrow> pl_renew_interval (NewPool cfg) = 0"
  by (simp add: NewPool_def Let_def)

text \<open>C4. A worker that lives keeps the job it claimed: as long as the renewals come at the pool's
  interval and no three in a row fail, no tick of the reclaimer takes the job away, and it stays
  running for this worker at the attempt it was claimed with.\<close>

theorem renewed_lease_keeps_the_job:
  assumes "queue_inv q" "claim False env w p q = (Inr (Some j), q1)"
    "pl_lease p = pl_lease (NewPool cfg)" "pl_renew_interval p = pl_renew_interval (NewPool cfg)"
    "on_schedule p 0 (clk env 0) xs"
  shows "\<exists>r. job_by (job_id j) (q_table (side_by_side p (job_id j) xs q1)) = Some r \<and>
    jr_state r = StateRunning \<and> jr_worker r = w \<and> jr_attempts r = job_attempts j"
  using assms(1,2)
proof (cases rule: claim_elim[case_names same job])
  case (job r f)
  have "job_by (jr_id r) (q_table q1) = Some (f r)" using job by (simp add: row_after_id_update)
  moreover have "leased p 0 (clk env 0) (f r)" using job(3) by (simp add: leased_def)
  moreover have "queue_inv q1" using claim_inv[OF assms(1), of False env w p] assms(2) by simp
  ultimately show ?thesis
    using side_by_side_keeps[of q1 "jr_id r" "f r" p 0 "clk env 0" xs] assms(3,4,5) NewPool_intervals[of cfg] job(3,4)
    by auto
qed simp

lemma renewed_lease_keeps_the_job_witness:
  "\<exists>j q1 r. claim False (calm 0) ''worker-0'' (demo_pool (Returned None)) (NewQueue [demo_row]) = (Inr (Some j), q1) \<and>
     job_by (job_id j) (q_table (side_by_side (demo_pool (Returned None)) (job_id j)
       [RenewTick (calm (5 * minute)), ReclaimTick (calm (10 * minute)), RenewTick (calm (10 * minute)),
        ReclaimTick (calm (15 * minute))] q1)) = Some r \<and> jr_state r = StateRunning"
proof -
  let ?p = "demo_pool (Returned None)"
  let ?cfg = "\<lparr>jc_workers = 2, jc_poll_interval = 2 * second, jc_lease_duration = 15 * minute, jc_max_attempts = 3\<rparr>"
  have inv: "queue_inv (NewQueue [demo_row])" by (simp add: queue_inv_New demo_inv)
  have room: "attempts_room (q_table (NewQueue [demo_row]))" by (simp add: attempts_room_def demo_sel)
  obtain j q1 where c: "claim False (calm 0) ''worker-0'' ?p (NewQueue [demo_row]) = (Inr (Some j), q1)"
    by (rule claim_cases[OF inv room calm_sel(2)[of 0 0], where w = "''worker-0''" and p = ?p])
      (auto simp: demo_sel Millis_def runnable_def)
  have i: "pl_renew_interval ?p = pl_renew_interval (NewPool ?cfg)" "pl_lease ?p = pl_lease (NewPool ?cfg)"
    "pl_renew_interval ?p = 5 * minute"
    by (simp_all add: demo_pool_def Register_def NewPool_def Let_def)
  show ?thesis
    using c renewed_lease_keeps_the_job[OF inv c i(2,1), of "[RenewTick (calm (5 * minute)), ReclaimTick (calm (10 * minute)),
      RenewTick (calm (10 * minute)), ReclaimTick (calm (15 * minute))]"] i(3) by auto
qed

end
