(* ===== verification/Drain.thy ===== *)
theory Drain
  imports JobPool
begin

text \<open>
  The loop of \<open>Pool.worker\<close> (\<open>internal/jobs/worker.go\<close>) between two idle waits: claim, execute, and
  again, until a claim finds nothing or fails. Round \<open>n\<close> has the environment \<open>envs n\<close>. The loop has no
  bound of its own, so it is a partial function; that it ends is a theorem.
\<close>

partial_function (option) drain ::
  "pool \<Rightarrow> (nat \<Rightarrow> callenv) \<Rightarrow> (nat \<Rightarrow> nat) \<Rightarrow> string \<Rightarrow> nat \<Rightarrow> queue \<Rightarrow> (nat \<times> queue) option" where
  "drain p envs rnd name n q =
     (case claim False (envs n) name p q of
        (Inr (Some j), q') \<Rightarrow>
          drain p envs rnd name (Suc n) (snd (execute p False (envs n) (\<lambda>_. envs n) (rnd n) j q'))
      | (_, q') \<Rightarrow> Some (n, q'))"

subsection \<open>A job's execution touches no other job\<close>

lemma commit_other:
  assumes "\<And>r. P r \<Longrightarrow> jr_id r = k" "\<And>r. jr_id (f r) = jr_id r" "i \<noteq> k"
  shows "job_by i (snd (commit_jobs t (sql_update P f t) v)) = job_by i t"
proof -
  have "job_by i (sql_update P f t) = job_by i t"
    using assms by (cases "job_by i t") (auto simp: row_by_sql_update dest: row_by_SomeD)
  then show ?thesis by (cases rule: commit_cases[of "sql_update P f t" t v]) auto
qed

lemma stmts_other:
  assumes "i \<noteq> k"
  shows "job_by i (snd (UpdateJobProgress p n u k t)) = job_by i t"
    "job_by i (snd (RecordJobUsage a b c u k t)) = job_by i t"
    "job_by i (snd (CompleteJob n1 f u k t)) = job_by i t"
    "job_by i (snd (FailJob n1 f u k t)) = job_by i t"
    "job_by i (snd (RetryJob n1 ra u k t)) = job_by i t"
  using assms unfolding UpdateJobProgress_def RecordJobUsage_def CompleteJob_def FailJob_def RetryJob_def
  by (auto intro!: commit_other[where k = k])

lemma on_table_other:
  assumes "on_table f st q = (x, q')" "\<And>t. job_by i (snd (st t)) = job_by i t"
  shows "job_by i (q_table q') = job_by i (q_table q)"
  using assms by (cases f) auto

lemma Progress_other:
  assumes "Progress env f n j q = (e, j', q')" "i \<noteq> job_id j"
  shows "job_id j' = job_id j \<and> job_by i (q_table q') = job_by i (q_table q)"
  using assms stmts_other(1)[OF assms(2)] unfolding Progress_def Let_def
  by (cases "flt env 0") (auto split: sum.splits)

lemma Usage_other:
  assumes "Usage env a b c j q = (e, j', q')" "i \<noteq> job_id j"
  shows "job_id j' = job_id j \<and> job_by i (q_table q') = job_by i (q_table q)"
  using assms stmts_other(2)[OF assms(2)] unfolding Usage_def Let_def
  by (cases "flt env 0") (auto split: sum.splits)

lemma run_hprog_other:
  assumes "run_hprog h envs n j q = (res, j', q')" "i \<noteq> job_id j"
  shows "job_id j' = job_id j \<and> job_by i (q_table q') = job_by i (q_table q)"
  using assms
proof (induction h arbitrary: n j q)
  case (HProgress f m k)
  obtain e j1 q1 where p: "Progress (envs n) f m j q = (e, j1, q1)" by (metis prod_cases3)
  with HProgress Progress_other[OF p HProgress.prems(2)] show ?case by fastforce
next
  case (HUsage a b c k)
  obtain e j1 q1 where p: "Usage (envs n) a b c j q = (e, j1, q1)" by (metis prod_cases3)
  with HUsage Usage_other[OF p HUsage.prems(2)] show ?case by fastforce
qed simp

lemma finish_other:
  assumes "i \<noteq> job_id j"
  shows "job_by i (q_table (snd (finishSucceeded c env j q))) = job_by i (q_table q)"
    "job_by i (q_table (snd (finishFailed c env m j q))) = job_by i (q_table q)"
    "job_by i (q_table (snd (retry c env m d j q))) = job_by i (q_table q)"
  unfolding finishSucceeded_def finishFailed_def retry_def Let_def
  by (auto dest: on_table_other[OF _ stmts_other(3)[OF assms]] on_table_other[OF _ stmts_other(4)[OF assms]]
      on_table_other[OF _ stmts_other(5)[OF assms]] split: prod.splits sum.splits)

lemma execute_other:
  assumes "i \<noteq> job_id j"
  shows "job_by i (q_table (snd (execute p False env envs rnd j q))) = job_by i (q_table q)"
proof (cases "handlerFor p (job_kind j)")
  case None
  then show ?thesis by (simp add: execute_def finish_other[OF assms])
next
  case (Some h)
  obtain res j' q2 where e: "run_hprog (h j) envs 0 j (publish_job j q) = (res, j', q2)" by (metis prod_cases3)
  from run_hprog_other[OF e assms] have "job_id j' = job_id j" "job_by i (q_table q2) = job_by i (q_table q)"
    by simp_all
  then show ?thesis using assms
    by (simp add: execute_def Some Let_def e settle_def finish_other split: option.split)
qed

subsection \<open>One round\<close>

text \<open>The calls of the loop succeed, and all of them happen within three seconds from \<open>T\<close>.\<close>

definition prompt :: "gotime \<Rightarrow> (nat \<Rightarrow> callenv) \<Rightarrow> bool" where
  "prompt T envs \<longleftrightarrow> (\<forall>n i. flt (envs n) i = None \<and> T \<le> clk (envs n) i \<and> clk (envs n) i \<le> T + 3 * second)"

definition due :: "gotime \<Rightarrow> jobs_table \<Rightarrow> string set" where
  "due T t = jr_id ` {r \<in> set t. runnable (Millis (T + 3 * second)) r}"

definition room_for :: "nat \<Rightarrow> jobs_table \<Rightarrow> bool" where
  "room_for n t \<longleftrightarrow> (\<forall>r \<in> set t. jr_attempts r + int n < 2 ^ 63 - 1)"

lemma due_iff:
  assumes "jobs_ok t"
  shows "i \<in> due T t \<longleftrightarrow> (\<exists>r. job_by i t = Some r \<and> runnable (Millis (T + 3 * second)) r)"
  using jobs.mem_iff_row[OF assms] by (auto simp: due_def)

lemma finite_due: "finite (due T t)"
  by (simp add: due_def)

lemma runnable_later: "runnable (Millis t) r \<Longrightarrow> t \<le> u \<Longrightarrow> runnable (Millis u) r"
  using Millis_mono[of t u] by (auto simp: runnable_def)

lemma execute_row:
  assumes inv: "queue_inv q" and r: "job_by (job_id j) (q_table q) = Some r" "jr_state r = StateRunning"
    and j: "job_attempts j = jr_attempts r" "job_max_attempts j = jr_max_attempts r"
    and calm: "flt env 0 = None" "T \<le> clk env 0" and slow: "\<And>a x. 3 * second + millisecond \<le> pl_backoff p a x"
  shows "\<exists>r'. job_by (job_id j) (q_table (snd (execute p False env envs rnd j q))) = Some r' \<and>
    \<not> runnable (Millis (T + 3 * second)) r' \<and> jr_attempts r' = jr_attempts r"
proof (cases "handlerFor p (job_kind j)")
  case None
  then show ?thesis
    using missing_handler_fails_job[OF inv r(1) calm(1) None] by (fastforce simp: runnable_def)
next
  case (Some h)
  let ?err = "runHandler (fst (run_hprog (h j) envs 0 j (publish_job j q)))"
  have "\<exists>r'. job_by (job_id j) (q_table (snd (execute p False env envs rnd j q))) = Some r' \<and>
      settled p False env rnd ?err r r'"
  proof -
    obtain res j' q2 where e: "run_hprog (h j) envs 0 j (publish_job j q) = (res, j', q2)" by (metis prod_cases3)
    note c = run_hprog_core[OF e, of "job_id j"]
    have inv2: "queue_inv q2" using run_hprog_inv[OF publish_job_inv[OF inv], of "h j" envs 0 j j] e by simp
    obtain r1 where r1: "job_by (job_id j') (q_table q2) = Some r1" "core r1 = core r"
      using c r(1) by (auto simp: same_job_def)
    have "\<exists>r'. job_by (job_id j') (q_table (snd (settle p False env rnd (runHandler res) j' q2))) = Some r' \<and>
        settled p False env rnd (runHandler res) r1 r'"
      using settle_row[OF inv2 r1(1) _ calm(1)] r1 r j c by (simp add: core_def same_job_def)
    moreover have "settled p False env rnd x r1 r' = settled p False env rnd x r r'" for x r'
      using r1(2) by (simp add: settled_def core_def split: option.split)
    ultimately show ?thesis using Some c by (simp add: execute_def Let_def e same_job_def)
  qed
  moreover have "\<not> runnable (Millis (T + 3 * second)) r' \<and> jr_attempts r' = jr_attempts r"
    if "settled p False env rnd ?err r r'" for r'
  proof -
    have "T + 3 * second + millisecond \<le> clk env 0 + pl_backoff p (jr_attempts r) rnd"
      using calm(2) slow[of "jr_attempts r" rnd] by linarith
    then have "Millis (T + 3 * second) < Millis (clk env 0 + pl_backoff p (jr_attempts r) rnd)"
      using Millis_mono Millis_add_ms[of "T + 3 * second" 1] by fastforce
    then show ?thesis using that
      by (auto simp: settled_def runnable_def split: option.splits if_splits)
  qed
  ultimately show ?thesis by blast
qed

text \<open>What follows when a round has changed the row of one job only.\<close>

lemma same_ids:
  assumes "\<And>i. i \<noteq> k \<Longrightarrow> job_by i t' = job_by i t" "job_by k t = Some r" "job_by k t' = Some r1"
  shows "jr_id ` set t' = jr_id ` set t"
proof -
  have "i \<in> jr_id ` set t' \<longleftrightarrow> i \<in> jr_id ` set t" for i
    using assms(1)[of i] assms(2,3) row_by_None_iff[of jr_id i t'] row_by_None_iff[of jr_id i t]
    by (cases "i = k") auto
  then show ?thesis by blast
qed

lemma fewer_due:
  assumes "jobs_ok t" "jobs_ok t'" "\<And>i. i \<noteq> k \<Longrightarrow> job_by i t' = job_by i t" "job_by k t = Some r"
    "k \<in> due T t" "job_by k t' = Some r1" "\<not> runnable (Millis (T + 3 * second)) r1"
  shows "card (due T t') < card (due T t)"
proof -
  have "due T t' \<subseteq> due T t - {k}"
    using assms(3,6,7) by (auto simp: due_iff[OF assms(1)] due_iff[OF assms(2)]) (metis option.inject)
  then show ?thesis using assms(5) finite_due by (intro psubset_card_mono) auto
qed

lemma room_left:
  assumes "jobs_ok t" "jobs_ok t'" "room_for (card (due T t)) t" "card (due T t') < card (due T t)"
    "\<And>i. i \<noteq> k \<Longrightarrow> job_by i t' = job_by i t" "job_by k t = Some r" "job_by k t' = Some r1"
    "jr_attempts r1 = jr_attempts r + 1"
  shows "room_for (card (due T t')) t'"
  unfolding room_for_def
proof
  fix x assume x: "x \<in> set t'"
  then have row: "job_by (jr_id x) t' = Some x" using jobs.row_of_mem[OF assms(2)] by simp
  obtain y where "y \<in> set t" "jr_attempts x \<le> jr_attempts y + 1"
  proof (cases "jr_id x = k")
    case True
    then show thesis using row assms(6,7,8) by (intro that[of r]) (auto dest: row_by_SomeD)
  next
    case False
    then show thesis using row assms(5) jobs.mem_iff_row[OF assms(1)] by (intro that[of x]) auto
  qed
  then show "jr_attempts x + int (card (due T t')) < 2 ^ 63 - 1"
    using assms(3,4) by (force simp: room_for_def)
qed

text \<open>A round that finds a job leaves one job less that is due, and loses none.\<close>

lemma drain_round:
  assumes inv: "queue_inv q" and room: "room_for (card (due T (q_table q))) (q_table q)"
    and env: "prompt T envs" and slow: "\<And>a x. 3 * second + millisecond \<le> pl_backoff p a x"
  obtains (idle) "claim False (envs n) w p q = (Inr None, q)" "\<forall>r \<in> set (q_table q). \<not> runnable (Millis T) r"
  | (busy) j q' q1 where "claim False (envs n) w p q = (Inr (Some j), q')"
      "q1 = snd (execute p False (envs n) (\<lambda>_. envs n) (rnd n) j q')" "queue_inv q1"
      "card (due T (q_table q1)) < card (due T (q_table q))" "room_for (card (due T (q_table q1))) (q_table q1)"
      "jr_id ` set (q_table q1) = jr_id ` set (q_table q)"
proof -
  let ?t = "q_table q" and ?now = "clk (envs n) 0"
  have calm: "flt (envs n) 0 = None" "T \<le> ?now" "?now \<le> T + 3 * second" using env by (auto simp: prompt_def)
  have ok: "jobs_ok ?t" using inv by auto
  have ar: "attempts_room ?t" using room by (force simp: attempts_room_def room_for_def)
  show thesis
  proof (cases rule: claim_cases[OF inv ar calm(1), where w = w and p = p, case_names none job])
    case none
    then show thesis using calm(2) by (intro idle) (auto dest: runnable_later)
  next
    case (job r r' q')
    let ?j = "fromRow r'" and ?q1 = "snd (execute p False (envs n) (\<lambda>_. envs n) (rnd n) (fromRow r') q')"
    have r: "job_by (jr_id r) ?t = Some r" using jobs.row_of_mem[OF ok job(1)] .
    have r': "job_id ?j = jr_id r" "job_attempts ?j = jr_attempts r'" "job_max_attempts ?j = jr_max_attempts r'"
      "jr_state r' = StateRunning" "jr_attempts r' = jr_attempts r + 1"
      using job(4) by simp_all
    have q': "job_by i (q_table q') = map_option (\<lambda>x. if i = jr_id r then r' else x) (job_by i ?t)" for i
    proof -
      have "job_by i (q_table q') = map_option (\<lambda>x. if i = jr_id r then claim_row w (Some (Millis (?now + pl_lease p)))
          (Some (Millis ?now)) (Millis ?now) x else x) (job_by i ?t)"
        unfolding job(5) using row_after_id_update[of "claim_row w (Some (Millis (?now + pl_lease p)))
          (Some (Millis ?now)) (Millis ?now)"] by simp
      then show ?thesis using r job(4) by (cases "i = jr_id r") simp_all
    qed
    have inv': "queue_inv q'" using claim_inv[OF inv, of False "envs n" w p] job(6) by simp
    have row': "job_by (job_id ?j) (q_table q') = Some r'" using q' r r'(1) by simp
    obtain r1 where r1: "job_by (jr_id r) (q_table ?q1) = Some r1" "\<not> runnable (Millis (T + 3 * second)) r1"
      "jr_attempts r1 = jr_attempts r + 1"
      using execute_row[OF inv' row' r'(4) r'(2,3) calm(1,2) slow, where envs = "\<lambda>_. envs n" and rnd = "rnd n"] r'(1,5)
      by auto
    have others: "job_by i (q_table ?q1) = job_by i ?t" if "i \<noteq> jr_id r" for i
      using execute_other[of i ?j p "envs n" "\<lambda>_. envs n" "rnd n" q'] that r'(1) q' by (simp add: option.map_ident)
    have inv1: "queue_inv ?q1" by (rule execute_inv[OF inv'])
    have ok1: "jobs_ok (q_table ?q1)" using inv1 by auto
    have "jr_id r \<in> due T ?t" using r job(2) calm(3) runnable_later by (auto simp: due_iff[OF ok])
    from fewer_due[OF ok ok1 others r this r1(1,2)] have less: "card (due T (q_table ?q1)) < card (due T ?t)" .
    show thesis
      using busy[OF job(6) refl inv1 less room_left[OF ok ok1 room less others r r1(1,3)] same_ids[OF others r r1(1)]] .
  qed
qed

subsection \<open>Properties\<close>

text \<open>C12. The worker's loop ends when it is prompt, that is, when no statement fails and all the clock
  readings of the loop lie within three seconds: provided a failed job is put off for longer than
  that and no attempt counter is near the end of its 64 bits, it claims at most as many jobs as are
  due in that time, whatever their handlers do, then finds none left that was due at the start, and
  waits. No job is lost on the way.\<close>

theorem worker_drains_the_queue:
  assumes "queue_inv q" "room_for (card (due T (q_table q))) (q_table q)" "prompt T envs"
    and "\<And>a x. 3 * second + millisecond \<le> pl_backoff p a x"
  shows "\<exists>m q'. drain p envs rnd w n q = Some (m, q') \<and> m \<le> n + card (due T (q_table q)) \<and>
    (\<forall>r \<in> set (q_table q'). \<not> runnable (Millis T) r) \<and> jr_id ` set (q_table q') = jr_id ` set (q_table q)"
  using assms(1,2)
proof (induction "card (due T (q_table q))" arbitrary: q n rule: less_induct)
  case less
  show ?case
  proof (cases rule: drain_round[OF less.prems assms(3,4), where n = n and w = w and rnd = rnd, case_names idle busy])
    case idle
    then show ?thesis by (subst drain.simps) simp
  next
    case (busy j q' q1)
    from less.hyps[OF busy(4,3,5), of "Suc n"] obtain m q2 where
      "drain p envs rnd w (Suc n) q1 = Some (m, q2)" "m \<le> Suc n + card (due T (q_table q1))"
      "\<forall>r \<in> set (q_table q2). \<not> runnable (Millis T) r" "jr_id ` set (q_table q2) = jr_id ` set (q_table q)"
      using busy(6) by auto
    then show ?thesis using busy(1,2,4) by (subst drain.simps) auto
  qed
qed

lemma worker_drains_the_queue_witness:
  "\<exists>m q'. drain ((demo_pool (Returned (Some (HErr ''no'' False))))\<lparr>pl_backoff := ExponentialBackoff\<rparr>) (\<lambda>_. calm 0)
     (\<lambda>_. 0) ''worker-0'' 0 (NewQueue [demo_row]) = Some (m, q') \<and> m \<le> 1"
proof -
  have d: "due 0 (q_table (NewQueue [demo_row])) \<subseteq> {''j1''}" by (auto simp: due_def demo_sel)
  then have c: "card (due 0 (q_table (NewQueue [demo_row]))) \<le> 1"
    using card_mono[OF _ d] by simp
  then have room: "room_for (card (due 0 (q_table (NewQueue [demo_row])))) (q_table (NewQueue [demo_row]))"
    by (auto simp: room_for_def demo_sel)
  have slow: "3 * second + millisecond \<le> pl_backoff (p\<lparr>pl_backoff := ExponentialBackoff\<rparr>) a x" for p a x
  proof -
    have "0 < backoff_delay a div 4" using backoff_delay_bounds[of a] by linarith
    then have "int x mod (backoff_delay a div 4) < backoff_delay a div 4" by simp
    then show ?thesis using backoff_delay_bounds[of a] by (simp add: ExponentialBackoff_def Let_def) linarith
  qed
  have inv: "queue_inv (NewQueue [demo_row])" by (simp add: queue_inv_New demo_inv)
  have pr: "prompt 0 (\<lambda>_. calm 0)" by (simp add: prompt_def)
  obtain m q' where "drain ((demo_pool (Returned (Some (HErr ''no'' False))))\<lparr>pl_backoff := ExponentialBackoff\<rparr>)
      (\<lambda>_. calm 0) (\<lambda>_. 0) ''worker-0'' 0 (NewQueue [demo_row]) = Some (m, q')"
    "m \<le> 0 + card (due 0 (q_table (NewQueue [demo_row])))"
    using worker_drains_the_queue[OF inv room pr slow] by blast
  then show ?thesis using c by fastforce
qed

end
