(* ===== verification/Sha256.thy ===== *)
theory Sha256
  imports Prelude "HOL-Library.Word"
begin

text \<open>
  The hash and the text encodings the program takes from Go's standard library: SHA-256 over byte
  strings and lowercase hexadecimal (\<open>crypto/sha256\<close>, \<open>encoding/hex\<close>). Byte strings are
  HOL strings, a character being a byte. \<open>sha256\<close> is the algorithm itself, so it computes; the
  proofs only use the length of its result, and nothing assumes that it is collision free.
\<close>

unbundle bit_operations_syntax

type_synonym w32 = "32 word"

subsection \<open>SHA-256\<close>

text \<open>
  The round constants and the initial state are the first 32 bits of the fractional parts of the
  cube roots of the first 64 primes and of the square roots of the first eight: the low word of
  an integer root, found bit by bit.
\<close>

fun root_from :: "nat \<Rightarrow> nat \<Rightarrow> nat \<Rightarrow> nat \<Rightarrow> nat" where
  "root_from k n 0 r = r"
| "root_from k n (Suc b) r = root_from k n b (if (r + 2 ^ b) ^ k \<le> n then r + 2 ^ b else r)"

definition fraction_word :: "nat \<Rightarrow> nat \<Rightarrow> w32" where
  "fraction_word k p = of_nat (root_from k (p * 2 ^ (32 * k)) 38 0)"

definition sha_primes :: "nat list" where
  "sha_primes =
     [2, 3, 5, 7, 11, 13, 17, 19, 23, 29, 31, 37, 41, 43, 47, 53, 59, 61, 67, 71, 73, 79, 83, 89,
      97, 101, 103, 107, 109, 113, 127, 131, 137, 139, 149, 151, 157, 163, 167, 173, 179, 181, 191,
      193, 197, 199, 211, 223, 227, 229, 233, 239, 241, 251, 257, 263, 269, 271, 277, 281, 283, 293,
      307, 311]"

definition round_constants :: "w32 list" where
  "round_constants = map (fraction_word 3) sha_primes"

definition initial_state :: "w32 list" where
  "initial_state = map (fraction_word 2) (take 8 sha_primes)"

definition ror :: "nat \<Rightarrow> w32 \<Rightarrow> w32" where
  "ror n x = (drop_bit n x) OR (push_bit (32 - n) x)"

definition bytes_of_w32 :: "w32 \<Rightarrow> string" where
  "bytes_of_w32 x = map (\<lambda>n. char_of (unat (drop_bit n x AND 0xff))) [24, 16, 8, 0]"

definition bytes_of_w64 :: "64 word \<Rightarrow> string" where
  "bytes_of_w64 x = map (\<lambda>n. char_of (unat (drop_bit n x AND 0xff))) [56, 48, 40, 32, 24, 16, 8, 0]"

fun words_of_bytes :: "string \<Rightarrow> w32 list" where
  "words_of_bytes (a # b # c # d # s) =
     (push_bit 24 (of_nat (of_char a)) OR push_bit 16 (of_nat (of_char b)) OR
      push_bit 8 (of_nat (of_char c)) OR of_nat (of_char d)) # words_of_bytes s"
| "words_of_bytes _ = []"

text \<open>The message, a one bit, zeros, and its length in bits as 64 bits: a whole number of blocks.\<close>

definition pad :: "string \<Rightarrow> string" where
  "pad m = m @ [CHR 0x80] @ replicate ((119 - length m mod 64) mod 64) (CHR 0x00) @
     bytes_of_w64 (8 * of_nat (length m))"

text \<open>The message schedule, newest word first.\<close>

fun extend :: "nat \<Rightarrow> w32 list \<Rightarrow> w32 list" where
  "extend 0 ws = ws"
| "extend (Suc n) ws =
     (let x = ws ! 14; y = ws ! 1;
          s0 = ror 7 x XOR ror 18 x XOR drop_bit 3 x;
          s1 = ror 17 y XOR ror 19 y XOR drop_bit 10 y
      in extend n ((ws ! 15 + s0 + ws ! 6 + s1) # ws))"

fun sha_round :: "w32 list \<Rightarrow> w32 \<times> w32 \<Rightarrow> w32 list" where
  "sha_round [a, b, c, d, e, f, g, h] (k, w) =
     (let s1 = ror 6 e XOR ror 11 e XOR ror 25 e;
          ch = (e AND f) XOR (NOT e AND g);
          t1 = h + s1 + ch + k + w;
          s0 = ror 2 a XOR ror 13 a XOR ror 22 a;
          maj = (a AND b) XOR (a AND c) XOR (b AND c)
      in [t1 + (s0 + maj), a, b, c, d + t1, e, f, g])"
| "sha_round st _ = st"

definition compress :: "w32 list \<Rightarrow> w32 list \<Rightarrow> w32 list" where
  "compress block st =
     map2 (+) st (foldl sha_round st (zip round_constants (rev (extend 48 (rev block)))))"

fun sha_blocks :: "nat \<Rightarrow> w32 list \<Rightarrow> w32 list \<Rightarrow> w32 list" where
  "sha_blocks 0 ws st = st"
| "sha_blocks (Suc n) ws st = sha_blocks n (drop 16 ws) (compress (take 16 ws) st)"

definition sha256 :: "string \<Rightarrow> string" where
  "sha256 m =
     (let p = pad m
      in concat (map bytes_of_w32 (sha_blocks (length p div 64) (words_of_bytes p) initial_state)))"

lemma length_bytes_of_w32 [simp]: "length (bytes_of_w32 x) = 4"
  by (simp add: bytes_of_w32_def)

lemma length_sha_round [simp]: "length (sha_round st kw) = length st"
  by (induction st kw rule: sha_round.induct) (simp_all add: Let_def)

lemma length_foldl_round: "length (foldl sha_round st kws) = length st"
  by (induction kws arbitrary: st) simp_all

lemma length_compress [simp]: "length (compress b st) = length st"
  by (simp add: compress_def length_foldl_round)

lemma length_sha_blocks [simp]: "length (sha_blocks n ws st) = length st"
  by (induction n arbitrary: ws st) simp_all

lemma length_sha256 [simp]: "length (sha256 m) = 32"
proof -
  have "length (concat (map bytes_of_w32 ws)) = 4 * length ws" for ws
    by (induction ws) simp_all
  then show ?thesis by (simp add: sha256_def Let_def initial_state_def sha_primes_def)
qed

lemma pad_whole_blocks: "length (pad m) mod 64 = 0"
proof -
  define q r where "q = length m div 64" and "r = length m mod 64"
  have m: "length m = 64 * q + r" and r: "r < 64" by (simp_all add: q_def r_def)
  show ?thesis
  proof (cases "r \<le> 55")
    case True
    then have "(119 - r) mod 64 = 55 - r" by (simp add: mod_if)
    then have "length (pad m) = 64 * (q + 1)"
      using m True by (simp add: pad_def bytes_of_w64_def r_def[symmetric])
    then show ?thesis by simp
  next
    case False
    then have "(119 - r) mod 64 = 119 - r" by simp
    then have "length (pad m) = 64 * (q + 2)"
      using m r False by (simp add: pad_def bytes_of_w64_def r_def[symmetric])
    then show ?thesis by simp
  qed
qed

subsection \<open>Hexadecimal\<close>

definition hex_digit :: "nat \<Rightarrow> char" where
  "hex_digit n = ''0123456789abcdef'' ! (n mod 16)"

definition hex :: "string \<Rightarrow> string" where
  "hex s = concat (map (\<lambda>c. [hex_digit (of_char c div 16), hex_digit (of_char c)]) s)"

definition is_hex :: "char \<Rightarrow> bool" where
  "is_hex c \<longleftrightarrow> CHR ''0'' \<le> c \<and> c \<le> CHR ''9'' \<or> CHR ''a'' \<le> c \<and> c \<le> CHR ''f''"

lemma hex_digit_is_hex: "is_hex (hex_digit n)"
proof -
  have "hex_digit n \<in> set ''0123456789abcdef''"
    unfolding hex_digit_def by (rule nth_mem) simp
  moreover have "\<forall>c \<in> set ''0123456789abcdef''. is_hex c" by code_simp
  ultimately show ?thesis by blast
qed

lemma hex_is_hex: "c \<in> set (hex s) \<Longrightarrow> is_hex c"
  by (auto simp: hex_def hex_digit_is_hex)

lemma length_hex [simp]: "length (hex s) = 2 * length s"
  by (induction s) (simp_all add: hex_def)

lemma hex_digit_inject: "n < 16 \<Longrightarrow> m < 16 \<Longrightarrow> hex_digit n = hex_digit m \<longleftrightarrow> n = m"
proof -
  have "distinct ''0123456789abcdef''" by code_simp
  then show "n < 16 \<Longrightarrow> m < 16 \<Longrightarrow> hex_digit n = hex_digit m \<longleftrightarrow> n = m"
    by (simp add: hex_digit_def nth_eq_iff_index_eq)
qed

text \<open>Different bytes have different hexadecimal texts.\<close>

lemma hex_inject: "hex s = hex t \<longleftrightarrow> s = t"
proof (induction s arbitrary: t)
  case Nil
  then show ?case by (cases t) (simp_all add: hex_def)
next
  case (Cons c s)
  show ?case
  proof (cases t)
    case Nil
    then show ?thesis by (simp add: hex_def)
  next
    case (Cons d t')
    have "of_char x < (256::nat)" for x :: char using of_char_mod_256[of x, where 'a = nat]
      by (metis mod_less_divisor zero_less_numeral)
    then have lt: "of_char x div 16 < (16::nat)" for x :: char by (simp add: less_mult_imp_div_less)
    have low: "hex_digit (of_char x) = hex_digit (of_char x mod 16)" for x :: char
      by (simp add: hex_digit_def)
    have "hex_digit (of_char c div 16) = hex_digit (of_char d div 16) \<and> hex_digit (of_char c) = hex_digit (of_char d)
      \<longleftrightarrow> c = d"
      unfolding low[of c] low[of d]
      using lt[of c] lt[of d]
      by (simp add: hex_digit_inject) (metis div_mult_mod_eq of_char_eq_iff)
    moreover have "hex s = hex t' \<longleftrightarrow> s = t'" by (rule Cons.IH)
    ultimately show ?thesis using Cons by (auto simp: hex_def)
  qed
qed

end
