(* ===== verification/Store.thy ===== *)
theory Store
  imports Sha256 GoStrings
begin

text \<open>
  \<open>internal/store/store.go\<close>: the content-addressed blob store. A file system maps path names
  to contents and knows which directories exist and which files are read-only. Every call into
  the operating system may fail; the failures, the name of the temporary file, the point at
  which the client disconnects, and what other uploads do between \<open>Put\<close>'s check and its
  rename are inputs. \<open>Put\<close> returns the file systems it passes through as well, so that a crash
  in any of them can be talked about. The root \<open>rt\<close> is the absolute, clean path \<open>New\<close> resolved.
\<close>

subsection \<open>The file system\<close>

type_synonym bytes = string

record fsys =
  fs_files :: "string \<rightharpoonup> bytes"
  fs_dirs :: "string set"
  fs_readonly :: "string set"

datatype os_error = NotExist | OsFault string

definition fs_write :: "string \<Rightarrow> bytes \<Rightarrow> fsys \<Rightarrow> fsys" where
  "fs_write p b fs = fs\<lparr>fs_files := (fs_files fs)(p \<mapsto> b)\<rparr>"

definition fs_remove :: "string \<Rightarrow> fsys \<Rightarrow> fsys" where
  "fs_remove p fs = fs\<lparr>fs_files := (fs_files fs)(p := None), fs_readonly := fs_readonly fs - {p}\<rparr>"

definition fs_mkdir :: "string list \<Rightarrow> fsys \<Rightarrow> fsys" where
  "fs_mkdir ds fs = fs\<lparr>fs_dirs := fs_dirs fs \<union> set ds\<rparr>"

definition fs_rename :: "string \<Rightarrow> string \<Rightarrow> fsys \<Rightarrow> fsys" where
  "fs_rename p q fs = (case fs_files fs p of
      None \<Rightarrow> fs
    | Some b \<Rightarrow> fs\<lparr>fs_files := (fs_files fs)(q \<mapsto> b, p := None), fs_readonly := fs_readonly fs - {p, q}\<rparr>)"

definition fs_chmod :: "string \<Rightarrow> fsys \<Rightarrow> fsys" where
  "fs_chmod p fs = fs\<lparr>fs_readonly := insert p (fs_readonly fs)\<rparr>"

text \<open>\<open>filepath.Join\<close> of a clean absolute directory and names without separators or dots.\<close>

definition join :: "string \<Rightarrow> string list \<Rightarrow> string" where
  "join rt parts = (if rt = ''/'' then [] else rt) @ concat (map (\<lambda>x. ''/'' @ x) parts)"

subsection \<open>Digests and paths\<close>

definition digestLen :: nat where
  "digestLen = 32 * 2"

datatype store_error =
    RootRequired
  | ErrBadDigest
  | ErrBlobNotFound string
  | IoFailed string
  | Corrupt string string

definition ValidDigest :: "string \<Rightarrow> store_error option" where
  "ValidDigest digest =
     (if length digest \<noteq> digestLen then Some ErrBadDigest
      else if \<exists>c \<in> set digest. \<not> is_hex c then Some ErrBadDigest
      else None)"

definition Digest :: "bytes \<Rightarrow> string" where
  "Digest b = hex (sha256 b)"

definition pathFor :: "string \<Rightarrow> string \<Rightarrow> store_error + string" where
  "pathFor rt digest =
     (case ValidDigest digest of
        Some e \<Rightarrow> Inl e
      | None \<Rightarrow> Inr (join rt [take 2 digest, take 2 (drop 2 digest), digest]))"

text \<open>\<open>resolved\<close> is what \<open>filepath.Abs\<close> makes of the directory, or nothing when it fails.\<close>

definition New_store ::
  "string \<Rightarrow> string option \<Rightarrow> os_error option \<Rightarrow> os_error option \<Rightarrow> fsys \<Rightarrow> (store_error + string) \<times> fsys" where
  "New_store dir resolved e1 e2 fs =
     (if dir = [] then (Inl RootRequired, fs)
      else case resolved of
        None \<Rightarrow> (Inl (IoFailed ''resolve''), fs)
      | Some rt \<Rightarrow>
          if e1 \<noteq> None then (Inl (IoFailed ''create''), fs)
          else let fs1 = fs_mkdir [rt] fs in
            if e2 \<noteq> None then (Inl (IoFailed ''create temp dir''), fs1)
            else (Inr rt, fs_mkdir [join rt [''tmp'']] fs1))"

subsection \<open>Put\<close>

text \<open>
  The source of the upload: the bytes of it that reach the temporary file, and whether reading
  or writing then fails, which a disconnected client (\<open>ctxReader\<close>) brings about too.
\<close>

record reader =
  rd_data :: bytes
  rd_fails :: bool

datatype put_call = PCreate | PSync | PClose | PStat | PMkdir | PRename | PStatAgain | PChmod | PRemove

record putenv =
  pe_suffix :: string
  pe_fails :: "put_call \<Rightarrow> bool"
  pe_others :: "fsys \<Rightarrow> fsys"

record ref =
  ref_sha256 :: string
  ref_size :: nat

definition tmp_path :: "string \<Rightarrow> string \<Rightarrow> string" where
  "tmp_path rt sfx = join rt [''tmp'', ''upload-'' @ sfx]"

text \<open>The deferred clean-up of a \<open>Put\<close> that did not rename its temporary file away.\<close>

definition discard :: "putenv \<Rightarrow> string \<Rightarrow> fsys \<Rightarrow> fsys" where
  "discard env tmp fs = (if pe_fails env PRemove then fs else fs_remove tmp fs)"

definition Put :: "putenv \<Rightarrow> string \<Rightarrow> reader \<Rightarrow> fsys \<Rightarrow> (store_error + ref) \<times> fsys \<times> fsys list" where
  "Put env rt r fs =
     (if pe_fails env PCreate then (Inl (IoFailed ''create temp file''), fs, [])
      else
        let tmp = tmp_path rt (pe_suffix env); fs1 = fs_write tmp (rd_data r) fs in
        if rd_fails r then (Inl (IoFailed ''write blob''), discard env tmp fs1, [fs1])
        else if pe_fails env PSync then (Inl (IoFailed ''sync blob''), discard env tmp fs1, [fs1])
        else if pe_fails env PClose then (Inl (IoFailed ''close blob''), discard env tmp fs1, [fs1])
        else
          let digest = hex (sha256 (rd_data r));
              ref = \<lparr>ref_sha256 = digest, ref_size = length (rd_data r)\<rparr> in
          case pathFor rt digest of
            Inl e \<Rightarrow> (Inl e, discard env tmp fs1, [fs1])
          | Inr final \<Rightarrow>
              if fs_files fs1 final \<noteq> None \<and> \<not> pe_fails env PStat
                then (Inr ref, discard env tmp fs1, [fs1])
              else if pe_fails env PMkdir
                then (Inl (IoFailed ''create blob directory''), discard env tmp fs1, [fs1])
              else
                let fs2 = pe_others env (fs_mkdir
                      [join rt [take 2 digest], join rt [take 2 digest, take 2 (drop 2 digest)]] fs1) in
                if pe_fails env PRename \<or> fs_files fs2 tmp = None then
                  (if fs_files fs2 final \<noteq> None \<and> \<not> pe_fails env PStatAgain
                     then (Inr ref, discard env tmp fs2, [fs1, fs2])
                   else (Inl (IoFailed ''commit blob''), discard env tmp fs2, [fs1, fs2]))
                else
                  let fs3 = fs_rename tmp final fs2 in
                  if pe_fails env PChmod then (Inl (IoFailed ''set blob permissions''), fs3, [fs1, fs2, fs3])
                  else (Inr ref, fs_chmod final fs3, [fs1, fs2, fs3]))"

subsection \<open>Reading, deleting, verifying\<close>

definition os_open :: "os_error option \<Rightarrow> string \<Rightarrow> fsys \<Rightarrow> os_error + bytes" where
  "os_open f p fs = (case f of Some e \<Rightarrow> Inl e
     | None \<Rightarrow> (case fs_files fs p of None \<Rightarrow> Inl NotExist | Some b \<Rightarrow> Inr b))"

definition Open :: "os_error option \<Rightarrow> string \<Rightarrow> string \<Rightarrow> fsys \<Rightarrow> store_error + bytes" where
  "Open f rt digest fs =
     (case pathFor rt digest of
        Inl e \<Rightarrow> Inl e
      | Inr p \<Rightarrow> (case os_open f p fs of
            Inr b \<Rightarrow> Inr b
          | Inl NotExist \<Rightarrow> Inl (ErrBlobNotFound digest)
          | Inl (OsFault m) \<Rightarrow> Inl (IoFailed ''open blob'')))"

definition ReadAll :: "os_error option \<Rightarrow> string \<Rightarrow> string \<Rightarrow> fsys \<Rightarrow> store_error + bytes" where
  "ReadAll f rt digest fs = Open f rt digest fs"

definition Stat :: "os_error option \<Rightarrow> string \<Rightarrow> string \<Rightarrow> fsys \<Rightarrow> store_error + ref" where
  "Stat f rt digest fs =
     (case pathFor rt digest of
        Inl e \<Rightarrow> Inl e
      | Inr p \<Rightarrow> (case os_open f p fs of
            Inr b \<Rightarrow> Inr \<lparr>ref_sha256 = digest, ref_size = length b\<rparr>
          | Inl NotExist \<Rightarrow> Inl (ErrBlobNotFound digest)
          | Inl (OsFault m) \<Rightarrow> Inl (IoFailed ''stat blob'')))"

definition Exists :: "os_error option \<Rightarrow> string \<Rightarrow> string \<Rightarrow> fsys \<Rightarrow> bool" where
  "Exists f rt digest fs = (case Stat f rt digest fs of Inr _ \<Rightarrow> True | Inl _ \<Rightarrow> False)"

definition Delete :: "os_error option \<Rightarrow> string \<Rightarrow> string \<Rightarrow> fsys \<Rightarrow> store_error option \<times> fsys" where
  "Delete f rt digest fs =
     (case pathFor rt digest of
        Inl e \<Rightarrow> (Some e, fs)
      | Inr p \<Rightarrow> (case f of
            Some NotExist \<Rightarrow> (None, fs)
          | Some (OsFault m) \<Rightarrow> (Some (IoFailed ''delete blob''), fs)
          | None \<Rightarrow> (None, fs_remove p fs)))"

definition Verify :: "os_error option \<Rightarrow> bool \<Rightarrow> string \<Rightarrow> string \<Rightarrow> fsys \<Rightarrow> store_error option" where
  "Verify f read_fails rt digest fs =
     (case Open f rt digest fs of
        Inl e \<Rightarrow> Some e
      | Inr b \<Rightarrow>
          if read_fails then Some (IoFailed ''read blob'')
          else let got = hex (sha256 b) in
            if got \<noteq> digest then Some (Corrupt digest got) else None)"

text \<open>
  \<open>entries\<close> are the names \<open>os.ReadDir\<close> lists; \<open>bad n\<close> says that removing the entry fails with
  something else than not existing.
\<close>

definition upload_name :: "string \<Rightarrow> bool" where
  "upload_name n \<longleftrightarrow> prefix ''upload-'' n"

definition CleanTemp :: "(os_error + string list) \<Rightarrow> (string \<Rightarrow> bool) \<Rightarrow> string \<Rightarrow> fsys \<Rightarrow> store_error list \<times> fsys" where
  "CleanTemp listing bad rt fs =
     (case listing of
        Inl NotExist \<Rightarrow> ([], fs)
      | Inl (OsFault m) \<Rightarrow> ([IoFailed ''read temp dir''], fs)
      | Inr entries \<Rightarrow>
          let ups = filter upload_name entries in
          (map (\<lambda>_. IoFailed ''remove'') (filter bad ups),
           fold (\<lambda>n. fs_remove (join rt [''tmp'', n])) (filter (\<lambda>n. \<not> bad n) ups) fs))"

subsection \<open>Digests, paths and the store's directory\<close>

lemma Digest_valid [simp]: "ValidDigest (Digest b) = None"
  by (auto simp: ValidDigest_def digestLen_def Digest_def dest: hex_is_hex)

lemma ValidDigest_iff: "ValidDigest d = None \<longleftrightarrow> length d = 64 \<and> (\<forall>c \<in> set d. is_hex c)"
  by (auto simp: ValidDigest_def digestLen_def)

lemma pathFor_valid: "ValidDigest d = None \<Longrightarrow> pathFor rt d = Inr (join rt [take 2 d, take 2 (drop 2 d), d])"
  by (simp add: pathFor_def)

lemma pathFor_cases:
  obtains (bad) "pathFor rt d = Inl ErrBadDigest" "ValidDigest d \<noteq> None"
  | (ok) "pathFor rt d = Inr (join rt [take 2 d, take 2 (drop 2 d), d])" "ValidDigest d = None"
  by (cases "ValidDigest d") (auto simp: pathFor_def ValidDigest_def split: if_splits)

lemma path_inject:
  assumes "ValidDigest d = None" "ValidDigest e = None"
  shows "join rt [take 2 d, take 2 (drop 2 d), d] = join rt [take 2 e, take 2 (drop 2 e), e] \<longleftrightarrow> d = e"
proof
  assume eq: "join rt [take 2 d, take 2 (drop 2 d), d] = join rt [take 2 e, take 2 (drop 2 e), e]"
  have len: "length d = 64" "length e = 64" using assms by (auto simp: ValidDigest_iff)
  have "take 64 (rev (join rt [take 2 d, take 2 (drop 2 d), d])) =
      take 64 (rev (join rt [take 2 e, take 2 (drop 2 e), e]))" using eq by simp
  then have "rev d = rev e" using len by (simp add: join_def)
  then show "d = e" by simp
qed simp

lemma blob_not_tmp:
  assumes "ValidDigest d = None"
  shows "join rt [take 2 d, take 2 (drop 2 d), d] \<noteq> join rt [''tmp'', n]"
proof
  assume "join rt [take 2 d, take 2 (drop 2 d), d] = join rt [''tmp'', n]"
  then have "take 2 d @ ''/'' @ take 2 (drop 2 d) @ ''/'' @ d = ''tmp/'' @ n" by (simp add: join_def)
  moreover obtain c d' where "d = c # d'" using assms by (cases d) (auto simp: ValidDigest_iff)
  ultimately have "CHR ''t'' \<in> set d" by simp
  then have "is_hex (CHR ''t'')" using assms by (auto simp: ValidDigest_iff)
  moreover have "\<not> is_hex (CHR ''t'')" by code_simp
  ultimately show False by simp
qed

subsection \<open>The invariant of the store\<close>

text \<open>Every stored blob hashes to its own name.\<close>

definition blob :: "string \<Rightarrow> fsys \<Rightarrow> string \<Rightarrow> bytes option" where
  "blob rt fs d = fs_files fs (join rt [take 2 d, take 2 (drop 2 d), d])"

definition store_inv :: "string \<Rightarrow> fsys \<Rightarrow> bool" where
  "store_inv rt fs \<longleftrightarrow> (\<forall>d b. ValidDigest d = None \<longrightarrow> blob rt fs d = Some b \<longrightarrow> Digest b = d)"

lemma store_invD: "store_inv rt fs \<Longrightarrow> ValidDigest d = None \<Longrightarrow> blob rt fs d = Some b \<Longrightarrow> Digest b = d"
  by (simp add: store_inv_def)

lemma blob_simps [simp]:
  "blob rt (fs_mkdir ds fs) d = blob rt fs d"
  "blob rt (fs_chmod p fs) d = blob rt fs d"
  by (simp_all add: blob_def fs_mkdir_def fs_chmod_def)

lemma blob_tmp [simp]:
  assumes "ValidDigest d = None"
  shows "blob rt (fs_write (tmp_path rt n) b fs) d = blob rt fs d"
    and "blob rt (fs_remove (tmp_path rt n) fs) d = blob rt fs d"
    and "blob rt (discard env (tmp_path rt n) fs) d = blob rt fs d"
  using blob_not_tmp[OF assms, of rt "''upload-'' @ n"]
  by (simp_all add: blob_def fs_write_def fs_remove_def tmp_path_def discard_def)

lemma blob_rename:
  assumes "ValidDigest d = None" "ValidDigest e = None" "fs_files fs (tmp_path rt n) = Some b"
  shows "blob rt (fs_rename (tmp_path rt n) (join rt [take 2 d, take 2 (drop 2 d), d]) fs) e =
    (if e = d then Some b else blob rt fs e)"
  using blob_not_tmp[OF assms(2), of rt "''upload-'' @ n"] assms path_inject[OF assms(1,2), of rt]
  by (auto simp: blob_def fs_rename_def tmp_path_def)

lemma store_inv_cong:
  "store_inv rt fs \<Longrightarrow> (\<And>d. ValidDigest d = None \<Longrightarrow> blob rt fs' d = blob rt fs d) \<Longrightarrow> store_inv rt fs'"
  by (simp add: store_inv_def)

text \<open>What concurrent uploads may do: they keep the invariant, the blobs that are there, and this
  upload's temporary file.\<close>

definition fair_others :: "string \<Rightarrow> putenv \<Rightarrow> bool" where
  "fair_others rt env \<longleftrightarrow> (\<forall>fs. (store_inv rt fs \<longrightarrow> store_inv rt (pe_others env fs)) \<and>
     (\<forall>d. ValidDigest d = None \<longrightarrow> blob rt fs d \<noteq> None \<longrightarrow> blob rt (pe_others env fs) d = blob rt fs d) \<and>
     fs_files (pe_others env fs) (tmp_path rt (pe_suffix env)) = fs_files fs (tmp_path rt (pe_suffix env)))"

subsection \<open>The outcomes of an upload\<close>

definition uploaded :: "putenv \<Rightarrow> string \<Rightarrow> reader \<Rightarrow> fsys \<Rightarrow> fsys" where
  "uploaded env rt r fs = fs_write (tmp_path rt (pe_suffix env)) (rd_data r) fs"

definition prepared :: "putenv \<Rightarrow> string \<Rightarrow> reader \<Rightarrow> fsys \<Rightarrow> fsys" where
  "prepared env rt r fs = (let d = Digest (rd_data r) in
     pe_others env (fs_mkdir [join rt [take 2 d], join rt [take 2 d, take 2 (drop 2 d)]] (uploaded env rt r fs)))"

definition blob_path :: "string \<Rightarrow> string \<Rightarrow> string" where
  "blob_path rt d = join rt [take 2 d, take 2 (drop 2 d), d]"

lemma blob_uploaded [simp]: "ValidDigest d = None \<Longrightarrow> blob rt (uploaded env rt r fs) d = blob rt fs d"
  by (simp add: uploaded_def)

lemma Put_cases:
  assumes "Put env rt r fs = (res, fs', tr)"
  obtains (early) "\<forall>f \<in> insert fs' (set tr). \<forall>d. ValidDigest d = None \<longrightarrow> blob rt f d = blob rt fs d"
      "\<And>ref. res = Inr ref \<Longrightarrow> ref = \<lparr>ref_sha256 = Digest (rd_data r), ref_size = length (rd_data r)\<rparr> \<and>
         \<not> rd_fails r \<and> blob rt fs (Digest (rd_data r)) \<noteq> None"
    | (lost) "fs' = discard env (tmp_path rt (pe_suffix env)) (prepared env rt r fs)"
      "tr = [uploaded env rt r fs, prepared env rt r fs]"
      "\<And>ref. res = Inr ref \<Longrightarrow> ref = \<lparr>ref_sha256 = Digest (rd_data r), ref_size = length (rd_data r)\<rparr> \<and>
         \<not> rd_fails r \<and> blob rt (prepared env rt r fs) (Digest (rd_data r)) \<noteq> None"
    | (won) f3 where "f3 = fs_rename (tmp_path rt (pe_suffix env)) (blob_path rt (Digest (rd_data r)))
         (prepared env rt r fs)"
      "fs' = f3 \<or> fs' = fs_chmod (blob_path rt (Digest (rd_data r))) f3"
      "fs_files (prepared env rt r fs) (tmp_path rt (pe_suffix env)) \<noteq> None"
      "tr = [uploaded env rt r fs, prepared env rt r fs, f3]" "\<not> rd_fails r"
      "\<And>ref. res = Inr ref \<Longrightarrow> ref = \<lparr>ref_sha256 = Digest (rd_data r), ref_size = length (rd_data r)\<rparr>"
proof -
  let ?tmp = "tmp_path rt (pe_suffix env)" and ?d = "Digest (rd_data r)"
  let ?f1 = "uploaded env rt r fs" and ?f2 = "prepared env rt r fs"
  let ?f3 = "fs_rename ?tmp (blob_path rt ?d) ?f2"
  let ?R = "\<lparr>ref_sha256 = Digest (rd_data r), ref_size = length (rd_data r)\<rparr>"
  have put: "Put env rt r fs =
     (if pe_fails env PCreate then (Inl (IoFailed ''create temp file''), fs, [])
      else if rd_fails r then (Inl (IoFailed ''write blob''), discard env ?tmp ?f1, [?f1])
      else if pe_fails env PSync then (Inl (IoFailed ''sync blob''), discard env ?tmp ?f1, [?f1])
      else if pe_fails env PClose then (Inl (IoFailed ''close blob''), discard env ?tmp ?f1, [?f1])
      else if blob rt ?f1 ?d \<noteq> None \<and> \<not> pe_fails env PStat then (Inr ?R, discard env ?tmp ?f1, [?f1])
      else if pe_fails env PMkdir then (Inl (IoFailed ''create blob directory''), discard env ?tmp ?f1, [?f1])
      else if pe_fails env PRename \<or> fs_files ?f2 ?tmp = None then
        (if blob rt ?f2 ?d \<noteq> None \<and> \<not> pe_fails env PStatAgain then (Inr ?R, discard env ?tmp ?f2, [?f1, ?f2])
         else (Inl (IoFailed ''commit blob''), discard env ?tmp ?f2, [?f1, ?f2]))
      else if pe_fails env PChmod then (Inl (IoFailed ''set blob permissions''), ?f3, [?f1, ?f2, ?f3])
      else (Inr ?R, fs_chmod (blob_path rt ?d) ?f3, [?f1, ?f2, ?f3]))"
    unfolding Put_def Let_def Digest_def[symmetric] pathFor_valid[OF Digest_valid]
      uploaded_def[symmetric] sum.case blob_def[symmetric]
    by (simp only: prepared_def Let_def blob_path_def)
  have disc: "ValidDigest d = None \<Longrightarrow> blob rt (discard env ?tmp f) d = blob rt f d" for d f
    by simp
  show thesis
    using assms unfolding put
    by (auto split: if_splits intro: that simp: disc)
qed

subsection \<open>An example\<close>

definition empty_fs :: fsys where
  "empty_fs = \<lparr>fs_files = Map.empty, fs_dirs = {}, fs_readonly = {}\<rparr>"

definition alone :: putenv where
  "alone = \<lparr>pe_suffix = ''1'', pe_fails = (\<lambda>_. False), pe_others = id\<rparr>"

lemma alone_fair: "fair_others rt alone"
  by (simp add: fair_others_def alone_def)

lemma empty_store_inv: "store_inv rt empty_fs"
  by (simp add: store_inv_def blob_def empty_fs_def)

lemma alone_succeeds: "fst (Put alone rt \<lparr>rd_data = b, rd_fails = False\<rparr> fs) =
   Inr \<lparr>ref_sha256 = Digest b, ref_size = length b\<rparr>"
  unfolding Put_def Let_def Digest_def[symmetric] pathFor_valid[OF Digest_valid] sum.case
  by (simp add: alone_def fs_write_def fs_mkdir_def)

subsection \<open>Properties\<close>

lemma prepared_blob:
  assumes "fair_others rt env" "ValidDigest d = None" "blob rt fs d = Some b"
  shows "blob rt (prepared env rt r fs) d = Some b"
  using assms by (simp add: fair_others_def prepared_def Let_def)

lemma prepared_inv:
  assumes "fair_others rt env" "store_inv rt fs"
  shows "store_inv rt (prepared env rt r fs)"
proof -
  have "store_inv rt (fs_mkdir ds (uploaded env rt r fs))" for ds
    by (rule store_inv_cong[OF assms(2)]) simp
  then show ?thesis using assms(1) by (simp add: fair_others_def prepared_def Let_def)
qed

lemma prepared_tmp:
  assumes "fair_others rt env"
  shows "fs_files (prepared env rt r fs) (tmp_path rt (pe_suffix env)) = Some (rd_data r)"
  using assms by (simp add: fair_others_def prepared_def Let_def uploaded_def fs_write_def fs_mkdir_def)

lemma won_blob:
  assumes "fair_others rt env" "ValidDigest d = None"
  shows "blob rt (fs_rename (tmp_path rt (pe_suffix env)) (blob_path rt (Digest (rd_data r)))
      (prepared env rt r fs)) d =
    (if d = Digest (rd_data r) then Some (rd_data r) else blob rt (prepared env rt r fs) d)"
  unfolding blob_path_def by (rule blob_rename[OF Digest_valid assms(2) prepared_tmp[OF assms(1)]])

lemma Digest_inject: "Digest a = Digest b \<longleftrightarrow> sha256 a = sha256 b"
  by (simp add: Digest_def hex_inject)

lemma read_blob:
  assumes "blob rt fs (Digest c) = Some b"
  shows "Open None rt (Digest c) fs = Inr b" "ReadAll None rt (Digest c) fs = Inr b"
    "Stat None rt (Digest c) fs = Inr \<lparr>ref_sha256 = Digest c, ref_size = length b\<rparr>"
  using assms by (simp_all add: ReadAll_def Open_def Stat_def pathFor_valid os_open_def blob_def)

text \<open>What is stored under the upload's digest in the end.\<close>

lemma Put_blob:
  assumes "store_inv rt fs" "fair_others rt env" "Put env rt r fs = (Inr ref, fs', tr)"
  shows "ref = \<lparr>ref_sha256 = Digest (rd_data r), ref_size = length (rd_data r)\<rparr> \<and> \<not> rd_fails r \<and>
    (\<exists>b. blob rt fs' (Digest (rd_data r)) = Some b \<and> sha256 b = sha256 (rd_data r) \<and>
      (blob rt fs (Digest (rd_data r)) = None \<and> pe_others env = id \<longrightarrow> b = rd_data r))"
  using assms(3)
proof (cases rule: Put_cases[case_names early lost won])
  case early
  then obtain b where "blob rt fs (Digest (rd_data r)) = Some b" by auto
  with early assms(1) show ?thesis
    by (auto dest: store_invD[OF _ Digest_valid] simp: Digest_inject)
next
  case lost
  then obtain b where b: "blob rt (prepared env rt r fs) (Digest (rd_data r)) = Some b" by auto
  then have "pe_others env = id \<Longrightarrow> blob rt fs (Digest (rd_data r)) = Some b"
    by (simp add: prepared_def Let_def)
  with b lost prepared_inv[OF assms(2,1), where r = r] show ?thesis
    by (auto dest: store_invD[OF _ Digest_valid] simp: Digest_inject)
next
  case (won f3)
  then show ?thesis using won_blob[OF assms(2) Digest_valid, where fs = fs and r = r] by auto
qed

text \<open>C18. A successful upload was read to its end, returns the SHA-256 and the length of its bytes, and
  under that digest \<open>Open\<close> and \<open>ReadAll\<close> then give bytes of exactly that SHA-256 and \<open>Stat\<close> their
  length: the uploaded bytes themselves, when nothing was stored under the digest before and no
  other upload interfered, and otherwise at most a collision of the hash.\<close>

theorem Put_stores_content:
  assumes "store_inv rt fs" "fair_others rt env" "Put env rt r fs = (Inr ref, fs', tr)"
  shows "ref = \<lparr>ref_sha256 = Digest (rd_data r), ref_size = length (rd_data r)\<rparr> \<and> \<not> rd_fails r \<and>
    (\<exists>b. Open None rt (ref_sha256 ref) fs' = Inr b \<and> ReadAll None rt (ref_sha256 ref) fs' = Inr b \<and>
      Stat None rt (ref_sha256 ref) fs' = Inr \<lparr>ref_sha256 = ref_sha256 ref, ref_size = length b\<rparr> \<and>
      blob rt fs' (Digest (rd_data r)) = Some b \<and> sha256 b = sha256 (rd_data r) \<and>
      (blob rt fs (Digest (rd_data r)) = None \<and> pe_others env = id \<longrightarrow> b = rd_data r))"
  using Put_blob[OF assms] read_blob[of rt fs' "rd_data r"] by auto

lemma Put_stores_content_witness:
  "\<exists>fs' tr. Put alone ''/data'' \<lparr>rd_data = ''abc'', rd_fails = False\<rparr> empty_fs =
     (Inr \<lparr>ref_sha256 = Digest ''abc'', ref_size = 3\<rparr>, fs', tr) \<and>
     ReadAll None ''/data'' (Digest ''abc'') fs' = Inr ''abc''"
proof -
  obtain fs' tr where p: "Put alone ''/data'' \<lparr>rd_data = ''abc'', rd_fails = False\<rparr> empty_fs =
      (Inr \<lparr>ref_sha256 = Digest ''abc'', ref_size = 3\<rparr>, fs', tr)"
    using alone_succeeds[of "''/data''" "''abc''" empty_fs]
    by (cases "Put alone ''/data'' \<lparr>rd_data = ''abc'', rd_fails = False\<rparr> empty_fs") auto
  have "blob ''/data'' empty_fs (Digest ''abc'') = None" "pe_others alone = id"
    by (simp_all add: blob_def empty_fs_def alone_def)
  then show ?thesis using p Put_stores_content[OF empty_store_inv alone_fair p] by auto
qed



text \<open>No upload changes a stored original: whatever was stored before an upload is still there
  after it with the same hash, at every point in between and when it fails.\<close>

lemma Put_keeps_originals:
  assumes "store_inv rt fs" "fair_others rt env" "Put env rt r fs = (res, fs', tr)"
    and "ValidDigest d = None" "blob rt fs d = Some b"
  shows "\<forall>f \<in> insert fs' (set tr). \<exists>b'. blob rt f d = Some b' \<and> sha256 b' = sha256 b \<and>
    (d \<noteq> Digest (rd_data r) \<longrightarrow> b' = b)"
  using assms(3)
proof (cases rule: Put_cases[case_names early lost won])
  case early
  then show ?thesis using assms(4,5) by fastforce
next
  case lost
  then show ?thesis using assms(4,5) prepared_blob[OF assms(2,4,5)] by simp
next
  case (won f3)
  have "Digest b = d" using assms store_invD by blast
  then have "d = Digest (rd_data r) \<Longrightarrow> sha256 (rd_data r) = sha256 b"
    by (metis Digest_inject)
  then have "\<exists>b'. blob rt f3 d = Some b' \<and> sha256 b' = sha256 b \<and> (d \<noteq> Digest (rd_data r) \<longrightarrow> b' = b)"
    using won_blob[OF assms(2,4), where fs = fs and r = r] prepared_blob[OF assms(2,4,5)] won(1) by auto
  then show ?thesis
    using won assms(4,5) prepared_blob[OF assms(2,4,5)] by auto
qed

lemma Put_keeps_originals_witness:
  "\<exists>b'. blob ''/data'' (fst (snd (Put alone ''/data'' \<lparr>rd_data = ''abc'', rd_fails = False\<rparr>
     (empty_fs\<lparr>fs_files := [blob_path ''/data'' (Digest ''x'') \<mapsto> ''x'']\<rparr>)))) (Digest ''x'') = Some b' \<and>
     sha256 b' = sha256 ''x''"
proof -
  let ?fs = "empty_fs\<lparr>fs_files := [blob_path ''/data'' (Digest ''x'') \<mapsto> ''x'']\<rparr>"
  have b: "blob ''/data'' ?fs (Digest ''x'') = Some ''x''" by (simp add: blob_def blob_path_def)
  have inv: "store_inv ''/data'' ?fs"
    by (auto simp: store_inv_def blob_def blob_path_def empty_fs_def path_inject split: if_splits)
  obtain res fs' tr where p: "Put alone ''/data'' \<lparr>rd_data = ''abc'', rd_fails = False\<rparr> ?fs = (res, fs', tr)"
    by (metis prod_cases3)
  show ?thesis using Put_keeps_originals[OF inv alone_fair p Digest_valid b] p by auto
qed

text \<open>Verifying a blob succeeds exactly when a blob is stored whose content hashes to the name it
  is stored under; a damaged blob is reported with the hash of what is really there.\<close>

lemma Verify_detects_corruption:
  assumes "ValidDigest d = None"
  shows "Verify None False rt d fs = (case blob rt fs d of
      None \<Rightarrow> Some (ErrBlobNotFound d)
    | Some b \<Rightarrow> if Digest b = d then None else Some (Corrupt d (Digest b)))"
  using assms
  by (auto simp: Verify_def Open_def pathFor_valid os_open_def blob_def Digest_def Let_def split: option.split)

lemma Verify_detects_corruption_witness:
  "Verify None False ''/data'' (Digest ''abc'') empty_fs = Some (ErrBlobNotFound (Digest ''abc''))"
  using Verify_detects_corruption[OF Digest_valid, of "''/data''" "''abc''" empty_fs]
  by (simp add: blob_def empty_fs_def)

text \<open>A digest from outside never leads out of the store: either it is refused, or it is 64
  lowercase hexadecimal digits and the path is the root followed by three components of which
  none contains a separator or a dot.\<close>

lemma pathFor_stays_inside:
  "(case pathFor rt d of
      Inl e \<Rightarrow> e = ErrBadDigest \<and> \<not> (length d = 64 \<and> (\<forall>c \<in> set d. is_hex c))
    | Inr p \<Rightarrow> length d = 64 \<and> (\<exists>x y. p = join rt [x, y, d] \<and> length x = 2 \<and> length y = 2 \<and>
        (\<forall>c \<in> set (x @ y @ d). c \<noteq> CHR ''/'' \<and> c \<noteq> CHR ''.'')))"
proof (cases rule: pathFor_cases[of rt d, case_names bad ok])
  case bad
  then show ?thesis using ValidDigest_iff by auto
next
  case ok
  have "\<not> is_hex (CHR ''/'')" "\<not> is_hex (CHR ''.'')" by code_simp+
  then have "c \<noteq> CHR ''/'' \<and> c \<noteq> CHR ''.''" if "c \<in> set d" for c
    using ok(2) that by (metis ValidDigest_iff)
  moreover have "set (take 2 d @ take 2 (drop 2 d) @ d) \<subseteq> set d"
    by (auto dest: in_set_takeD in_set_dropD)
  moreover have "length d = 64" using ok(2) by (simp add: ValidDigest_iff)
  ultimately show ?thesis unfolding ok(1) sum.case
    by (intro conjI exI[of _ "take 2 d"] exI[of _ "take 2 (drop 2 d)"]) auto
qed

lemma pathFor_stays_inside_witness:
  "pathFor ''/data'' ''../../etc/passwd'' = Inl ErrBadDigest"
  using pathFor_stays_inside[where rt = "''/data''" and d = "''../../etc/passwd''"] by (simp split: sum.splits)

end
