(* ===== verification/Base64.thy ===== *)
theory Base64
  imports Prelude
begin

text \<open>
  The unpadded base64 encodings of Go's \<open>encoding/base64\<close> that the program uses
  (\<open>RawStdEncoding\<close>, \<open>RawURLEncoding\<close>), and the padded standard one (\<open>StdEncoding\<close>), over byte
  strings. The decoder is the library's lenient one: it skips line breaks and ignores the
  unused low bits of the last character.
\<close>

definition std_alphabet :: string where
  "std_alphabet = ''ABCDEFGHIJKLMNOPQRSTUVWXYZabcdefghijklmnopqrstuvwxyz0123456789+/''"

definition url_alphabet :: string where
  "url_alphabet = ''ABCDEFGHIJKLMNOPQRSTUVWXYZabcdefghijklmnopqrstuvwxyz0123456789-_''"

abbreviation byte :: "char \<Rightarrow> nat" where "byte c \<equiv> of_char c"
abbreviation chr :: "nat \<Rightarrow> char" where "chr n \<equiv> char_of n"

fun sextets :: "string \<Rightarrow> nat list" where
  "sextets (a # b # c # s) =
     [byte a div 4, byte a mod 4 * 16 + byte b div 16, byte b mod 16 * 4 + byte c div 64, byte c mod 64] @ sextets s"
| "sextets [a, b] = [byte a div 4, byte a mod 4 * 16 + byte b div 16, byte b mod 16 * 4]"
| "sextets [a] = [byte a div 4, byte a mod 4 * 16]"
| "sextets [] = []"

fun unsextets :: "nat list \<Rightarrow> string option" where
  "unsextets (a # b # c # d # s) =
     map_option (\<lambda>r. [chr (a * 4 + b div 16), chr (b mod 16 * 16 + c div 4), chr (c mod 4 * 64 + d)] @ r)
       (unsextets s)"
| "unsextets [a, b, c] = Some [chr (a * 4 + b div 16), chr (b mod 16 * 16 + c div 4)]"
| "unsextets [a, b] = Some [chr (a * 4 + b div 16)]"
| "unsextets [a] = None"
| "unsextets [] = Some []"

definition raw_encode :: "string \<Rightarrow> string \<Rightarrow> string" where
  "raw_encode alpha s = map (\<lambda>n. alpha ! n) (sextets s)"

fun index_of :: "char \<Rightarrow> string \<Rightarrow> nat option" where
  "index_of c [] = None"
| "index_of c (x # xs) = (if x = c then Some 0 else map_option Suc (index_of c xs))"

fun char_values :: "string \<Rightarrow> string \<Rightarrow> nat list option" where
  "char_values alpha [] = Some []"
| "char_values alpha (c # s) =
     (case (index_of c alpha, char_values alpha s) of (Some n, Some ns) \<Rightarrow> Some (n # ns) | _ \<Rightarrow> None)"

definition raw_decode :: "string \<Rightarrow> string \<Rightarrow> string option" where
  "raw_decode alpha s =
     (case char_values alpha (filter (\<lambda>c. c \<noteq> CHR 0x0A \<and> c \<noteq> CHR 0x0D) s) of
        None \<Rightarrow> None | Some ns \<Rightarrow> unsextets ns)"

lemma byte_lt: "byte c < 256"
  using of_char_mod_256[of c, where 'a = nat] by (metis mod_less_divisor zero_less_numeral)

lemma chr_byte [simp]: "chr (byte c) = c"
  by simp

lemma chr_eqI: "n = byte c \<Longrightarrow> chr n = c"
  by simp

lemma byte_div: "byte c div 16 < 16" "byte c div 64 < 4"
  using byte_lt[of c] less_mult_imp_div_less[of "byte c" 16 16] less_mult_imp_div_less[of "byte c" 4 64]
  by simp_all

lemma sextets_lt: "n \<in> set (sextets s) \<Longrightarrow> n < 64"
proof (induction s rule: sextets.induct)
  case (1 a b c s)
  have "byte a div 4 < 64" "byte a mod 4 * 16 + byte b div 16 < 64"
    "byte b mod 16 * 4 + byte c div 64 < 64" "byte c mod 64 < 64"
    using byte_lt[of a] byte_lt[of b] byte_lt[of c] by linarith+
  with 1 show ?case by auto
next
  case (2 a b)
  have "byte a div 4 < 64" "byte a mod 4 * 16 + byte b div 16 < 64" "byte b mod 16 * 4 < 64"
    using byte_lt[of a] byte_lt[of b] by linarith+
  with 2 show ?case by auto
next
  case (3 a)
  have "byte a div 4 < 64" "byte a mod 4 * 16 < 64" using byte_lt[of a] by linarith+
  with 3 show ?case by auto
qed simp

lemma sextet_bytes:
  fixes x y z :: nat
  shows "y < 16 \<Longrightarrow> x div 4 * 4 + (x mod 4 * 16 + y) div 16 = x"
    and "y < 256 \<Longrightarrow> z < 4 \<Longrightarrow> (x mod 4 * 16 + y div 16) mod 16 * 16 + (y mod 16 * 4 + z) div 4 = y"
    and "z < 256 \<Longrightarrow> (y mod 16 * 4 + z div 64) mod 4 * 64 + z mod 64 = z"
proof -
  assume "y < 16"
  then have "(x mod 4 * 16 + y) div 16 = x mod 4" by simp
  then show "x div 4 * 4 + (x mod 4 * 16 + y) div 16 = x" by simp
next
  assume "y < 256" "z < 4"
  then have "y div 16 < 16" by simp
  then have "(x mod 4 * 16 + y div 16) mod 16 = y div 16" by simp
  moreover have "(y mod 16 * 4 + z) div 4 = y mod 16" using \<open>z < 4\<close> by simp
  ultimately show "(x mod 4 * 16 + y div 16) mod 16 * 16 + (y mod 16 * 4 + z) div 4 = y" by simp
next
  assume "z < 256"
  then have "z div 64 < 4" by simp
  then have "(y mod 16 * 4 + z div 64) mod 4 = z div 64" by simp
  then show "(y mod 16 * 4 + z div 64) mod 4 * 64 + z mod 64 = z" by simp
qed

lemma unsextets_sextets: "unsextets (sextets s) = Some s"
proof (induction s rule: sextets.induct)
  case (1 a b c s)
  show ?case using 1
    by (simp add: byte_div sextet_bytes(1) sextet_bytes(2)[OF byte_lt] sextet_bytes(3)[OF byte_lt] del: char_of_def)
next
  case (2 a b)
  show ?case using sextet_bytes(2)[OF byte_lt[of b], of 0 "byte a"]
    by (simp add: byte_div sextet_bytes(1))
next
  case (3 a)
  then show ?case using sextet_bytes(1)[of 0 "byte a"] by simp
qed simp

lemma index_of_nth: "distinct alpha \<Longrightarrow> n < length alpha \<Longrightarrow> index_of (alpha ! n) alpha = Some n"
proof (induction alpha arbitrary: n)
  case (Cons x xs)
  then show ?case by (cases n) auto
qed simp

lemma char_values_map: "distinct alpha \<Longrightarrow> \<forall>n \<in> set ns. n < length alpha \<Longrightarrow> char_values alpha (map ((!) alpha) ns) = Some ns"
  by (induction ns) (simp_all add: index_of_nth)

text \<open>Alphabets the decoder inverts: 64 different characters, no line break among them.\<close>

definition good_alphabet :: "string \<Rightarrow> bool" where
  "good_alphabet alpha \<longleftrightarrow> distinct alpha \<and> length alpha = 64 \<and>
     list_all (\<lambda>c. c \<noteq> CHR 0x0A \<and> c \<noteq> CHR 0x0D) alpha"

lemma good_alphabets: "good_alphabet std_alphabet" "good_alphabet url_alphabet"
  by code_simp+

lemma raw_decode_encode:
  assumes "good_alphabet alpha"
  shows "raw_decode alpha (raw_encode alpha s) = Some s"
proof -
  have "c \<in> set alpha" if "c \<in> set (raw_encode alpha s)" for c
    using that assms by (auto simp: good_alphabet_def raw_encode_def dest: sextets_lt)
  then have "filter (\<lambda>c. c \<noteq> CHR 0x0A \<and> c \<noteq> CHR 0x0D) (raw_encode alpha s) = raw_encode alpha s"
    using assms by (intro filter_True) (auto simp: good_alphabet_def list_all_iff)
  moreover have "char_values alpha (raw_encode alpha s) = Some (sextets s)"
    using assms unfolding raw_encode_def
    by (intro char_values_map) (auto simp: good_alphabet_def dest: sextets_lt)
  ultimately show ?thesis by (simp add: raw_decode_def unsextets_sextets)
qed

lemma raw_encode_chars: "good_alphabet alpha \<Longrightarrow> set (raw_encode alpha s) \<subseteq> set alpha"
  by (auto simp: raw_encode_def good_alphabet_def dest!: sextets_lt)

lemma raw_encode_inject: "good_alphabet alpha \<Longrightarrow> raw_encode alpha s = raw_encode alpha t \<longleftrightarrow> s = t"
  by (metis option.inject raw_decode_encode)

lemma length_sextets: "length (sextets s) = (4 * length s + 2) div 3"
  by (induction s rule: sextets.induct) auto

lemma length_raw_encode: "length (raw_encode alpha s) = (4 * length s + 2) div 3"
  by (simp add: raw_encode_def length_sextets)

subsection \<open>The padded encoding\<close>

definition std_encode :: "string \<Rightarrow> string" where
  "std_encode s = raw_encode std_alphabet s @ replicate ((3 - length s mod 3) mod 3) (CHR ''='')"

text \<open>
  The padded decoder wants a multiple of four characters, of which the last one or two may be
  padding.
\<close>

definition std_decode :: "string \<Rightarrow> string option" where
  "std_decode s =
     (let t = filter (\<lambda>c. c \<noteq> CHR 0x0A \<and> c \<noteq> CHR 0x0D) s;
          u = (if length t \<ge> 4 \<and> drop (length t - 2) t = ''=='' then take (length t - 2) t
               else if length t \<ge> 4 \<and> drop (length t - 1) t = ''='' then take (length t - 1) t
               else t)
      in if length t mod 4 \<noteq> 0 then None else raw_decode std_alphabet u)"

end
