(* ===== verification/Password.thy ===== *)
theory Password
  imports Base64 GoStrings
begin

text \<open>
  \<open>internal/auth/password.go\<close>: password hashes in the PHC format. Argon2id (\<open>argon2.IDKey\<close>) is a
  third-party package and a parameter here: a function of the password, the salt, the time, the
  memory, the lanes and the length of the key. The salt the random source yields, or its
  failure, is an input. \<open>fmt.Sscanf\<close> is modelled for the formats the code uses: literals must
  match, \<open>%d\<close> skips blanks and reads a decimal number that fits its type, and what follows the
  last verb is ignored.
\<close>

type_synonym argon = "string \<Rightarrow> string \<Rightarrow> nat \<Rightarrow> nat \<Rightarrow> nat \<Rightarrow> nat \<Rightarrow> string"

definition argonMemory :: nat where "argonMemory = 19 * 1024"
definition argonTime :: nat where "argonTime = 2"
definition argonKeyLen :: nat where "argonKeyLen = 32"
definition argonSaltLen :: nat where "argonSaltLen = 16"
definition argonVersion :: nat where "argonVersion = 19"

definition minDigestLen :: nat where "minDigestLen = 16"
definition maxDigestLen :: nat where "maxDigestLen = 64"
definition maxSaltLen :: nat where "maxSaltLen = 64"

lemmas argon_consts = argonMemory_def argonTime_def argonKeyLen_def argonSaltLen_def argonVersion_def
  minDigestLen_def maxDigestLen_def maxSaltLen_def

datatype hash_error =
    EmptyPassword
  | NoRandomness
  | FieldCount nat
  | UnsupportedAlgorithm string
  | UnreadableVersion
  | UnsupportedVersion int
  | UnreadableParameters
  | ZeroParameters
  | UnreadableSalt
  | UnreadableDigest
  | SaltOutOfRange nat
  | DigestOutOfRange nat

record hashParams =
  hp_memory :: nat
  hp_time :: nat
  hp_parallelism :: nat

definition argonParallelism :: "int \<Rightarrow> nat" where
  "argonParallelism cpus = nat (min (max cpus 1) 4)"

definition encode_hash :: "nat \<Rightarrow> nat \<Rightarrow> nat \<Rightarrow> string \<Rightarrow> string \<Rightarrow> string" where
  "encode_hash memory time lanes salt digest =
     ''$argon2id$v='' @ dec argonVersion @ ''$m='' @ dec memory @ '',t='' @ dec time @
     '',p='' @ dec lanes @ ''$'' @ raw_encode std_alphabet salt @ ''$'' @ raw_encode std_alphabet digest"

definition HashPassword :: "argon \<Rightarrow> int \<Rightarrow> string option \<Rightarrow> string \<Rightarrow> hash_error + string" where
  "HashPassword argon cpus random password =
     (if password = [] then Inl EmptyPassword
      else case random of
        None \<Rightarrow> Inl NoRandomness
      | Some salt \<Rightarrow>
          let lanes = argonParallelism cpus;
              digest = argon password salt argonTime argonMemory lanes argonKeyLen
          in Inr (encode_hash argonMemory argonTime lanes salt digest))"

subsection \<open>Scanning\<close>

definition scan_lit :: "string \<Rightarrow> string \<Rightarrow> string option" where
  "scan_lit lit s = cut_prefix s lit"

text \<open>Blanks before a number; a line break is an error.\<close>

definition scan_blanks :: "string \<Rightarrow> string option" where
  "scan_blanks s = (let r = dropWhile (\<lambda>c. is_space c \<and> c \<noteq> CHR 0x0A) s in
     if r \<noteq> [] \<and> hd r = CHR 0x0A then None else Some r)"

text \<open>An unsigned number below \<open>bound\<close>, and a signed one of 64 bits.\<close>

definition scan_uint :: "nat \<Rightarrow> string \<Rightarrow> (nat \<times> string) option" where
  "scan_uint bound s =
     (case scan_blanks s of
        None \<Rightarrow> None
      | Some r \<Rightarrow>
          let ds = takeWhile is_digit r; n = digits_value ds in
          if ds = [] \<or> n \<ge> bound then None else Some (n, dropWhile is_digit r))"

definition scan_int :: "string \<Rightarrow> (int \<times> string) option" where
  "scan_int s =
     (case scan_blanks s of
        None \<Rightarrow> None
      | Some r \<Rightarrow>
          let neg = (r \<noteq> [] \<and> hd r = CHR ''-'');
              r = (if r \<noteq> [] \<and> (hd r = CHR ''-'' \<or> hd r = CHR ''+'') then tl r else r);
              ds = takeWhile is_digit r;
              n = (if neg then - int (digits_value ds) else int (digits_value ds)) in
          if ds = [] \<or> n < - (2 ^ 63) \<or> n \<ge> 2 ^ 63 then None else Some (n, dropWhile is_digit r))"

definition scan_version :: "string \<Rightarrow> int option" where
  "scan_version s =
     (case scan_lit ''v='' s of None \<Rightarrow> None
      | Some r \<Rightarrow> (case scan_int r of None \<Rightarrow> None | Some (v, _) \<Rightarrow> Some v))"

definition scan_params :: "string \<Rightarrow> hashParams option" where
  "scan_params s =
     (case scan_lit ''m='' s of None \<Rightarrow> None
      | Some r \<Rightarrow> (case scan_uint (2 ^ 32) r of None \<Rightarrow> None
      | Some (m, r) \<Rightarrow> (case scan_lit '',t='' r of None \<Rightarrow> None
      | Some r \<Rightarrow> (case scan_uint (2 ^ 32) r of None \<Rightarrow> None
      | Some (t, r) \<Rightarrow> (case scan_lit '',p='' r of None \<Rightarrow> None
      | Some r \<Rightarrow> (case scan_uint (2 ^ 8) r of None \<Rightarrow> None
      | Some (p, r) \<Rightarrow> Some \<lparr>hp_memory = m, hp_time = t, hp_parallelism = p\<rparr>))))))"

subsection \<open>Verification\<close>

definition decodeHash :: "string \<Rightarrow> hash_error + hashParams \<times> string \<times> string" where
  "decodeHash encoded =
     (let parts = split_on CHR ''$'' encoded in
      if length parts \<noteq> 6 \<or> parts ! 0 \<noteq> [] then Inl (FieldCount (length parts - 1))
      else if parts ! 1 \<noteq> ''argon2id'' then Inl (UnsupportedAlgorithm (parts ! 1))
      else case scan_version (parts ! 2) of
        None \<Rightarrow> Inl UnreadableVersion
      | Some version \<Rightarrow>
      if version \<noteq> int argonVersion then Inl (UnsupportedVersion version)
      else case scan_params (parts ! 3) of
        None \<Rightarrow> Inl UnreadableParameters
      | Some p \<Rightarrow>
      if hp_memory p = 0 \<or> hp_time p = 0 \<or> hp_parallelism p = 0 then Inl ZeroParameters
      else case raw_decode std_alphabet (parts ! 4) of
        None \<Rightarrow> Inl UnreadableSalt
      | Some salt \<Rightarrow>
      case raw_decode std_alphabet (parts ! 5) of
        None \<Rightarrow> Inl UnreadableDigest
      | Some digest \<Rightarrow>
      if salt = [] \<or> length salt > maxSaltLen then Inl (SaltOutOfRange (length salt))
      else if length digest < minDigestLen \<or> length digest > maxDigestLen
        then Inl (DigestOutOfRange (length digest))
      else Inr (p, salt, digest))"

definition VerifyPassword :: "argon \<Rightarrow> string \<Rightarrow> string \<Rightarrow> hash_error + bool \<times> bool" where
  "VerifyPassword argon encoded password =
     (case decodeHash encoded of
        Inl e \<Rightarrow> Inl e
      | Inr (params, salt, want) \<Rightarrow>
          let got = argon password salt (hp_time params) (hp_memory params) (hp_parallelism params) (length want)
          in if got \<noteq> want then Inr (False, False)
             else Inr (True, hp_memory params < argonMemory \<or> hp_time params < argonTime))"

subsection \<open>Reading back what was written\<close>

lemma is_digit_not: "\<not> is_digit (CHR '','')" "\<not> is_digit (CHR ''$'')" "\<not> is_space (CHR '','')"
  by code_simp+

lemma digit_not_space: "is_digit c \<Longrightarrow> \<not> is_space c"
  by (auto simp: is_digit_def is_space_def Let_def)

lemma digit_not_sign: "is_digit c \<Longrightarrow> c \<noteq> CHR ''-'' \<and> c \<noteq> CHR ''+'' \<and> c \<noteq> CHR 0x0A \<and> c \<noteq> CHR ''$''"
  by (auto simp: is_digit_def Let_def)

lemma hd_dec: "is_digit (hd (dec n @ r))"
  using dec_digits[of "hd (dec n)" n] by simp

lemma scan_blanks_dec: "scan_blanks (dec n @ r) = Some (dec n @ r)"
proof -
  obtain c cs where c: "dec n @ r = c # cs" "is_digit c"
    using hd_dec[of n r] by (cases "dec n @ r") auto
  then show ?thesis
    using digit_not_space digit_not_sign[of c] by (auto simp: scan_blanks_def Let_def)
qed

lemma scan_uint_dec:
  assumes "n < bound" "r = [] \<or> \<not> is_digit (hd r)"
  shows "scan_uint bound (dec n @ r) = Some (n, r)"
proof -
  have "takeWhile is_digit r = []" "dropWhile is_digit r = r" using assms(2) by (cases r; simp)+
  then show ?thesis
    using assms(1) by (simp add: scan_uint_def scan_blanks_dec Let_def takeWhile_dec)
qed

lemma takeWhile_all_dec: "takeWhile is_digit (dec n) = dec n" "dropWhile is_digit (dec n) = []"
  using dec_digits by (auto simp: takeWhile_eq_all_conv dropWhile_eq_Nil_conv)

lemma scan_int_dec:
  assumes "int n < 2 ^ 63"
  shows "scan_int (dec n) = Some (int n, [])"
proof -
  have "hd (dec n) \<noteq> CHR ''-''" "hd (dec n) \<noteq> CHR ''+''"
    using digit_not_sign[OF hd_dec[of n "[]"]] by simp_all
  then show ?thesis
    using assms scan_blanks_dec[of n "[]"]
    by (simp add: scan_int_def Let_def takeWhile_all_dec)
qed

lemma scan_version_back: "scan_version (''v='' @ dec argonVersion) = Some (int argonVersion)"
  using scan_int_dec[of argonVersion] by (simp add: scan_version_def scan_lit_def cut_prefix_def argonVersion_def)

lemma scan_params_back:
  assumes "m < 2 ^ 32" "t < 2 ^ 32" "p < 2 ^ 8"
  shows "scan_params (''m='' @ dec m @ '',t='' @ dec t @ '',p='' @ dec p) =
    Some \<lparr>hp_memory = m, hp_time = t, hp_parallelism = p\<rparr>"
  using assms scan_uint_dec[of m "2 ^ 32" "'',t='' @ dec t @ '',p='' @ dec p"]
    scan_uint_dec[of t "2 ^ 32" "'',p='' @ dec p"] scan_uint_dec[of p "2 ^ 8" "[]"]
  by (simp add: scan_params_def scan_lit_def cut_prefix_def is_digit_not)

lemma dollar_free:
  "CHR ''$'' \<notin> set (dec n)" "CHR ''$'' \<notin> set (raw_encode std_alphabet s)"
proof -
  show "CHR ''$'' \<notin> set (dec n)" using dec_digits digit_not_sign by blast
  have "CHR ''$'' \<notin> set std_alphabet" by code_simp
  then show "CHR ''$'' \<notin> set (raw_encode std_alphabet s)"
    using raw_encode_chars[OF good_alphabets(1)] by blast
qed

lemma split_hash:
  "split_on CHR ''$'' (encode_hash m t l salt digest) = [[], ''argon2id'', ''v='' @ dec argonVersion,
     ''m='' @ dec m @ '',t='' @ dec t @ '',p='' @ dec l, raw_encode std_alphabet salt,
     raw_encode std_alphabet digest]"
proof -
  let ?ps = "[[], ''argon2id'', ''v='' @ dec argonVersion,
     ''m='' @ dec m @ '',t='' @ dec t @ '',p='' @ dec l, raw_encode std_alphabet salt,
     raw_encode std_alphabet digest]"
  have "encode_hash m t l salt digest = join_with [CHR ''$''] ?ps"
    by (simp add: encode_hash_def)
  moreover have "split_on CHR ''$'' (join_with [CHR ''$''] ?ps) = ?ps"
    by (rule split_join) (use dollar_free in auto)
  ultimately show ?thesis by simp
qed

lemma decodeHash_back:
  assumes "0 < m" "m < 2 ^ 32" "0 < t" "t < 2 ^ 32" "0 < l" "l < 2 ^ 8"
    and "salt \<noteq> []" "length salt \<le> maxSaltLen" "minDigestLen \<le> length digest" "length digest \<le> maxDigestLen"
  shows "decodeHash (encode_hash m t l salt digest) =
    Inr (\<lparr>hp_memory = m, hp_time = t, hp_parallelism = l\<rparr>, salt, digest)"
  using assms
  by (simp add: decodeHash_def Let_def split_hash scan_version_back[simplified] scan_params_back[simplified]
    raw_decode_encode good_alphabets)

lemma argonParallelism_bounds: "1 \<le> argonParallelism c \<and> argonParallelism c \<le> 4"
  unfolding argonParallelism_def by linarith

subsection \<open>Properties\<close>

text \<open>A stored hash reads back as the parameters, the salt and the digest it was written with, for
  all parameters that fit their types, so the cost settings can change without invalidating
  stored hashes.\<close>

lemma stored_hash_round_trip:
  assumes "0 < m" "m < 2 ^ 32" "0 < t" "t < 2 ^ 32" "0 < l" "l < 2 ^ 8"
    and "salt \<noteq> []" "length salt \<le> maxSaltLen" "minDigestLen \<le> length digest" "length digest \<le> maxDigestLen"
  shows "decodeHash (encode_hash m t l salt digest) =
    Inr (\<lparr>hp_memory = m, hp_time = t, hp_parallelism = l\<rparr>, salt, digest)"
  by (rule decodeHash_back[OF assms])

lemma stored_hash_round_trip_witness:
  "decodeHash (encode_hash 4096 1 2 ''0123456789abcdef'' (replicate 32 CHR ''d'')) =
     Inr (\<lparr>hp_memory = 4096, hp_time = 1, hp_parallelism = 2\<rparr>, ''0123456789abcdef'', replicate 32 CHR ''d'')"
  by (rule stored_hash_round_trip) (simp_all add: argon_consts)

text \<open>C23. A password verifies against its own hash without asking for a rehash, and any other password
  verifies only if Argon2id maps it to the same digest under the same salt. The argument
  \<open>argon\<close> stands for Argon2id; the only thing assumed of it is that it returns as many bytes as it
  is asked for.\<close>

theorem VerifyPassword_of_HashPassword:
  assumes len: "\<And>p s t m l n. length (argon p s t m l n) = n"
    and h: "HashPassword argon cpus (Some salt) password = Inr encoded" and salt: "length salt = argonSaltLen"
  shows "VerifyPassword argon encoded other = Inr
    (let same = (argon other salt argonTime argonMemory (argonParallelism cpus) argonKeyLen =
                 argon password salt argonTime argonMemory (argonParallelism cpus) argonKeyLen)
     in (same, False))"
proof -
  let ?l = "argonParallelism cpus"
  let ?d = "argon password salt argonTime argonMemory ?l argonKeyLen"
  have e: "encoded = encode_hash argonMemory argonTime ?l salt ?d"
    using h by (simp add: HashPassword_def Let_def split: if_splits)
  have "decodeHash encoded = Inr (\<lparr>hp_memory = argonMemory, hp_time = argonTime, hp_parallelism = ?l\<rparr>, salt, ?d)"
    unfolding e using salt argonParallelism_bounds[of cpus]
    by (intro decodeHash_back) (auto simp: argon_consts len)
  then show ?thesis by (simp add: VerifyPassword_def Let_def len)
qed

lemma VerifyPassword_of_HashPassword_witness:
  "\<exists>encoded. HashPassword (\<lambda>p s t m l n. take n (p @ replicate n CHR ''x'')) 8 (Some (replicate 16 CHR ''s''))
       ''correct horse'' = Inr encoded \<and>
     VerifyPassword (\<lambda>p s t m l n. take n (p @ replicate n CHR ''x'')) encoded ''correct horse'' = Inr (True, False)"
proof -
  let ?argon = "\<lambda>p s t m l n. take n (p @ replicate n CHR ''x'')"
  obtain e where e: "HashPassword ?argon 8 (Some (replicate 16 CHR ''s'')) ''correct horse'' = Inr e"
    by (simp add: HashPassword_def Let_def)
  have "VerifyPassword ?argon e ''correct horse'' = Inr (let same = (
      ?argon ''correct horse'' (replicate 16 CHR ''s'') argonTime argonMemory (argonParallelism 8) argonKeyLen =
      ?argon ''correct horse'' (replicate 16 CHR ''s'') argonTime argonMemory (argonParallelism 8) argonKeyLen)
      in (same, False))"
    by (rule VerifyPassword_of_HashPassword[OF _ e]) (simp_all add: argonSaltLen_def)
  with e show ?thesis by simp
qed

end
