(* ===== verification/AuthTables.thy ===== *)
theory AuthTables
  imports GoTime
begin

text \<open>
  The \<open>users\<close> and \<open>sessions\<close> tables (\<open>internal/db/migrations/00001_init.sql\<close>) and their queries
  (\<open>internal/db/gen/users.sql.go\<close>, \<open>internal/db/gen/sessions.sql.go\<close>). Foreign keys are switched
  on by the DSN, so a session names a user that exists and deleting a user deletes its
  sessions. A writing statement that would break a constraint of the schema leaves the tables
  as they were.
\<close>

record user_row =
  ur_id :: string
  ur_email :: string
  ur_email_folded :: string
  ur_display_name :: string
  ur_password_hash :: string
  ur_role :: string
  ur_created_at :: millis
  ur_updated_at :: millis
  ur_last_login_at :: "millis option"

record session_row =
  sr_id :: string
  sr_user_id :: string
  sr_token_hash :: string
  sr_user_agent :: string
  sr_ip :: string
  sr_created_at :: millis
  sr_last_seen_at :: millis
  sr_expires_at :: millis

record auth_tables =
  at_users :: "user_row list"
  at_sessions :: "session_row list"

definition roles :: "string list" where
  "roles = [''admin'', ''member'', ''viewer'']"

definition auth_violation :: "auth_tables \<Rightarrow> string option" where
  "auth_violation d =
     (if \<not> distinct (map ur_id (at_users d)) then Some ''UNIQUE constraint failed: users.id''
      else if \<not> distinct (map ur_email_folded (at_users d))
        then Some ''UNIQUE constraint failed: users.email_folded''
      else if \<not> list_all (\<lambda>u. ur_role u \<in> set roles) (at_users d)
        then Some ''CHECK constraint failed: role''
      else if \<not> distinct (map sr_id (at_sessions d)) then Some ''UNIQUE constraint failed: sessions.id''
      else if \<not> distinct (map sr_token_hash (at_sessions d))
        then Some ''UNIQUE constraint failed: sessions.token_hash''
      else if \<not> list_all (\<lambda>s. sr_user_id s \<in> ur_id ` set (at_users d)) (at_sessions d)
        then Some ''FOREIGN KEY constraint failed''
      else None)"

definition auth_ok :: "auth_tables \<Rightarrow> bool" where
  "auth_ok d \<longleftrightarrow> auth_violation d = None"

definition commit_auth :: "auth_tables \<Rightarrow> auth_tables \<Rightarrow> 'a \<Rightarrow> (db_error + 'a) \<times> auth_tables" where
  "commit_auth d d' v = (case auth_violation d' of Some m \<Rightarrow> (Inl (Constraint m), d) | None \<Rightarrow> (Inr v, d'))"

subsection \<open>Users\<close>

definition CountUsers :: "auth_tables \<Rightarrow> db_error + nat" where
  "CountUsers d = Inr (length (at_users d))"

definition CreateUser ::
  "string \<Rightarrow> string \<Rightarrow> string \<Rightarrow> string \<Rightarrow> string \<Rightarrow> string \<Rightarrow> millis \<Rightarrow> millis
   \<Rightarrow> auth_tables \<Rightarrow> (db_error + user_row) \<times> auth_tables" where
  "CreateUser i email folded name hash role created updated d =
     (let u = \<lparr>ur_id = i, ur_email = email, ur_email_folded = folded, ur_display_name = name,
               ur_password_hash = hash, ur_role = role, ur_created_at = created,
               ur_updated_at = updated, ur_last_login_at = None\<rparr>
      in commit_auth d (d\<lparr>at_users := at_users d @ [u]\<rparr>) u)"

definition DeleteUser :: "string \<Rightarrow> auth_tables \<Rightarrow> (db_error + unit) \<times> auth_tables" where
  "DeleteUser i d = commit_auth d
     \<lparr>at_users = sql_delete (\<lambda>u. ur_id u = i) (at_users d),
      at_sessions = sql_delete (\<lambda>s. sr_user_id s = i) (at_sessions d)\<rparr> ()"

definition GetUserByEmail :: "string \<Rightarrow> auth_tables \<Rightarrow> db_error + user_row" where
  "GetUserByEmail folded d = row_result (row_by ur_email_folded folded (at_users d))"

definition GetUserByID :: "string \<Rightarrow> auth_tables \<Rightarrow> db_error + user_row" where
  "GetUserByID i d = row_result (row_by ur_id i (at_users d))"

definition ListUsers :: "auth_tables \<Rightarrow> db_error + user_row list" where
  "ListUsers d = Inr (sort_key ur_created_at (at_users d))"

definition TouchUserLogin :: "millis option \<Rightarrow> millis \<Rightarrow> string \<Rightarrow> auth_tables \<Rightarrow> (db_error + unit) \<times> auth_tables" where
  "TouchUserLogin login updated i d = commit_auth d
     (d\<lparr>at_users := sql_update (\<lambda>u. ur_id u = i)
        (\<lambda>u. u\<lparr>ur_last_login_at := login, ur_updated_at := updated\<rparr>) (at_users d)\<rparr>) ()"

definition UpdateUserPassword :: "string \<Rightarrow> millis \<Rightarrow> string \<Rightarrow> auth_tables \<Rightarrow> (db_error + unit) \<times> auth_tables" where
  "UpdateUserPassword hash updated i d = commit_auth d
     (d\<lparr>at_users := sql_update (\<lambda>u. ur_id u = i)
        (\<lambda>u. u\<lparr>ur_password_hash := hash, ur_updated_at := updated\<rparr>) (at_users d)\<rparr>) ()"

subsection \<open>Sessions\<close>

definition CreateSession ::
  "string \<Rightarrow> string \<Rightarrow> string \<Rightarrow> string \<Rightarrow> string \<Rightarrow> millis \<Rightarrow> millis \<Rightarrow> millis
   \<Rightarrow> auth_tables \<Rightarrow> (db_error + session_row) \<times> auth_tables" where
  "CreateSession i uid hash agent ip created seen expires d =
     (let s = \<lparr>sr_id = i, sr_user_id = uid, sr_token_hash = hash, sr_user_agent = agent, sr_ip = ip,
               sr_created_at = created, sr_last_seen_at = seen, sr_expires_at = expires\<rparr>
      in commit_auth d (d\<lparr>at_sessions := at_sessions d @ [s]\<rparr>) s)"

definition DeleteExpiredSessions :: "millis \<Rightarrow> auth_tables \<Rightarrow> (db_error + nat) \<times> auth_tables" where
  "DeleteExpiredSessions now d = commit_auth d
     (d\<lparr>at_sessions := sql_delete (\<lambda>s. sr_expires_at s \<le> now) (at_sessions d)\<rparr>)
     (sql_affected (\<lambda>s. sr_expires_at s \<le> now) (at_sessions d))"

definition DeleteSession :: "string \<Rightarrow> auth_tables \<Rightarrow> (db_error + unit) \<times> auth_tables" where
  "DeleteSession i d = commit_auth d
     (d\<lparr>at_sessions := sql_delete (\<lambda>s. sr_id s = i) (at_sessions d)\<rparr>) ()"

definition DeleteSessionByToken :: "string \<Rightarrow> auth_tables \<Rightarrow> (db_error + unit) \<times> auth_tables" where
  "DeleteSessionByToken hash d = commit_auth d
     (d\<lparr>at_sessions := sql_delete (\<lambda>s. sr_token_hash s = hash) (at_sessions d)\<rparr>) ()"

definition DeleteUserSessions :: "string \<Rightarrow> auth_tables \<Rightarrow> (db_error + unit) \<times> auth_tables" where
  "DeleteUserSessions uid d = commit_auth d
     (d\<lparr>at_sessions := sql_delete (\<lambda>s. sr_user_id s = uid) (at_sessions d)\<rparr>) ()"

definition ExtendSession :: "millis \<Rightarrow> millis \<Rightarrow> string \<Rightarrow> auth_tables \<Rightarrow> (db_error + unit) \<times> auth_tables" where
  "ExtendSession seen expires i d = commit_auth d
     (d\<lparr>at_sessions := sql_update (\<lambda>s. sr_id s = i)
        (\<lambda>s. s\<lparr>sr_last_seen_at := seen, sr_expires_at := expires\<rparr>) (at_sessions d)\<rparr>) ()"

definition GetSessionByToken :: "string \<Rightarrow> millis \<Rightarrow> auth_tables \<Rightarrow> db_error + session_row \<times> user_row" where
  "GetSessionByToken hash now d =
     (case find (\<lambda>s. sr_token_hash s = hash \<and> sr_expires_at s > now) (at_sessions d) of
        None \<Rightarrow> Inl NoRows
      | Some s \<Rightarrow> (case row_by ur_id (sr_user_id s) (at_users d) of
            None \<Rightarrow> Inl NoRows | Some u \<Rightarrow> Inr (s, u)))"

definition ListUserSessions :: "string \<Rightarrow> auth_tables \<Rightarrow> db_error + session_row list" where
  "ListUserSessions uid d =
     Inr (sort_key (\<lambda>s. - sr_last_seen_at s) (filter (\<lambda>s. sr_user_id s = uid) (at_sessions d)))"

definition TouchSession :: "millis \<Rightarrow> string \<Rightarrow> auth_tables \<Rightarrow> (db_error + unit) \<times> auth_tables" where
  "TouchSession seen i d = commit_auth d
     (d\<lparr>at_sessions := sql_update (\<lambda>s. sr_id s = i) (\<lambda>s. s\<lparr>sr_last_seen_at := seen\<rparr>) (at_sessions d)\<rparr>) ()"

subsection \<open>The constraint check\<close>

lemma auth_ok_iff:
  "auth_ok d \<longleftrightarrow> distinct (map ur_id (at_users d)) \<and> distinct (map ur_email_folded (at_users d)) \<and>
     (\<forall>u \<in> set (at_users d). ur_role u \<in> set roles) \<and> distinct (map sr_id (at_sessions d)) \<and>
     distinct (map sr_token_hash (at_sessions d)) \<and>
     (\<forall>s \<in> set (at_sessions d). sr_user_id s \<in> ur_id ` set (at_users d))"
  by (simp add: auth_ok_def auth_violation_def list_all_iff)

definition users_ok :: "user_row list \<Rightarrow> bool" where
  "users_ok us \<longleftrightarrow> distinct (map ur_id us) \<and> distinct (map ur_email_folded us) \<and>
     (\<forall>u \<in> set us. ur_role u \<in> set roles)"

definition sessions_ok :: "session_row list \<Rightarrow> bool" where
  "sessions_ok ss \<longleftrightarrow> distinct (map sr_id ss) \<and> distinct (map sr_token_hash ss)"

interpretation users: keyed_table ur_id users_ok
  by unfold_locales (auto simp: users_ok_def distinct_map_filter)

interpretation emails: keyed_table ur_email_folded users_ok
  by unfold_locales (auto simp: users_ok_def distinct_map_filter)

interpretation sessions: keyed_table sr_id sessions_ok
  by unfold_locales (auto simp: sessions_ok_def distinct_map_filter)

interpretation tokens: keyed_table sr_token_hash sessions_ok
  by unfold_locales (auto simp: sessions_ok_def distinct_map_filter)

lemma auth_okD [dest]:
  "auth_ok d \<Longrightarrow> users_ok (at_users d)" "auth_ok d \<Longrightarrow> sessions_ok (at_sessions d)"
  by (simp_all add: auth_ok_iff users_ok_def sessions_ok_def)

lemma commit_auth_ok [sql_simps]: "auth_ok d' \<Longrightarrow> commit_auth d d' v = (Inr v, d')"
  by (simp add: commit_auth_def auth_ok_def)

lemma commit_auth_keeps: "auth_ok d \<Longrightarrow> auth_ok (snd (commit_auth d d' v))"
  by (auto simp: commit_auth_def auth_ok_def split: option.split)

lemma commit_auth_cases:
  obtains (ok) "auth_ok d'" "commit_auth d d' v = (Inr v, d')"
  | (bad) m where "commit_auth d d' v = (Inl (Constraint m), d)"
  by (cases "auth_violation d'") (auto simp: commit_auth_def auth_ok_def)

lemma delete_sessions_ok [commit_intros]: "auth_ok d \<Longrightarrow> auth_ok (d\<lparr>at_sessions := sql_delete P (at_sessions d)\<rparr>)"
  by (auto simp: auth_ok_iff distinct_map_sql_delete)

lemma update_sessions_ok [commit_intros]:
  "auth_ok d \<Longrightarrow> (\<And>s. sr_id (f s) = sr_id s \<and> sr_token_hash (f s) = sr_token_hash s \<and> sr_user_id (f s) = sr_user_id s) \<Longrightarrow>
   auth_ok (d\<lparr>at_sessions := sql_update P f (at_sessions d)\<rparr>)"
  by (auto simp: auth_ok_iff map_sql_update set_sql_update)

lemma update_users_ok [commit_intros]:
  "auth_ok d \<Longrightarrow> (\<And>u. ur_id (f u) = ur_id u \<and> ur_email_folded (f u) = ur_email_folded u \<and> ur_role (f u) = ur_role u) \<Longrightarrow>
   auth_ok (d\<lparr>at_users := sql_update P f (at_users d)\<rparr>)"
proof -
  assume ok: "auth_ok d"
    and f: "\<And>u. ur_id (f u) = ur_id u \<and> ur_email_folded (f u) = ur_email_folded u \<and> ur_role (f u) = ur_role u"
  have m: "map ur_id (sql_update P f (at_users d)) = map ur_id (at_users d)"
    "map ur_email_folded (sql_update P f (at_users d)) = map ur_email_folded (at_users d)"
    using f by (simp_all add: map_sql_update)
  have "ur_id ` set (sql_update P f (at_users d)) = ur_id ` set (at_users d)"
    using m(1) by (metis set_map)
  moreover have "\<forall>u \<in> set (sql_update P f (at_users d)). ur_role u \<in> set roles"
    using ok f by (auto simp: auth_ok_iff set_sql_update)
  ultimately show "auth_ok (d\<lparr>at_users := sql_update P f (at_users d)\<rparr>)"
    using ok m by (simp add: auth_ok_iff)
qed

lemma DeleteExpiredSessions_ok [sql_simps]:
  "auth_ok d \<Longrightarrow> DeleteExpiredSessions now d =
     (Inr (sql_affected (\<lambda>s. sr_expires_at s \<le> now) (at_sessions d)),
      d\<lparr>at_sessions := sql_delete (\<lambda>s. sr_expires_at s \<le> now) (at_sessions d)\<rparr>)"
  by (simp add: DeleteExpiredSessions_def commit_auth_ok delete_sessions_ok)

lemma DeleteSessionByToken_ok [sql_simps]:
  "auth_ok d \<Longrightarrow> DeleteSessionByToken h d =
     (Inr (), d\<lparr>at_sessions := sql_delete (\<lambda>s. sr_token_hash s = h) (at_sessions d)\<rparr>)"
  by (simp add: DeleteSessionByToken_def commit_auth_ok delete_sessions_ok)

lemma DeleteUserSessions_ok [sql_simps]:
  "auth_ok d \<Longrightarrow> DeleteUserSessions u d =
     (Inr (), d\<lparr>at_sessions := sql_delete (\<lambda>s. sr_user_id s = u) (at_sessions d)\<rparr>)"
  by (simp add: DeleteUserSessions_def commit_auth_ok delete_sessions_ok)

lemma ExtendSession_ok [sql_simps]:
  "auth_ok d \<Longrightarrow> ExtendSession seen expires i d =
     (Inr (), d\<lparr>at_sessions := sql_update (\<lambda>s. sr_id s = i)
        (\<lambda>s. s\<lparr>sr_last_seen_at := seen, sr_expires_at := expires\<rparr>) (at_sessions d)\<rparr>)"
  by (simp add: ExtendSession_def commit_auth_ok update_sessions_ok)

lemma UpdateUserPassword_ok [sql_simps]:
  "auth_ok d \<Longrightarrow> UpdateUserPassword h u i d =
     (Inr (), d\<lparr>at_users := sql_update (\<lambda>u. ur_id u = i)
        (\<lambda>r. r\<lparr>ur_password_hash := h, ur_updated_at := u\<rparr>) (at_users d)\<rparr>)"
  by (simp add: UpdateUserPassword_def commit_auth_ok update_users_ok)

lemma TouchUserLogin_ok [sql_simps]:
  "auth_ok d \<Longrightarrow> TouchUserLogin l u i d =
     (Inr (), d\<lparr>at_users := sql_update (\<lambda>u. ur_id u = i)
        (\<lambda>r. r\<lparr>ur_last_login_at := l, ur_updated_at := u\<rparr>) (at_users d)\<rparr>)"
  by (simp add: TouchUserLogin_def commit_auth_ok update_users_ok)

lemma GetSessionByToken_cases:
  assumes "auth_ok d"
  shows "GetSessionByToken h now d = (case row_by sr_token_hash h (at_sessions d) of
      None \<Rightarrow> Inl NoRows
    | Some s \<Rightarrow> if sr_expires_at s > now then Inr (s, the (row_by ur_id (sr_user_id s) (at_users d))) else Inl NoRows)"
proof -
  have d: "distinct (map sr_token_hash (at_sessions d))" using assms by (simp add: auth_ok_iff)
  have "find (\<lambda>s. sr_token_hash s = h \<and> sr_expires_at s > now) ss =
      (case row_by sr_token_hash h ss of None \<Rightarrow> None | Some s \<Rightarrow> if sr_expires_at s > now then Some s else None)"
    if "distinct (map sr_token_hash ss)" for ss
    using that
  proof (induction ss)
    case (Cons s ss)
    have "sr_token_hash s = h \<Longrightarrow> find (\<lambda>s. sr_token_hash s = h \<and> sr_expires_at s > now) ss = None"
      using Cons.prems by (auto simp: find_None_iff) (metis imageI)
    with Cons show ?case by auto
  qed simp
  from this[OF d] show ?thesis
    using assms
    by (auto simp: GetSessionByToken_def auth_ok_iff row_by_None_iff dest!: row_by_SomeD split: option.split)
qed

end
