(* ===== verification/Db.thy ===== *)
theory Db
  imports GoStrings GoTime
begin

text \<open>
  \<open>internal/db/db.go\<close>: opening and closing the two connection pools, and transactions. The
  model of \<open>Open\<close> tracks which pools are open, so that its error paths can be checked for leaks.
  SQLite, goose and the embedded migrations are outside: whether a call into them fails is an
  input. A transaction body is a function on the stored data whose result is an error or a value.
\<close>

subsection \<open>Transactions\<close>

datatype 'e tx_error = BeginFailed | BodyFailed 'e | CommitFailed | BodyPanicked

text \<open>\<open>None\<close> as the result of the body stands for a panic; its changes are then rolled back too.\<close>

definition Tx ::
  "bool \<Rightarrow> bool \<Rightarrow> ('d \<Rightarrow> ('e + 'a) option \<times> 'd) \<Rightarrow> 'd \<Rightarrow> ('e tx_error + 'a) \<times> 'd" where
  "Tx begin_fails commit_fails body d =
     (if begin_fails then (Inl BeginFailed, d)
      else case body d of
        (None, _) \<Rightarrow> (Inl BodyPanicked, d)
      | (Some (Inl e), _) \<Rightarrow> (Inl (BodyFailed e), d)
      | (Some (Inr v), d') \<Rightarrow> if commit_fails then (Inl CommitFailed, d) else (Inr v, d'))"

subsection \<open>Opening and closing\<close>

datatype pool_role = Writer | Reader

text \<open>A pool: its role, the DSN before URL encoding, and the cap on open connections (0 for none).\<close>

record sql_pool =
  po_role :: pool_role
  po_file :: string
  po_query :: "(string \<times> string) list"
  po_max_open :: int

record db_options =
  do_path :: string
  do_max_readers :: int
  do_busy_timeout :: duration

record database =
  db_write :: sql_pool
  db_read :: sql_pool
  db_path :: string

datatype open_step = OpenWrite | PingWrite | Migrate | OpenRead | PingRead

datatype open_error = PathRequired | OpenFailed open_step

text \<open>
  The migration library as it answers: whether the embedded files are found, whether a provider can
  be made, how many migrations it applied, and the version it reads.
\<close>

record goose =
  gs_files :: bool
  gs_provider :: bool
  gs_up :: "nat option"
  gs_version :: "int option"

datatype migrate_error = NoFiles | NoProvider | UpFailed | VersionFailed

definition migrate :: "goose \<Rightarrow> migrate_error option" where
  "migrate g =
     (if \<not> gs_files g then Some NoFiles
      else if \<not> gs_provider g then Some NoProvider
      else case gs_up g of
        None \<Rightarrow> Some UpFailed
      | Some applied \<Rightarrow> (case gs_version g of None \<Rightarrow> Some VersionFailed | Some v \<Rightarrow> None))"

definition Version :: "goose \<Rightarrow> migrate_error + int" where
  "Version g =
     (if \<not> gs_files g then Inl NoFiles
      else if \<not> gs_provider g then Inl NoProvider
      else case gs_version g of None \<Rightarrow> Inl VersionFailed | Some v \<Rightarrow> Inr v)"

definition openPool :: "db_options \<Rightarrow> bool \<Rightarrow> bool \<Rightarrow> sql_pool" where
  "openPool opts memory writer =
     \<lparr>po_role = (if writer then Writer else Reader),
      po_file = (if memory then '':memory:'' else do_path opts),
      po_query =
        (if memory then [] else [(''_pragma'', ''journal_mode(WAL)'')]) @
        [(''_pragma'', ''busy_timeout('' @ dec (nat (do_busy_timeout opts div millisecond)) @ '')''),
         (''_pragma'', ''foreign_keys(1)''),
         (''_pragma'', ''synchronous(NORMAL)'')] @
        (if writer then [(''_txlock'', ''immediate'')] else []),
      po_max_open = 0\<rparr>"

definition Open_db ::
  "nat \<Rightarrow> (open_step \<Rightarrow> bool) \<Rightarrow> db_options \<Rightarrow> (open_error + database) \<times> pool_role set" where
  "Open_db cpus fails opts =
     (if do_path opts = [] then (Inl PathRequired, {})
      else
        let readers = (if do_max_readers opts \<le> 0 then max 4 (int cpus) else do_max_readers opts);
            opts = opts\<lparr>do_busy_timeout :=
              if do_busy_timeout opts \<le> 0 then 5 * second else do_busy_timeout opts\<rparr>;
            memory = (do_path opts = '':memory:'');
            write = (openPool opts memory True)\<lparr>po_max_open := 1\<rparr>
        in if fails OpenWrite then (Inl (OpenFailed OpenWrite), {})
           else if fails PingWrite then (Inl (OpenFailed PingWrite), {Writer} - {Writer})
           else if fails Migrate then (Inl (OpenFailed Migrate), {Writer} - {Writer})
           else if memory
             then (Inr \<lparr>db_write = write, db_read = write, db_path = do_path opts\<rparr>, {Writer})
           else if fails OpenRead then (Inl (OpenFailed OpenRead), {Writer} - {Writer})
           else
             let read = (openPool opts memory False)\<lparr>po_max_open := readers\<rparr>
             in if fails PingRead
                  then (Inl (OpenFailed PingRead), {Writer, Reader} - {Writer} - {Reader})
                else (Inr \<lparr>db_write = write, db_read = read, db_path = do_path opts\<rparr>,
                      {Writer, Reader}))"

definition Close_db :: "(pool_role \<Rightarrow> bool) \<Rightarrow> database \<Rightarrow> pool_role set \<Rightarrow> pool_role list \<times> pool_role set" where
  "Close_db fails d opened =
     (let rd = (if db_read d \<noteq> db_write d then [po_role (db_read d)] else []);
          closed = rd @ [po_role (db_write d)]
      in (filter fails closed, opened - set closed))"

subsection \<open>Properties\<close>

text \<open>A transaction is all or nothing: when it reports success the stored data is what the body
  made of it, and when it reports any error, a panic of the body and a failed commit included,
  the stored data is what it was.\<close>

lemma Tx_all_or_nothing:
  "(case Tx begin_fails commit_fails body d of
      (Inr v, d') \<Rightarrow> body d = (Some (Inr v), d')
    | (Inl e, d') \<Rightarrow> d' = d)"
  by (auto simp: Tx_def split: prod.split sum.split option.split if_splits)

text \<open>Opening a database either fails and leaves no pool open, or succeeds with exactly the pools
  it reports, each connection of which enforces foreign keys; the writer has one connection and
  takes its lock when a transaction begins, a database in memory is read through the writer's
  connection, and closing leaves nothing open.\<close>

lemma Open_leaves_no_pool:
  "(case Open_db cpus fails opts of
      (Inl e, pools) \<Rightarrow> pools = {}
    | (Inr d, pools) \<Rightarrow> pools = {po_role (db_write d), po_role (db_read d)} \<and>
        (\<forall>p \<in> {db_write d, db_read d}. (''_pragma'', ''foreign_keys(1)'') \<in> set (po_query p)) \<and>
        po_max_open (db_write d) = 1 \<and> (''_txlock'', ''immediate'') \<in> set (po_query (db_write d)) \<and>
        (do_path opts = '':memory:'' \<longleftrightarrow> db_read d = db_write d) \<and>
        snd (Close_db fails_close d pools) = {})"
  by (auto simp: Open_db_def openPool_def Let_def Close_db_def)

lemma Open_leaves_no_pool_witness:
  "\<exists>d pools. Open_db 2 (\<lambda>_. False) \<lparr>do_path = ''m.db'', do_max_readers = 0, do_busy_timeout = 0\<rparr> = (Inr d, pools) \<and>
     po_max_open (db_write d) = 1 \<and> pools = {po_role (db_write d), po_role (db_read d)}"
proof -
  obtain d pools where e: "Open_db 2 (\<lambda>_. False)
      \<lparr>do_path = ''m.db'', do_max_readers = 0, do_busy_timeout = 0\<rparr> = (Inr d, pools)"
    by (simp add: Open_db_def Let_def)
  show ?thesis
    using Open_leaves_no_pool[where cpus = 2 and fails = "\<lambda>_. False"
        and opts = "\<lparr>do_path = ''m.db'', do_max_readers = 0, do_busy_timeout = 0\<rparr>"]
    by (simp add: e)
qed

end
