(* ===== verification/Auth.thy ===== *)
theory Auth
  imports AuthTables Password Sha256 Db
begin

text \<open>
  \<open>internal/auth/auth.go\<close>: first-run setup, login, sessions. The state is the two tables. Inputs of
  a call are its clock readings and statement failures, the identifier \<open>id.New\<close> makes, the bytes
  the random source yields (nothing when it fails), and the number of processors. Parameters are
  Argon2id and \<open>parse\<close>, the address part \<open>mail.ParseAddress\<close> finds in a text. Logging is not
  modelled.
\<close>

record auth_env =
  ae_call :: callenv
  ae_id :: string
  ae_salt :: "string option"
  ae_raw :: "string option"
  ae_cpus :: int

definition DefaultSessionTTL :: duration where "DefaultSessionTTL = 30 * 24 * hour"
definition extendAfter :: duration where "extendAfter = 24 * hour"
definition MinPasswordLength :: nat where "MinPasswordLength = 10"
definition sessionTokenBytes :: nat where "sessionTokenBytes = 32"

definition RoleAdmin :: string where "RoleAdmin = ''admin''"
definition RoleMember :: string where "RoleMember = ''member''"
definition RoleViewer :: string where "RoleViewer = ''viewer''"

datatype auth_error =
    ErrInvalidCredentials
  | ErrNoSession
  | ErrSetupComplete
  | ErrWeakPassword
  | ErrInvalidEmail
  | AuthQuery string db_error
  | AuthHash hash_error
  | NoTokenEntropy
  | AuthTx

record auth_user =
  au_id :: string
  au_email :: string
  au_display_name :: string
  au_role :: string
  au_created_at :: gotime
  au_last_login_at :: "gotime option"

record auth_session =
  as_id :: string
  as_user_id :: string
  as_created_at :: gotime
  as_last_seen_at :: gotime
  as_expires_at :: gotime

definition IsAdmin :: "auth_user option \<Rightarrow> bool" where
  "IsAdmin u = (case u of None \<Rightarrow> False | Some u \<Rightarrow> au_role u = RoleAdmin)"

definition New_ttl :: "duration \<Rightarrow> duration" where
  "New_ttl ttl = (if ttl \<le> 0 then DefaultSessionTTL else ttl)"

definition userFromRow :: "user_row \<Rightarrow> auth_user" where
  "userFromRow r =
     \<lparr>au_id = ur_id r, au_email = ur_email r, au_display_name = ur_display_name r, au_role = ur_role r,
      au_created_at = Time (ur_created_at r), au_last_login_at = TimePtr (ur_last_login_at r)\<rparr>"

definition sessionFromRow :: "session_row \<Rightarrow> auth_session" where
  "sessionFromRow r =
     \<lparr>as_id = sr_id r, as_user_id = sr_user_id r, as_created_at = Time (sr_created_at r),
      as_last_seen_at = Time (sr_last_seen_at r), as_expires_at = Time (sr_expires_at r)\<rparr>"

definition truncate_bytes :: "string \<Rightarrow> nat \<Rightarrow> string" where
  "truncate_bytes s n = (if length s \<le> n then s else take n s)"

definition fingerprint :: "string \<Rightarrow> string" where
  "fingerprint folded = hex (take 4 (sha256 (''manualbox-account-fingerprint:'' @ folded)))"

definition ValidatePassword :: "string \<Rightarrow> auth_error option" where
  "ValidatePassword password = (if rune_count password < MinPasswordLength then Some ErrWeakPassword else None)"

definition normalizeEmail :: "(string \<Rightarrow> string option) \<Rightarrow> string \<Rightarrow> auth_error + string" where
  "normalizeEmail parse email =
     (let email = trim_space email in
      if email = [] then Inl ErrInvalidEmail
      else case parse email of None \<Rightarrow> Inl ErrInvalidEmail | Some addr \<Rightarrow> Inr addr)"

definition NeedsSetup :: "db_error option \<Rightarrow> auth_tables \<Rightarrow> auth_error + bool" where
  "NeedsSetup f d =
     (case run_query f CountUsers d of Inl e \<Rightarrow> Inl (AuthQuery ''count users'' e) | Inr n \<Rightarrow> Inr (n = 0))"

text \<open>
  \<open>Setup\<close> in two halves, because another request can run between them: the checks, which end
  with the row to insert, and the insertion.
\<close>

definition setup_check ::
  "argon \<Rightarrow> (string \<Rightarrow> string option) \<Rightarrow> auth_env \<Rightarrow> string \<Rightarrow> string \<Rightarrow> string \<Rightarrow> auth_tables
   \<Rightarrow> auth_error + string \<times> string \<times> string" where
  "setup_check argon parse env email password name d =
     (case normalizeEmail parse email of
        Inl e \<Rightarrow> Inl e
      | Inr email \<Rightarrow>
     (case ValidatePassword password of
        Some e \<Rightarrow> Inl e
      | None \<Rightarrow>
     (case NeedsSetup (flt (ae_call env) 0) d of
        Inl e \<Rightarrow> Inl e
      | Inr needs \<Rightarrow>
          if \<not> needs then Inl ErrSetupComplete
          else (case HashPassword argon (ae_cpus env) (ae_salt env) password of
              Inl e \<Rightarrow> Inl (AuthHash e)
            | Inr hash \<Rightarrow> Inr (email, (if name = [] then email else name), hash)))))"

definition setup_insert ::
  "auth_env \<Rightarrow> string \<times> string \<times> string \<Rightarrow> auth_tables \<Rightarrow> (auth_error + auth_user) \<times> auth_tables" where
  "setup_insert env row d =
     (case row of (email, name, hash) \<Rightarrow>
      let now = Millis (clk (ae_call env) 0) in
      case run_stmt (flt (ae_call env) 1)
          (CreateUser (ae_id env) email (to_lower email) name hash RoleAdmin now now) d of
        (Inl e, d') \<Rightarrow> (Inl (AuthQuery ''create first user'' e), d')
      | (Inr u, d') \<Rightarrow> (Inr (userFromRow u), d'))"

definition Setup ::
  "argon \<Rightarrow> (string \<Rightarrow> string option) \<Rightarrow> auth_env \<Rightarrow> string \<Rightarrow> string \<Rightarrow> string \<Rightarrow> auth_tables
   \<Rightarrow> (auth_error + auth_user) \<times> auth_tables" where
  "Setup argon parse env email password name d =
     (case setup_check argon parse env email password name d of
        Inl e \<Rightarrow> (Inl e, d) | Inr row \<Rightarrow> setup_insert env row d)"

subsection \<open>Login\<close>

definition createSession ::
  "duration \<Rightarrow> auth_env \<Rightarrow> gotime \<Rightarrow> db_error option \<Rightarrow> string \<Rightarrow> string \<Rightarrow> string \<Rightarrow> auth_tables
   \<Rightarrow> (auth_error + string \<times> auth_session) \<times> auth_tables" where
  "createSession ttl env now f uid agent ip d =
     (case ae_raw env of
        None \<Rightarrow> (Inl NoTokenEntropy, d)
      | Some raw \<Rightarrow>
          let token = raw_encode url_alphabet raw in
          case run_stmt f (CreateSession (ae_id env) uid (sha256 token) (truncate_bytes agent 512) ip
              (Millis now) (Millis now) (Millis (now + ttl))) d of
            (Inl e, d') \<Rightarrow> (Inl (AuthQuery ''create session'' e), d')
          | (Inr row, d') \<Rightarrow> (Inr (token, sessionFromRow row), d'))"

text \<open>
  The clock readings of a login are those of the rehash, the session and the login time; its
  statements are the lookup, the rehash, the session and the login time. The second component of
  the result lists the hashes the password was compared with, each comparison being one run of
  Argon2id: a stored hash that cannot be read is compared with nothing. \<open>dummy\<close> is the hash \<open>init\<close>
  makes for accounts that do not exist, which can be read.
\<close>

definition Login ::
  "argon \<Rightarrow> duration \<Rightarrow> string \<Rightarrow> auth_env \<Rightarrow> string \<Rightarrow> string \<Rightarrow> string \<Rightarrow> string \<Rightarrow> auth_tables
   \<Rightarrow> ((auth_error + string \<times> auth_user) \<times> string list) \<times> auth_tables" where
  "Login argon ttl dummy env email password agent ip d =
     (let folded = to_lower (trim_space email); c = ae_call env in
      case run_query (flt c 0) (GetUserByEmail folded) d of
        Inl NoRows \<Rightarrow> ((Inl ErrInvalidCredentials, [dummy]), d)
      | Inl e \<Rightarrow> ((Inl (AuthQuery ''look up user'' e), []), d)
      | Inr row \<Rightarrow>
          (case VerifyPassword argon (ur_password_hash row) password of
             Inl _ \<Rightarrow> ((Inl ErrInvalidCredentials, []), d)
           | Inr (ok, needsRehash) \<Rightarrow>
               if \<not> ok then ((Inl ErrInvalidCredentials, [ur_password_hash row]), d)
               else
                 let d1 = (if needsRehash then
                     (case HashPassword argon (ae_cpus env) (ae_salt env) password of
                        Inl _ \<Rightarrow> d
                      | Inr upgraded \<Rightarrow> snd (run_stmt (flt c 1)
                          (UpdateUserPassword upgraded (Millis (clk c 0)) (ur_id row)) d))
                   else d)
                 in case createSession ttl env (clk c 1) (flt c 2) (ur_id row) agent ip d1 of
                      (Inl e, d2) \<Rightarrow> ((Inl e, [ur_password_hash row]), d2)
                    | (Inr (token, _), d2) \<Rightarrow>
                        let loginAt = Millis (clk c 2);
                            d3 = snd (run_stmt (flt c 3) (TouchUserLogin (Some loginAt) loginAt (ur_id row)) d2)
                        in ((Inr (token, userFromRow row), [ur_password_hash row]), d3)))"

subsection \<open>Sessions\<close>

definition Authenticate ::
  "duration \<Rightarrow> callenv \<Rightarrow> string \<Rightarrow> auth_tables \<Rightarrow> (auth_error + auth_user \<times> auth_session) \<times> auth_tables" where
  "Authenticate ttl env token d =
     (if token = [] then (Inl ErrNoSession, d)
      else
        let now = clk env 0 in
        case run_query (flt env 0) (GetSessionByToken (sha256 token) (Millis now)) d of
          Inl NoRows \<Rightarrow> (Inl ErrNoSession, d)
        | Inl e \<Rightarrow> (Inl (AuthQuery ''look up session'' e), d)
        | Inr (s, u) \<Rightarrow>
            let sess = sessionFromRow s; user = userFromRow u in
            if now - as_last_seen_at sess > extendAfter then
              let expires = Millis (now + ttl) in
              (case run_stmt (flt env 1) (ExtendSession (Millis now) expires (as_id sess)) d of
                 (Inl _, d') \<Rightarrow> (Inr (user, sess), d')
               | (Inr _, d') \<Rightarrow>
                   (Inr (user, sess\<lparr>as_last_seen_at := now, as_expires_at := Time expires\<rparr>), d'))
            else (Inr (user, sess), d))"

definition Logout :: "callenv \<Rightarrow> string \<Rightarrow> auth_tables \<Rightarrow> auth_error option \<times> auth_tables" where
  "Logout env token d =
     (if token = [] then (None, d)
      else case run_stmt (flt env 0) (DeleteSessionByToken (sha256 token)) d of
        (Inl e, d') \<Rightarrow> (Some (AuthQuery ''delete session'' e), d')
      | (Inr _, d') \<Rightarrow> (None, d'))"

text \<open>The statements of \<open>ChangePassword\<close>: the lookup, then the two inside the transaction.\<close>

definition change_body :: "callenv \<Rightarrow> string \<Rightarrow> string \<Rightarrow> auth_tables \<Rightarrow> (db_error + unit) option \<times> auth_tables" where
  "change_body env uid hash d =
     (case run_stmt (flt env 1) (UpdateUserPassword hash (Millis (clk env 0)) uid) d of
        (Inl e, d') \<Rightarrow> (Some (Inl e), d')
      | (Inr _, d') \<Rightarrow>
          (case run_stmt (flt env 2) (DeleteUserSessions uid) d' of
             (Inl e, d'') \<Rightarrow> (Some (Inl e), d'')
           | (Inr _, d'') \<Rightarrow> (Some (Inr ()), d'')))"

definition ChangePassword ::
  "argon \<Rightarrow> auth_env \<Rightarrow> bool \<Rightarrow> bool \<Rightarrow> string \<Rightarrow> string \<Rightarrow> string \<Rightarrow> auth_tables
   \<Rightarrow> auth_error option \<times> auth_tables" where
  "ChangePassword argon env begin_fails commit_fails uid current new d =
     (case ValidatePassword new of
        Some e \<Rightarrow> (Some e, d)
      | None \<Rightarrow>
     (case run_query (flt (ae_call env) 0) (GetUserByID uid) d of
        Inl NoRows \<Rightarrow> (Some ErrNoSession, d)
      | Inl e \<Rightarrow> (Some (AuthQuery ''look up user'' e), d)
      | Inr row \<Rightarrow>
     (case VerifyPassword argon (ur_password_hash row) current of
        Inl _ \<Rightarrow> (Some ErrInvalidCredentials, d)
      | Inr (ok, _) \<Rightarrow>
          if \<not> ok then (Some ErrInvalidCredentials, d)
          else (case HashPassword argon (ae_cpus env) (ae_salt env) new of
              Inl e \<Rightarrow> (Some (AuthHash e), d)
            | Inr hash \<Rightarrow>
                (case Tx begin_fails commit_fails (change_body (ae_call env) uid hash) d of
                   (Inl _, d') \<Rightarrow> (Some AuthTx, d')
                 | (Inr _, d') \<Rightarrow> (None, d'))))))"

definition SweepExpiredSessions :: "callenv \<Rightarrow> auth_tables \<Rightarrow> (auth_error + nat) \<times> auth_tables" where
  "SweepExpiredSessions env d =
     (case run_stmt (flt env 0) (DeleteExpiredSessions (Millis (clk env 0))) d of
        (Inl e, d') \<Rightarrow> (Inl (AuthQuery ''sweep sessions'' e), d')
      | (Inr n, d') \<Rightarrow> (Inr n, d'))"

subsection \<open>What the statements keep, the operations keep\<close>

text \<open>
  The service changes the tables through eight statements only. A relation between the tables
  before and after that each of them keeps is kept by every operation of the service.
\<close>

locale auth_statements =
  fixes R :: "auth_tables \<Rightarrow> auth_tables \<Rightarrow> bool"
  assumes same: "R d d" and chain: "R d d1 \<Longrightarrow> R d1 d2 \<Longrightarrow> R d d2"
    and create_user: "R d (snd (CreateUser i e f n h r c u d))"
    and create_session: "R d (snd (CreateSession sid uid h agent ip c seen ex d))"
    and update_password: "R d (snd (UpdateUserPassword h u i d))"
    and touch_login: "R d (snd (TouchUserLogin l u i d))"
    and extend_session: "R d (snd (ExtendSession seen ex sid d))"
    and delete_by_token: "R d (snd (DeleteSessionByToken h d))"
    and delete_of_user: "R d (snd (DeleteUserSessions uid d))"
    and delete_expired: "R d (snd (DeleteExpiredSessions now d))"
begin

lemma run_rel: "(\<And>d. R d (snd (st d))) \<Longrightarrow> R d (snd (run_stmt f st d))"
  by (cases f) (auto simp: same)

lemma run_relD: "run_stmt f st d = (x, d') \<Longrightarrow> (\<And>d. R d (snd (st d))) \<Longrightarrow> R d d'"
  using run_rel[of st d f] by simp

lemma setup_insert_rel: "R d (snd (setup_insert env row d))"
  unfolding setup_insert_def Let_def
  by (auto dest: run_relD[OF _ create_user] split: sum.split prod.split)

lemma setup_rel: "R d (snd (Setup argon parse env e p n d))"
  unfolding Setup_def by (simp add: same setup_insert_rel split: sum.split)

lemma createSession_rel: "createSession ttl env now f u a i d = (x, d') \<Longrightarrow> R d d'"
  unfolding createSession_def Let_def
  by (auto simp: same dest: run_relD[OF _ create_session] split: option.splits sum.splits prod.splits)

lemma login_rel: "R d (snd (Login argon ttl dummy env e p a i d))"
proof -
  have rehash: "R d (snd (run_stmt f (UpdateUserPassword h u k) d))" for f h u k
    by (rule run_rel[OF update_password])
  have touch: "R d' (snd (run_stmt f (TouchUserLogin l u k) d'))" for f l u k d'
    by (rule run_rel[OF touch_login])
  have s1: "createSession ttl env t f u a i (snd (run_stmt f1 (UpdateUserPassword x m k) d)) = (y, d2) \<Longrightarrow> R d d2"
    for t f u f1 x m k y d2
    by (rule chain[OF rehash createSession_rel])
  show ?thesis
    unfolding Login_def Let_def
    by (auto simp: same dest: s1 createSession_rel intro: chain[OF _ touch] split: sum.split prod.split db_error.split)
qed

lemma authenticate_rel: "R d (snd (Authenticate ttl env t d))"
  unfolding Authenticate_def Let_def
  by (auto simp: same dest: run_relD[OF _ extend_session] split: sum.split prod.split db_error.split)

lemma logout_rel: "R d (snd (Logout env t d))"
  unfolding Logout_def
  by (auto simp: same dest: run_relD[OF _ delete_by_token] split: sum.split prod.split)

lemma change_body_rel: "R d (snd (change_body env u h d))"
  unfolding change_body_def
  by (auto dest!: run_relD[OF _ update_password] run_relD[OF _ delete_of_user] intro: chain
      split: sum.split prod.split)

lemma tx_rel: "R d (snd (body d)) \<Longrightarrow> R d (snd (Tx b c body d))"
  by (auto simp: Tx_def same split: prod.split sum.split option.split)

lemma change_password_rel: "R d (snd (ChangePassword argon env b c u p n d))"
proof -
  have "R d (snd (Tx b c (change_body (ae_call env) u h) d))" for h
    by (intro tx_rel change_body_rel)
  then show ?thesis
    unfolding ChangePassword_def
    by (auto simp: same split: option.split sum.split prod.split db_error.split) (metis snd_conv)+
qed

lemma sweep_rel: "R d (snd (SweepExpiredSessions env d))"
  unfolding SweepExpiredSessions_def
  by (auto dest: run_relD[OF _ delete_expired] split: sum.split prod.split)

lemmas operations_rel = setup_rel setup_insert_rel login_rel authenticate_rel logout_rel change_password_rel sweep_rel

end

subsection \<open>Every operation keeps the tables' constraints\<close>

lemmas auth_stmt_defs = CreateUser_def CreateSession_def UpdateUserPassword_def TouchUserLogin_def
  ExtendSession_def DeleteSessionByToken_def DeleteUserSessions_def DeleteExpiredSessions_def

interpretation constraints: auth_statements "\<lambda>d d'. auth_ok d \<longrightarrow> auth_ok d'"
  by unfold_locales (auto simp: auth_stmt_defs Let_def commit_auth_keeps)

lemma operations_keep:
  assumes "auth_ok d"
  shows "auth_ok (snd (Setup argon parse env e p n d))" "auth_ok (snd (setup_insert env row d))"
    "auth_ok (snd (Login argon ttl dummy env e p a i d))" "auth_ok (snd (Authenticate ttl c t d))"
    "auth_ok (snd (Logout c t d))" "auth_ok (snd (ChangePassword argon env b k u p n d))"
    "auth_ok (snd (SweepExpiredSessions c d))"
  by (rule constraints.operations_rel[rule_format, OF assms])+

lemmas Setup_keeps = operations_keep(1) and setup_insert_keeps = operations_keep(2)
  and Login_keeps = operations_keep(3) and Authenticate_keeps = operations_keep(4)
  and Logout_keeps = operations_keep(5) and ChangePassword_keeps = operations_keep(6)
  and Sweep_keeps = operations_keep(7)

subsection \<open>No operation takes an account away\<close>

definition account_of :: "user_row \<Rightarrow> string \<times> string \<times> string" where
  "account_of r = (ur_id r, ur_email_folded r, ur_role r)"

definition accounts_kept :: "auth_tables \<Rightarrow> auth_tables \<Rightarrow> bool" where
  "accounts_kept d d' \<longleftrightarrow> prefix (map account_of (at_users d)) (map account_of (at_users d'))"

lemma account_of_update [simp]:
  "account_of (u\<lparr>ur_password_hash := h, ur_updated_at := t\<rparr>) = account_of u"
  "account_of (u\<lparr>ur_last_login_at := l, ur_updated_at := t\<rparr>) = account_of u"
  by (simp_all add: account_of_def)

lemma prefix_map_update:
  "(\<And>u. account_of (f u) = account_of u) \<Longrightarrow>
   prefix (map account_of us) (map account_of (sql_update P f us))"
  by (simp add: map_sql_update)

lemma commit_accounts:
  "prefix (map account_of (at_users d)) (map account_of (at_users d')) \<Longrightarrow> accounts_kept d (snd (commit_auth d d' v))"
  by (simp add: accounts_kept_def commit_auth_def split: option.split)

interpretation kept_accounts: auth_statements accounts_kept
  by unfold_locales
    (auto simp: auth_stmt_defs Let_def accounts_kept_def intro!: commit_accounts[unfolded accounts_kept_def]
      prefix_map_update)

text \<open>The states the service can bring the tables into, with any parameters and failures.\<close>

inductive auth_reach :: "argon \<Rightarrow> (string \<Rightarrow> string option) \<Rightarrow> auth_tables \<Rightarrow> bool" for argon parse where
  empty: "auth_reach argon parse \<lparr>at_users = [], at_sessions = []\<rparr>"
| run_setup: "auth_reach argon parse d \<Longrightarrow> auth_reach argon parse (snd (Setup argon parse env e p n d))"
| run_insert: "auth_reach argon parse d \<Longrightarrow> auth_reach argon parse (snd (setup_insert env row d))"
| login: "auth_reach argon parse d \<Longrightarrow> auth_reach argon parse (snd (Login argon ttl dummy env e p a i d))"
| authenticate: "auth_reach argon parse d \<Longrightarrow> auth_reach argon parse (snd (Authenticate ttl c t d))"
| logout: "auth_reach argon parse d \<Longrightarrow> auth_reach argon parse (snd (Logout c t d))"
| change: "auth_reach argon parse d \<Longrightarrow> auth_reach argon parse (snd (ChangePassword argon env b k u p n d))"
| sweep: "auth_reach argon parse d \<Longrightarrow> auth_reach argon parse (snd (SweepExpiredSessions c d))"

lemma auth_reach_ok: "auth_reach argon parse d \<Longrightarrow> auth_ok d"
  by (induction rule: auth_reach.induct)
    (simp_all add: Setup_keeps Login_keeps Authenticate_keeps Logout_keeps ChangePassword_keeps
      Sweep_keeps setup_insert_keeps, simp add: auth_ok_iff)

subsection \<open>Sessions\<close>

lemma createSession_Inr:
  assumes "createSession ttl env now f uid a i d = (Inr (token, s), d')"
  shows "\<exists>row. d' = d\<lparr>at_sessions := at_sessions d @ [row]\<rparr> \<and> auth_ok d' \<and>
    sr_token_hash row = sha256 token \<and> sr_user_id row = uid \<and> sr_expires_at row = Millis (now + ttl) \<and>
    (\<exists>raw. ae_raw env = Some raw \<and> token = raw_encode url_alphabet raw)"
proof -
  obtain raw where raw: "ae_raw env = Some raw" using assms by (auto simp: createSession_def split: option.splits)
  have f: "f = None" using assms raw by (cases f) (auto simp: createSession_def Let_def)
  let ?t = "raw_encode url_alphabet raw"
  let ?row = "\<lparr>sr_id = ae_id env, sr_user_id = uid, sr_token_hash = sha256 ?t,
    sr_user_agent = truncate_bytes a 512, sr_ip = i, sr_created_at = Millis now,
    sr_last_seen_at = Millis now, sr_expires_at = Millis (now + ttl)\<rparr>"
  show ?thesis
    using assms raw f
    by (cases rule: commit_auth_cases[of "d\<lparr>at_sessions := at_sessions d @ [?row]\<rparr>" d ?row])
      (auto simp: createSession_def Let_def CreateSession_def)
qed

text \<open>What a successful login is made of.\<close>

lemma Login_Inr:
  assumes "auth_ok d" "Login argon ttl dummy env email p a i d = ((Inr (token, u), hs), d')"
  obtains r d1 row d2 where
    "row_by ur_email_folded (to_lower (trim_space email)) (at_users d) = Some r" "u = userFromRow r"
    "\<exists>re. VerifyPassword argon (ur_password_hash r) p = Inr (True, re)" "hs = [ur_password_hash r]"
    "auth_ok d1" "map ur_id (at_users d1) = map ur_id (at_users d)" "at_sessions d1 = at_sessions d"
    "d2 = d1\<lparr>at_sessions := at_sessions d1 @ [row]\<rparr>" "auth_ok d2"
    "sr_token_hash row = sha256 token" "sr_user_id row = ur_id r"
    "sr_expires_at row = Millis (clk (ae_call env) 1 + ttl)"
    "\<exists>raw. ae_raw env = Some raw \<and> token = raw_encode url_alphabet raw"
    "\<exists>us. d' = d2\<lparr>at_users := us\<rparr> \<and> map ur_id us = map ur_id (at_users d)"
proof -
  let ?c = "ae_call env"
  obtain r where r: "run_query (flt ?c 0) (GetUserByEmail (to_lower (trim_space email))) d = Inr r"
    using assms(2) by (auto simp: Login_def Let_def split: sum.splits db_error.splits)
  have f0: "flt ?c 0 = None" using r by (cases "flt ?c 0") auto
  have r': "row_by ur_email_folded (to_lower (trim_space email)) (at_users d) = Some r"
    using r f0 by (auto simp: GetUserByEmail_def row_result_def split: option.splits)
  obtain re where v: "VerifyPassword argon (ur_password_hash r) p = Inr (True, re)"
    using assms(2) r by (auto simp: Login_def Let_def split: sum.splits if_splits)
  define d1 where "d1 = (if re then (case HashPassword argon (ae_cpus env) (ae_salt env) p of
        Inl _ \<Rightarrow> d | Inr up \<Rightarrow> snd (run_stmt (flt ?c 1) (UpdateUserPassword up (Millis (clk ?c 0)) (ur_id r)) d))
      else d)"
  have d1: "auth_ok d1" "map ur_id (at_users d1) = map ur_id (at_users d)" "at_sessions d1 = at_sessions d"
    using assms(1) unfolding d1_def
    by (cases "flt ?c 1"; auto simp: UpdateUserPassword_ok update_users_ok map_sql_update split: sum.split)+
  obtain s d2 where cs: "createSession ttl env (clk ?c 1) (flt ?c 2) (ur_id r) a i d1 = (Inr (token, s), d2)"
    and d': "d' = snd (run_stmt (flt ?c 3) (TouchUserLogin (Some (Millis (clk ?c 2))) (Millis (clk ?c 2)) (ur_id r)) d2)"
    and u: "u = userFromRow r" "hs = [ur_password_hash r]"
    using assms(2) r v by (auto simp: Login_def Let_def d1_def[symmetric] split: sum.splits prod.splits)
  obtain row where row: "d2 = d1\<lparr>at_sessions := at_sessions d1 @ [row]\<rparr>" "auth_ok d2"
      "sr_token_hash row = sha256 token" "sr_user_id row = ur_id r"
      "sr_expires_at row = Millis (clk ?c 1 + ttl)" "\<exists>raw. ae_raw env = Some raw \<and> token = raw_encode url_alphabet raw"
    using createSession_Inr[OF cs] by blast
  have us: "\<exists>us. d' = d2\<lparr>at_users := us\<rparr> \<and> map ur_id us = map ur_id (at_users d)"
  proof (cases "flt ?c 3")
    case None
    then show ?thesis using d' row(1,2) d1(2)
      by (auto simp: TouchUserLogin_ok map_sql_update intro!: exI)
  next
    case (Some e)
    then show ?thesis using d' row(1) d1(2) by (intro exI[of _ "at_users d2"]) simp
  qed
  show thesis using that[OF r' u(1) _ u(2) d1 row us] v by blast
qed

lemma row_by_last:
  "distinct (map key (t @ [r])) \<Longrightarrow> row_by key (key r) (t @ [r]) = Some r"
  by (rule row_by_unique) auto

lemma Authenticate_live:
  assumes ok: "auth_ok d" and t: "token \<noteq> []" "flt env 0 = None"
    and s: "row_by sr_token_hash (sha256 token) (at_sessions d) = Some s" "sr_expires_at s > Millis (clk env 0)"
  shows "\<exists>u s'. row_by ur_id (sr_user_id s) (at_users d) = Some u \<and>
    fst (Authenticate ttl env token d) = Inr (userFromRow u, s') \<and> as_id s' = sr_id s \<and> as_user_id s' = sr_user_id s"
proof -
  have "sr_user_id s \<in> ur_id ` set (at_users d)" using ok s(1) by (auto simp: auth_ok_iff dest: row_by_SomeD)
  then obtain u where u: "row_by ur_id (sr_user_id s) (at_users d) = Some u"
    by (metis not_None_eq row_by_None_iff)
  then have g: "GetSessionByToken (sha256 token) (Millis (clk env 0)) d = Inr (s, u)"
    using s by (simp add: GetSessionByToken_cases[OF ok])
  then show ?thesis using t u
    by (auto simp: Authenticate_def Let_def sessionFromRow_def split: prod.split sum.split)
qed

text \<open>After a login, until the session expires, the token finds the user who logged in.\<close>

lemma Login_then_Authenticate:
  assumes "auth_ok d" "Login argon ttl dummy env email p a i d = ((Inr (token, u), hs), d')"
    and "token \<noteq> []" "flt c 0 = None" "Millis (clk c 0) < Millis (clk (ae_call env) 1 + ttl)"
  shows "\<exists>u' s. fst (Authenticate ttl2 c token d') = Inr (u', s) \<and> au_id u' = au_id u \<and> as_user_id s = au_id u"
  using assms(1,2)
proof (cases rule: Login_Inr[case_names ok])
  case (ok r d1 row d2)
  obtain us where d': "d' = d2\<lparr>at_users := us\<rparr>" "map ur_id us = map ur_id (at_users d)"
    using ok(14) by blast
  have "auth_ok d'" using Login_keeps[OF assms(1), of argon ttl dummy env email p a i] assms(2) by simp
  moreover have "row_by sr_token_hash (sha256 token) (at_sessions d') = Some row"
    using ok(9) row_by_last[of sr_token_hash "at_sessions d1" row]
    unfolding d'(1) ok(8) ok(10)[symmetric] by (simp add: auth_ok_iff)
  moreover have "sr_expires_at row > Millis (clk c 0)" using ok(12) assms(5) by simp
  ultimately obtain u1 s1 where "row_by ur_id (sr_user_id row) (at_users d') = Some u1"
    "fst (Authenticate ttl2 c token d') = Inr (userFromRow u1, s1)" "as_user_id s1 = sr_user_id row"
    using Authenticate_live[OF _ assms(3,4), of d' row ttl2] by blast
  then show ?thesis using ok(2,11)
    by (auto simp: userFromRow_def dest: row_by_SomeD)
qed

lemma Authenticate_dead:
  assumes "auth_ok d" "\<forall>s \<in> set (at_sessions d). sr_token_hash s = sha256 token \<longrightarrow> sr_expires_at s \<le> Millis (clk env 0)"
  shows "\<exists>e. Authenticate ttl env token d = (Inl e, d) \<and> (token = [] \<or> flt env 0 = None \<longrightarrow> e = ErrNoSession)"
proof (cases "token = [] \<or> flt env 0 \<noteq> None")
  case True
  then show ?thesis by (auto simp: Authenticate_def Let_def split: db_error.split)
next
  case False
  then show ?thesis using assms
    by (auto simp: Authenticate_def Let_def GetSessionByToken_cases dest!: row_by_SomeD split: option.split)
qed

text \<open>Authenticating changes nothing but when sessions were last seen and when they expire.\<close>

definition auth_keys :: "auth_tables \<Rightarrow> user_row list \<times> session_row list" where
  "auth_keys d = (at_users d, map (\<lambda>s. s\<lparr>sr_last_seen_at := 0, sr_expires_at := 0\<rparr>) (at_sessions d))"

lemma Authenticate_touches: "auth_keys (snd (Authenticate ttl env token d)) = auth_keys d"
proof -
  have "auth_keys (snd (ExtendSession seen ex i d)) = auth_keys d" for seen ex i
    by (auto simp: ExtendSession_def commit_auth_def auth_keys_def sql_update_def split: option.split)
  then have "auth_keys (snd (run_stmt f (ExtendSession seen ex i) d)) = auth_keys d" for f seen ex i
    by (cases f) simp_all
  then show ?thesis
    unfolding Authenticate_def Let_def
    by (auto split: sum.split prod.split db_error.split) (metis snd_conv)+
qed

subsection \<open>An example\<close>

definition demo_argon :: argon where
  "demo_argon p s t m l n = take n (p @ replicate n CHR ''x'')"

definition demo_hash :: string where
  "demo_hash = encode_hash argonMemory argonTime 1 (replicate 16 CHR ''s'')
     (demo_argon ''correct horse'' (replicate 16 CHR ''s'') argonTime argonMemory 1 argonKeyLen)"

definition demo_user :: user_row where
  "demo_user = \<lparr>ur_id = ''usr_1'', ur_email = ''a@b'', ur_email_folded = ''a@b'', ur_display_name = ''A'',
     ur_password_hash = demo_hash, ur_role = ''admin'', ur_created_at = 0, ur_updated_at = 0,
     ur_last_login_at = None\<rparr>"

definition demo_session :: session_row where
  "demo_session = \<lparr>sr_id = ''ses_1'', sr_user_id = ''usr_1'', sr_token_hash = sha256 ''tok'',
     sr_user_agent = [], sr_ip = [], sr_created_at = 0, sr_last_seen_at = 0, sr_expires_at = 1000\<rparr>"

definition demo_auth :: "session_row list \<Rightarrow> auth_tables" where
  "demo_auth ss = \<lparr>at_users = [demo_user], at_sessions = ss\<rparr>"

definition demo_env :: "string \<Rightarrow> auth_env" where
  "demo_env i = \<lparr>ae_call = calm 0, ae_id = i, ae_salt = Some (replicate 16 CHR ''s''), ae_raw = Some ''r'', ae_cpus = 1\<rparr>"

lemma demo_env_sel: "ae_call (demo_env i) = calm 0" "ae_id (demo_env i) = i"
  by (simp_all add: demo_env_def)

lemma demo_auth_ok [simp]: "auth_ok (demo_auth [])" "auth_ok (demo_auth [demo_session])"
  "auth_ok \<lparr>at_users = [], at_sessions = []\<rparr>"
  by (simp_all add: auth_ok_iff demo_auth_def demo_user_def demo_session_def roles_def)

lemma demo_verify: "VerifyPassword demo_argon demo_hash ''correct horse'' = Inr (True, False)"
proof -
  have "decodeHash demo_hash = Inr (\<lparr>hp_memory = argonMemory, hp_time = argonTime, hp_parallelism = 1\<rparr>,
      replicate 16 CHR ''s'', demo_argon ''correct horse'' (replicate 16 CHR ''s'') argonTime argonMemory 1 argonKeyLen)"
    unfolding demo_hash_def by (rule decodeHash_back) (simp_all add: argon_consts demo_argon_def)
  then show ?thesis by (simp add: VerifyPassword_def demo_argon_def argon_consts)
qed

lemma demo_strings:
  "to_lower (trim_space ''a@b'') = ''a@b''" "trim_space ''a@b'' = ''a@b''" "trim_space ''c@d'' = ''c@d''"
  "to_lower ''a@b'' = ''a@b''" "to_lower ''c@d'' = ''c@d''" "rune_count ''correct horse'' = 13"
  by code_simp+

lemma demo_login: "\<exists>d'. Login demo_argon (New_ttl 0) demo_hash (demo_env ''ses_2'') ''a@b'' ''correct horse'' [] []
    (demo_auth []) = ((Inr (raw_encode url_alphabet ''r'', userFromRow demo_user), [demo_hash]), d')"
proof -
  let ?row = "\<lparr>sr_id = ''ses_2'', sr_user_id = ''usr_1'', sr_token_hash = sha256 (raw_encode url_alphabet ''r''),
    sr_user_agent = truncate_bytes [] 512, sr_ip = [], sr_created_at = Millis 0, sr_last_seen_at = Millis 0,
    sr_expires_at = Millis (0 + New_ttl 0)\<rparr>"
  have "auth_ok ((demo_auth [])\<lparr>at_sessions := [?row]\<rparr>)"
    by (simp add: auth_ok_iff demo_auth_def demo_user_def roles_def)
  then have "createSession (New_ttl 0) (demo_env ''ses_2'') 0 None ''usr_1'' [] [] (demo_auth []) =
      (Inr (raw_encode url_alphabet ''r'', sessionFromRow ?row), (demo_auth [])\<lparr>at_sessions := [?row]\<rparr>)"
    by (simp add: createSession_def Let_def CreateSession_def demo_env_def commit_auth_ok demo_auth_def)
  moreover have "GetUserByEmail ''a@b'' (demo_auth []) = Inr demo_user"
    by (simp add: GetUserByEmail_def demo_auth_def demo_user_def)
  moreover have "ur_password_hash demo_user = demo_hash" "ur_id demo_user = ''usr_1''"
    by (simp_all add: demo_user_def)
  ultimately show ?thesis
    by (simp add: Login_def Let_def demo_strings demo_verify demo_env_def)
qed

lemma demo_setup_check:
  "setup_check demo_argon Some (demo_env i) ''a@b'' ''correct horse'' [] \<lparr>at_users = [], at_sessions = []\<rparr> =
     Inr (''a@b'', ''a@b'', demo_hash)"
  "setup_check demo_argon Some (demo_env i) ''c@d'' ''correct horse'' [] \<lparr>at_users = [], at_sessions = []\<rparr> =
     Inr (''c@d'', ''c@d'', demo_hash)"
  by (simp_all add: setup_check_def normalizeEmail_def Let_def demo_strings ValidatePassword_def
    MinPasswordLength_def NeedsSetup_def CountUsers_def HashPassword_def demo_env_def argonParallelism_def
    demo_hash_def)

subsection \<open>Properties\<close>

text \<open>In every state the service can reach, whatever requests came, in whatever order and with
  whatever failures, ids, folded addresses and token hashes are unique, every role is one of the
  three, and every session belongs to a user that exists.\<close>

lemma reachable_auth_ok:
  assumes "auth_reach argon parse d"
  shows "distinct (map ur_id (at_users d)) \<and> distinct (map ur_email_folded (at_users d)) \<and>
    (\<forall>u \<in> set (at_users d). ur_role u \<in> {RoleAdmin, RoleMember, RoleViewer}) \<and>
    distinct (map sr_token_hash (at_sessions d)) \<and>
    (\<forall>s \<in> set (at_sessions d). sr_user_id s \<in> ur_id ` set (at_users d))"
  using auth_reach_ok[OF assms]
  by (auto simp: auth_ok_iff roles_def RoleAdmin_def RoleMember_def RoleViewer_def)

lemma reachable_auth_ok_witness:
  "distinct (map sr_token_hash (at_sessions (snd (Logout (calm 0) ''t'' \<lparr>at_users = [], at_sessions = []\<rparr>))))"
  using reachable_auth_ok[OF auth_reach.logout[OF auth_reach.empty[where argon = "\<lambda>_ _ _ _ _ _. []"
      and parse = Some]], of "calm 0" "''t''"] by blast

text \<open>The token a login returns authenticates as the user who logged in until the session
  expires, and is stored only as its hash.\<close>

lemma login_session_authenticates:
  assumes "auth_ok d" "Login argon ttl dummy env email p a i d = ((Inr (token, u), hs), d')"
    and "token \<noteq> []" "flt c 0 = None" "Millis (clk c 0) < Millis (clk (ae_call env) 1 + ttl)"
  shows "\<exists>u' s. fst (Authenticate ttl2 c token d') = Inr (u', s) \<and> au_id u' = au_id u \<and> as_user_id s = au_id u"
  by (rule Login_then_Authenticate[OF assms])

lemma login_session_authenticates_witness:
  "\<exists>token u hs d'. Login demo_argon (New_ttl 0) demo_hash (demo_env ''ses_2'') ''a@b'' ''correct horse'' [] []
      (demo_auth []) = ((Inr (token, u), hs), d') \<and>
    (\<exists>u' s. fst (Authenticate (New_ttl 0) (calm 0) token d') = Inr (u', s) \<and> au_id u' = ''usr_1'')"
proof -
  obtain d' where l: "Login demo_argon (New_ttl 0) demo_hash (demo_env ''ses_2'') ''a@b'' ''correct horse'' [] []
      (demo_auth []) = ((Inr (raw_encode url_alphabet ''r'', userFromRow demo_user), [demo_hash]), d')"
    using demo_login by blast
  have t: "raw_encode url_alphabet ''r'' \<noteq> []" by (simp add: raw_encode_def)
  have "Millis 0 < Millis (New_ttl 0)" by (simp add: New_ttl_def DefaultSessionTTL_def Millis_def)
  then show ?thesis
    using login_session_authenticates[OF demo_auth_ok(1) l t, of "calm 0" "New_ttl 0"] l
    by (auto simp: demo_env_def userFromRow_def demo_user_def)
qed

text \<open>C21. A token authenticates exactly when a session with its hash exists that has not expired; the
  session's life is pushed to a full lifetime from now when it was last seen more than a day ago,
  and nothing else in the tables changes.\<close>

theorem Authenticate_outcome:
  assumes "auth_ok d" "token \<noteq> []" "flt c 0 = None" "flt c 1 = None"
  shows "case row_by sr_token_hash (sha256 token) (at_sessions d) of
      None \<Rightarrow> Authenticate ttl c token d = (Inl ErrNoSession, d)
    | Some s \<Rightarrow>
        if sr_expires_at s \<le> Millis (clk c 0) then Authenticate ttl c token d = (Inl ErrNoSession, d)
        else (\<exists>u s'. fst (Authenticate ttl c token d) = Inr (u, s') \<and> au_id u = sr_user_id s \<and>
          snd (Authenticate ttl c token d) =
            (if clk c 0 - Time (sr_last_seen_at s) > 24 * hour
             then d\<lparr>at_sessions := sql_update (\<lambda>x. sr_id x = sr_id s) (\<lambda>x. x\<lparr>sr_last_seen_at := Millis (clk c 0),
               sr_expires_at := Millis (clk c 0 + ttl)\<rparr>) (at_sessions d)\<rparr>
             else d))"
proof (cases "row_by sr_token_hash (sha256 token) (at_sessions d)")
  case None
  then show ?thesis using assms by (simp add: Authenticate_def Let_def GetSessionByToken_cases)
next
  case (Some s)
  show ?thesis
  proof (cases "sr_expires_at s \<le> Millis (clk c 0)")
    case True
    then show ?thesis using assms Some by (simp add: Authenticate_def Let_def GetSessionByToken_cases)
  next
    case False
    then obtain u s' where u: "row_by ur_id (sr_user_id s) (at_users d) = Some u"
        "fst (Authenticate ttl c token d) = Inr (userFromRow u, s')"
      using Authenticate_live[OF assms(1-3) Some, of ttl] by auto
    then have g: "GetSessionByToken (sha256 token) (Millis (clk c 0)) d = Inr (s, u)"
      using Some False by (simp add: GetSessionByToken_cases[OF assms(1)])
    have "au_id (userFromRow u) = sr_user_id s" using u(1) by (auto simp: userFromRow_def dest: row_by_SomeD)
    then show ?thesis using Some False u(2) g assms
      by (simp add: Authenticate_def Let_def sessionFromRow_def extendAfter_def ExtendSession_ok[OF assms(1)])
  qed
qed

lemma Authenticate_outcome_witness:
  "Authenticate (New_ttl 0) (calm (2000 * millisecond)) ''tok'' (demo_auth [demo_session]) =
     (Inl ErrNoSession, demo_auth [demo_session])"
  using Authenticate_outcome[OF demo_auth_ok(2), of "''tok''" "calm (2000 * millisecond)" "New_ttl 0"]
  by (simp add: demo_auth_def demo_session_def Millis_def)

text \<open>After a logout the token no longer authenticates, now or later, and the sessions of all
  other tokens are untouched.\<close>

lemma logout_ends_session:
  assumes "auth_ok d" "Logout c token d = (None, d')" "flt c2 0 = None"
  shows "fst (Authenticate ttl c2 token d') = Inl ErrNoSession \<and>
    (\<forall>h. h \<noteq> sha256 token \<longrightarrow> row_by sr_token_hash h (at_sessions d') = row_by sr_token_hash h (at_sessions d))"
proof (cases "token = []")
  case True
  then show ?thesis using assms by (auto simp: Logout_def Authenticate_def)
next
  case False
  have f: "flt c 0 = None" using assms(2) False by (cases "flt c 0") (simp_all add: Logout_def)
  have d': "d' = d\<lparr>at_sessions := sql_delete (\<lambda>s. sr_token_hash s = sha256 token) (at_sessions d)\<rparr>"
    using assms(2) False f by (simp add: Logout_def DeleteSessionByToken_ok[OF assms(1)])
  have ok': "auth_ok d'" unfolding d' by (rule delete_sessions_ok[OF assms(1)])
  have rows: "row_by sr_token_hash h (at_sessions d') = (case row_by sr_token_hash h (at_sessions d) of
      None \<Rightarrow> None | Some s \<Rightarrow> if sr_token_hash s = sha256 token then None else Some s)" for h
    unfolding d' using tokens.row_after_delete[of "at_sessions d" h] assms(1) by auto
  have "row_by sr_token_hash (sha256 token) (at_sessions d') = None"
    by (auto simp: rows split: option.split dest: row_by_SomeD)
  then have "fst (Authenticate ttl c2 token d') = Inl ErrNoSession"
    using False assms(3) by (simp add: Authenticate_def Let_def GetSessionByToken_cases[OF ok'])
  then show ?thesis by (auto simp: rows split: option.split dest: row_by_SomeD)
qed

lemma logout_ends_session_witness:
  "\<exists>d'. Logout (calm 0) ''tok'' (demo_auth [demo_session]) = (None, d') \<and>
     fst (Authenticate (New_ttl 0) (calm 0) ''tok'' d') = Inl ErrNoSession"
proof -
  obtain d' where l: "Logout (calm 0) ''tok'' (demo_auth [demo_session]) = (None, d')"
    by (simp add: Logout_def DeleteSessionByToken_ok)
  from logout_ends_session[OF demo_auth_ok(2) l, of "calm 0" "New_ttl 0"] l show ?thesis by simp
qed

text \<open>C30. Sweeping expired sessions cannot be noticed: from the time of the sweep on, every token
  authenticates as it would have without it.\<close>

theorem sweep_is_unobservable:
  assumes "auth_ok d" "SweepExpiredSessions c d = (Inr n, d')" "clk c 0 \<le> clk c2 0"
  shows "fst (Authenticate ttl c2 token d') = fst (Authenticate ttl c2 token d)"
proof -
  have f: "flt c 0 = None" using assms(2) by (cases "flt c 0") (simp_all add: SweepExpiredSessions_def)
  let ?P = "\<lambda>s. sr_expires_at s \<le> Millis (clk c 0)"
  have d': "d' = d\<lparr>at_sessions := sql_delete ?P (at_sessions d)\<rparr>"
    using assms(2) f by (simp add: SweepExpiredSessions_def DeleteExpiredSessions_ok[OF assms(1)])
  have ok': "auth_ok d'" unfolding d' by (rule delete_sessions_ok[OF assms(1)])
  have rows: "row_by sr_token_hash h (at_sessions d') = (case row_by sr_token_hash h (at_sessions d) of
      None \<Rightarrow> None | Some s \<Rightarrow> if ?P s then None else Some s)" for h
    unfolding d' using tokens.row_after_delete[of "at_sessions d" h ?P] assms(1) by auto
  have us: "at_users d' = at_users d" by (simp add: d')
  have "Millis (clk c 0) \<le> Millis (clk c2 0)" by (rule Millis_mono[OF assms(3)])
  then have g: "GetSessionByToken h (Millis (clk c2 0)) d' = GetSessionByToken h (Millis (clk c2 0)) d" for h
    using us by (auto simp: GetSessionByToken_cases[OF ok'] GetSessionByToken_cases[OF assms(1)] rows split: option.split)
  show ?thesis
  proof (cases "flt c2 0")
    case None
    then show ?thesis using g
      by (cases "flt c2 1") (auto simp: Authenticate_def Let_def ExtendSession_ok[OF assms(1)]
        ExtendSession_ok[OF ok'] split: sum.split db_error.split)
  next
    case (Some e)
    then show ?thesis by (simp add: Authenticate_def Let_def split: db_error.split)
  qed
qed

lemma sweep_is_unobservable_witness:
  "\<exists>n d'. SweepExpiredSessions (calm 0) (demo_auth [demo_session]) = (Inr n, d') \<and>
     fst (Authenticate (New_ttl 0) (calm 5) ''tok'' d') =
       fst (Authenticate (New_ttl 0) (calm 5) ''tok'' (demo_auth [demo_session]))"
proof -
  obtain n d' where l: "SweepExpiredSessions (calm 0) (demo_auth [demo_session]) = (Inr n, d')"
    by (simp add: SweepExpiredSessions_def DeleteExpiredSessions_ok)
  from sweep_is_unobservable[OF demo_auth_ok(2) l, of "calm 5" "New_ttl 0" "''tok''"] l show ?thesis by auto
qed

text \<open>C27. A failed login reveals nothing: for an account that does not exist, for a wrong password and
  for an unreadable stored hash the error is the same and the tables are unchanged; exactly one
  Argon2id hash has been computed to compare the password with, whether the account exists or not
  (none if its stored hash is unreadable); a login succeeds only when the password verifies against
  the stored hash of the account.\<close>

theorem failed_login_reveals_nothing:
  assumes "auth_ok d" "flt (ae_call env) 0 = None"
    and "Login argon ttl dummy env email p a i d = ((res, hs), d')"
  shows "case row_by ur_email_folded (to_lower (trim_space email)) (at_users d) of
      None \<Rightarrow> res = Inl ErrInvalidCredentials \<and> hs = [dummy] \<and> d' = d
    | Some r \<Rightarrow> hs = (case decodeHash (ur_password_hash r) of Inl _ \<Rightarrow> [] | Inr _ \<Rightarrow> [ur_password_hash r]) \<and>
        ((\<exists>re. VerifyPassword argon (ur_password_hash r) p = Inr (True, re)) \<or>
         res = Inl ErrInvalidCredentials \<and> d' = d)"
  using assms(2,3)
  by (auto simp: Login_def Let_def GetUserByEmail_def row_result_def VerifyPassword_def
      split: option.splits sum.splits prod.splits if_splits)

lemma failed_login_reveals_nothing_witness:
  "Login demo_argon (New_ttl 0) demo_hash (demo_env ''ses_2'') ''c@d'' ''correct horse'' [] [] (demo_auth []) =
     ((Inl ErrInvalidCredentials, [demo_hash]), demo_auth [])"
proof -
  obtain res hs d' where l: "Login demo_argon (New_ttl 0) demo_hash (demo_env ''ses_2'') ''c@d'' ''correct horse''
      [] [] (demo_auth []) = ((res, hs), d')" by (metis prod.collapse)
  have "row_by ur_email_folded (to_lower (trim_space ''c@d'')) (at_users (demo_auth [])) = None"
    by (simp add: demo_strings demo_auth_def demo_user_def)
  then show ?thesis
    using failed_login_reveals_nothing[OF demo_auth_ok(1) _ l] l by (simp add: demo_env_def)
qed

text \<open>C28. Setup succeeds only on an instance without users, makes the one administrator, and no setup
  after it succeeds, whoever asks.\<close>

theorem setup_happens_once:
  assumes "auth_ok d" "Setup argon parse env email p n d = (Inr u, d')"
  shows "at_users d = [] \<and> map ur_role (at_users d') = [RoleAdmin] \<and> map ur_id (at_users d') = [au_id u] \<and>
    (\<nexists>u2 d2. Setup argon parse env2 email2 p2 n2 d' = (Inr u2, d2))"
proof -
  obtain row where row: "setup_check argon parse env email p n d = Inr row" "setup_insert env row d = (Inr u, d')"
    using assms(2) by (auto simp: Setup_def split: sum.splits)
  obtain em nm h where r: "row = (em, nm, h)" by (metis prod_cases3)
  have "NeedsSetup (flt (ae_call env) 0) d = Inr True"
    using row(1) by (auto simp: setup_check_def split: sum.splits option.splits if_splits)
  then have none: "at_users d = []"
    by (cases "flt (ae_call env) 0") (auto simp: NeedsSetup_def CountUsers_def)
  have f: "flt (ae_call env) 1 = None"
    using row(2) r by (cases "flt (ae_call env) 1") (auto simp: setup_insert_def Let_def)
  let ?now = "Millis (clk (ae_call env) 0)"
  let ?u = "\<lparr>ur_id = ae_id env, ur_email = em, ur_email_folded = to_lower em, ur_display_name = nm,
               ur_password_hash = h, ur_role = RoleAdmin, ur_created_at = ?now,
               ur_updated_at = ?now, ur_last_login_at = None\<rparr>"
  have d': "d' = d\<lparr>at_users := [?u]\<rparr> \<and> u = userFromRow ?u"
    using row(2) r f none
    by (cases rule: commit_auth_cases[of "d\<lparr>at_users := [?u]\<rparr>" d ?u])
      (auto simp: setup_insert_def Let_def CreateUser_def)
  then have "at_users d' \<noteq> []" by simp
  then have "setup_check argon parse env2 email2 p2 n2 d' \<noteq> Inr x" for x
    by (cases "flt (ae_call env2) 0")
      (auto simp: setup_check_def NeedsSetup_def CountUsers_def split: sum.splits option.splits)
  then have "\<nexists>u2 d2. Setup argon parse env2 email2 p2 n2 d' = (Inr u2, d2)"
    by (auto simp: Setup_def split: sum.splits)
  then show ?thesis using none d' by (simp add: userFromRow_def)
qed

lemma setup_happens_once_witness:
  "\<exists>u d'. Setup demo_argon Some (demo_env ''usr_1'') ''a@b'' ''correct horse'' [] \<lparr>at_users = [], at_sessions = []\<rparr> =
     (Inr u, d') \<and> map ur_role (at_users d') = [RoleAdmin]"
proof -
  obtain u d' where l: "Setup demo_argon Some (demo_env ''usr_1'') ''a@b'' ''correct horse'' []
      \<lparr>at_users = [], at_sessions = []\<rparr> = (Inr u, d')"
    by (simp add: Setup_def demo_setup_check setup_insert_def Let_def CreateUser_def commit_auth_ok
      auth_ok_iff roles_def RoleAdmin_def demo_env_sel)
  from setup_happens_once[OF demo_auth_ok(3) l] l show ?thesis by blast
qed

text \<open>C37. The check for existing users and the insertion are two statements outside a transaction: when
  two setup requests both pass the check before either inserts, both succeed and the instance has
  two administrators.\<close>

theorem concurrent_setups_make_two_admins:
  assumes "auth_ok d" "setup_check argon parse env1 e1 p1 n1 d = Inr (em1, nm1, h1)"
    and "setup_check argon parse env2 e2 p2 n2 d = Inr (em2, nm2, h2)"
    and "to_lower em1 \<noteq> to_lower em2" "ae_id env1 \<noteq> ae_id env2"
    and "flt (ae_call env1) 1 = None" "flt (ae_call env2) 1 = None"
  shows "map ur_role (at_users (snd (setup_insert env2 (em2, nm2, h2) (snd (setup_insert env1 (em1, nm1, h1) d)))))
    = [RoleAdmin, RoleAdmin]"
proof -
  have "NeedsSetup (flt (ae_call env1) 0) d = Inr True"
    using assms(2) by (auto simp: setup_check_def split: sum.splits option.splits if_splits)
  then have none: "at_users d = []"
    by (cases "flt (ae_call env1) 0") (auto simp: NeedsSetup_def CountUsers_def)
  then have "at_sessions d = []" using assms(1) by (cases "at_sessions d") (auto simp: auth_ok_iff)
  with none assms(4-) show ?thesis
    by (simp add: setup_insert_def Let_def CreateUser_def commit_auth_ok auth_ok_iff roles_def RoleAdmin_def)
qed

lemma concurrent_setups_make_two_admins_witness:
  "length (at_users (snd (setup_insert (demo_env ''usr_2'') (''c@d'', ''c@d'', demo_hash)
     (snd (setup_insert (demo_env ''usr_1'') (''a@b'', ''a@b'', demo_hash) \<lparr>at_users = [], at_sessions = []\<rparr>))))) = 2"
proof -
  have "map ur_role (at_users (snd (setup_insert (demo_env ''usr_2'') (''c@d'', ''c@d'', demo_hash)
     (snd (setup_insert (demo_env ''usr_1'') (''a@b'', ''a@b'', demo_hash) \<lparr>at_users = [], at_sessions = []\<rparr>)))))
    = [RoleAdmin, RoleAdmin]"
    by (rule concurrent_setups_make_two_admins[OF demo_auth_ok(3) demo_setup_check])
      (simp_all add: demo_strings demo_env_def)
  then show ?thesis by (metis length_map list.size(3,4) numeral_2_eq_2 One_nat_def add.commute plus_1_eq_Suc)
qed

lemma updated_hash:
  assumes "row_by ur_id uid us = Some r" "distinct (map ur_id us)" "\<And>u. ur_id (f u) = ur_id u" "\<And>u. ur_password_hash (f u) = h"
  shows "map ur_password_hash (filter (\<lambda>u. ur_id u = uid) (sql_update (\<lambda>u. ur_id u = uid) f us)) = [h]"
  using assms(1,2)
proof (induction us)
  case (Cons u us)
  show ?case
  proof (cases "ur_id u = uid")
    case True
    then have "filter (\<lambda>u. ur_id u = uid) us = []" using Cons.prems
      by (auto simp: filter_empty_conv) (metis imageI)
    then show ?thesis using True assms(3,4) by (auto simp: sql_update_def filter_map o_def filter_empty_conv)
  next
    case False
    then show ?thesis using Cons by (simp add: sql_update_def)
  qed
qed simp

text \<open>C29. A password change either succeeds, and then the new hash is stored and every session of the
  user is gone while those of other users remain, or it changes nothing at all.\<close>

theorem ChangePassword_revokes_sessions:
  assumes "auth_ok d" "ChangePassword argon env b k uid cur new d = (res, d')"
  shows "if res = None then \<exists>h. HashPassword argon (ae_cpus env) (ae_salt env) new = Inr h \<and>
      (\<exists>r. row_by ur_id uid (at_users d) = Some r \<and> (\<exists>re. VerifyPassword argon (ur_password_hash r) cur = Inr (True, re))) \<and>
      map ur_password_hash (filter (\<lambda>u. ur_id u = uid) (at_users d')) = [h] \<and>
      at_sessions d' = filter (\<lambda>s. sr_user_id s \<noteq> uid) (at_sessions d)
    else d' = d"
proof (cases "res = None")
  case False
  then show ?thesis using assms(2)
    by (auto simp: ChangePassword_def Tx_def split: option.splits sum.splits db_error.splits prod.splits if_splits)
next
  case True
  let ?c = "ae_call env"
  obtain r re h where r: "GetUserByID uid d = Inr r" "VerifyPassword argon (ur_password_hash r) cur = Inr (True, re)"
    "HashPassword argon (ae_cpus env) (ae_salt env) new = Inr h"
    and tx: "Tx b k (change_body ?c uid h) d = (Inr (), d')"
    using assms(2) True
    by (cases "flt ?c 0")
      (auto simp: ChangePassword_def split: option.splits sum.splits db_error.splits prod.splits if_splits)
  have body: "change_body ?c uid h d = (Some (Inr ()), d')"
    using tx by (auto simp: Tx_def split: option.splits sum.splits prod.splits if_splits)
  let ?f = "\<lambda>r. r\<lparr>ur_password_hash := h, ur_updated_at := Millis (clk ?c 0)\<rparr>"
  let ?d1 = "d\<lparr>at_users := sql_update (\<lambda>u. ur_id u = uid) ?f (at_users d)\<rparr>"
  have f: "flt ?c 1 = None" using body by (cases "flt ?c 1") (simp_all add: change_body_def)
  have ok1: "auth_ok ?d1" by (rule update_users_ok[OF assms(1)]) simp
  have s1: "run_stmt (flt ?c 1) (UpdateUserPassword h (Millis (clk ?c 0)) uid) d = (Inr (), ?d1)"
    using f by (simp add: UpdateUserPassword_ok[OF assms(1)])
  have f2: "flt ?c 2 = None" using body s1 by (cases "flt ?c 2") (simp_all add: change_body_def)
  have d': "d' = ?d1\<lparr>at_sessions := sql_delete (\<lambda>s. sr_user_id s = uid) (at_sessions d)\<rparr>"
    using body s1 f2 by (simp add: change_body_def DeleteUserSessions_ok[OF ok1])
  have row: "row_by ur_id uid (at_users d) = Some r" using r(1) by (auto simp: GetUserByID_def row_result_def split: option.splits)
  show ?thesis
    using True r row d' assms(1) updated_hash[OF row _, of ?f h] by (auto simp: sql_delete_def auth_ok_iff)
qed

lemma ChangePassword_revokes_sessions_witness:
  "\<exists>d'. ChangePassword demo_argon (demo_env []) False False ''usr_1'' ''correct horse'' ''correct horse''
     (demo_auth [demo_session]) = (None, d') \<and> at_sessions d' = []"
proof -
  have g: "GetUserByID ''usr_1'' (demo_auth [demo_session]) = Inr demo_user" "ur_password_hash demo_user = demo_hash"
    by (simp_all add: GetUserByID_def demo_auth_def demo_user_def)
  obtain res d' where l: "ChangePassword demo_argon (demo_env []) False False ''usr_1'' ''correct horse'' ''correct horse''
     (demo_auth [demo_session]) = (res, d')" by fastforce
  moreover have "res = None"
    using l by (auto simp: ChangePassword_def ValidatePassword_def demo_strings MinPasswordLength_def g demo_verify
      HashPassword_def Let_def Tx_def change_body_def UpdateUserPassword_ok DeleteUserSessions_ok update_users_ok demo_env_def)
  ultimately show ?thesis
    using ChangePassword_revokes_sessions[OF demo_auth_ok(2) l] by (auto simp: demo_auth_def demo_session_def)
qed

end
