(* ===== verification/Ids.thy ===== *)
theory Ids
  imports GoStrings GoTime
begin

text \<open>
  \<open>internal/id/id.go\<close>: prefixed identifiers. A ULID comes from a third-party package, whose
  \<open>MustNew\<close>, \<open>ParseStrict\<close> and \<open>Time\<close> are parameters: \<open>render\<close> makes the text of the ULID of a
  time in milliseconds and some entropy, \<open>parse\<close> reads a text back, and \<open>stamp\<close> is the time
  of a parsed ULID.
\<close>

datatype kind = User | Session | Location | Device | Document | Asset | Plan | Occurrence | Job
  | Notifier | Term

fun kind_text :: "kind \<Rightarrow> string" where
  "kind_text User = ''usr''"
| "kind_text Session = ''ses''"
| "kind_text Location = ''loc''"
| "kind_text Device = ''dev''"
| "kind_text Document = ''doc''"
| "kind_text Asset = ''ast''"
| "kind_text Plan = ''pln''"
| "kind_text Occurrence = ''occ''"
| "kind_text Job = ''job''"
| "kind_text Notifier = ''ntf''"
| "kind_text Term = ''trm''"

definition ulidLen :: nat where "ulidLen = 26"

datatype id_error = MissingPrefix | WrongLength nat | BadUlid

definition New_id :: "(millis \<Rightarrow> 'r \<Rightarrow> string) \<Rightarrow> gotime \<Rightarrow> 'r \<Rightarrow> string \<Rightarrow> string" where
  "New_id render now entropy k = k @ ''_'' @ render (Millis now) entropy"

definition Parse :: "(string \<Rightarrow> 'u option) \<Rightarrow> string \<Rightarrow> id_error + string \<times> 'u" where
  "Parse parse s =
     (case cut_at CHR ''_'' s of
        None \<Rightarrow> Inl MissingPrefix
      | Some (p, rest) \<Rightarrow>
          if length rest \<noteq> ulidLen then Inl (WrongLength (length rest))
          else case parse rest of None \<Rightarrow> Inl BadUlid | Some u \<Rightarrow> Inr (p, u))"

definition Valid :: "(string \<Rightarrow> 'u option) \<Rightarrow> string \<Rightarrow> string \<Rightarrow> bool" where
  "Valid parse k s = (case Parse parse s of Inr (got, _) \<Rightarrow> got = k | Inl _ \<Rightarrow> False)"

definition Time_id :: "(string \<Rightarrow> 'u option) \<Rightarrow> ('u \<Rightarrow> millis) \<Rightarrow> string \<Rightarrow> id_error + gotime" where
  "Time_id parse stamp s = (case Parse parse s of Inl e \<Rightarrow> Inl e | Inr (_, u) \<Rightarrow> Inr (Time (stamp u)))"

subsection \<open>What the ULID package promises\<close>

text \<open>
  The documented behaviour of the package: the ULID of a time of 48 bits has 26 characters, and
  parsing it gives back a ULID of the same millisecond.
\<close>

definition ulid_laws ::
  "(millis \<Rightarrow> 'r \<Rightarrow> string) \<Rightarrow> (string \<Rightarrow> 'u option) \<Rightarrow> ('u \<Rightarrow> millis) \<Rightarrow> bool" where
  "ulid_laws render parse stamp \<longleftrightarrow> (\<forall>ms r. 0 \<le> ms \<longrightarrow> ms < 2 ^ 48 \<longrightarrow> length (render ms r) = 26 \<and>
     (\<exists>u. parse (render ms r) = Some u \<and> stamp u = ms))"

lemma kind_no_underscore: "CHR ''_'' \<notin> set (kind_text k)"
  by (cases k) simp_all

lemma kind_text_inject: "kind_text k = kind_text l \<longleftrightarrow> k = l"
  by (cases k; cases l) simp_all

text \<open>A fresh identifier of one of the program's kinds is valid for that kind and for no other,
  and carries the millisecond it was made in.\<close>

lemma New_id_valid:
  assumes "ulid_laws render parse stamp" "0 \<le> Millis now" "Millis now < 2 ^ 48"
  shows "(Valid parse (kind_text l) (New_id render now entropy (kind_text k)) \<longleftrightarrow> l = k) \<and>
    Time_id parse stamp (New_id render now entropy (kind_text k)) = Inr (Time (Millis now))"
proof -
  obtain u where u: "parse (render (Millis now) entropy) = Some u" "stamp u = Millis now"
    "length (render (Millis now) entropy) = 26"
    using assms unfolding ulid_laws_def by metis
  have "cut_at CHR ''_'' (New_id render now entropy (kind_text k)) =
      Some (kind_text k, render (Millis now) entropy)"
    unfolding New_id_def by (simp add: cut_at_append[OF kind_no_underscore])
  then show ?thesis
    using u by (auto simp: Valid_def Time_id_def Parse_def ulidLen_def kind_text_inject)
qed

text \<open>A rendering with these properties: the 48 bits of the time in six bytes, then zeros.\<close>

definition demo_render :: "millis \<Rightarrow> unit \<Rightarrow> string" where
  "demo_render ms r = map (\<lambda>i. Char (bit ms (8 * i)) (bit ms (8 * i + 1)) (bit ms (8 * i + 2))
     (bit ms (8 * i + 3)) (bit ms (8 * i + 4)) (bit ms (8 * i + 5)) (bit ms (8 * i + 6)) (bit ms (8 * i + 7)))
     [0..<6] @ replicate 20 CHR ''0''"

definition demo_stamp :: "string \<Rightarrow> millis" where
  "demo_stamp s = horner_sum of_bool 2 (concat (map (\<lambda>c. [digit0 c, digit1 c, digit2 c, digit3 c,
     digit4 c, digit5 c, digit6 c, digit7 c]) (take 6 s)))"

lemma demo_ulid_laws: "ulid_laws demo_render Some demo_stamp"
proof -
  have "demo_stamp (demo_render ms r) = ms" if ms: "0 \<le> ms" "ms < 2 ^ 48" for ms r
  proof -
    have u: "[0..<48] = [0, 1, 2, 3, 4, 5, 6, 7, 8, 9, 10, 11, 12, 13, 14, 15, 16, 17, 18, 19, 20, 21, 22, 23, 24,
      25, 26, 27, 28, 29, 30, 31, 32, 33, 34, 35, 36, 37, 38, 39, 40, 41, 42, 43, 44, 45, 46, 47]"
      by code_simp
    have "[0..<6] = [0, 1, 2, 3, 4, 5]" by code_simp
    then have "demo_stamp (demo_render ms r) = horner_sum of_bool 2 (map (bit ms) [0..<48])"
      unfolding u by (simp add: demo_stamp_def demo_render_def numeral_2_eq_2 del: horner_sum_simps)
    also have "\<dots> = take_bit 48 ms" by (rule horner_sum_bit_eq_take_bit)
    also have "\<dots> = ms" using ms by (intro take_bit_int_eq_self)
    finally show ?thesis .
  qed
  then show ?thesis by (auto simp: ulid_laws_def demo_render_def)
qed

lemma New_id_valid_witness:
  "Valid Some (kind_text Job) (New_id demo_render 1000000 () (kind_text Job))"
  using New_id_valid[OF demo_ulid_laws, of 1000000 Job "()" Job] by (simp add: Millis_def)

end
