(* ===== verification/AesGcm.thy ===== *)
theory AesGcm
  imports Sha256
begin

text \<open>
  The authenticated encryption and key derivation the program takes from Go's standard library:
  AES (\<open>crypto/aes\<close>), GCM with 12-byte nonces, 16-byte tags and no additional data
  (\<open>crypto/cipher\<close>), HMAC-SHA256 (\<open>crypto/hmac\<close>) and HKDF-SHA256 (\<open>crypto/hkdf\<close>). They are the
  algorithms themselves, so nothing is assumed of them. What the clients need of GCM is proved in
  the locale \<open>stream_aead\<close>, for any key stream and any tag: opening inverts sealing, and whatever
  opens was sealed.
\<close>

unbundle bit_operations_syntax

type_synonym octet = "8 word"

definition octets :: "string \<Rightarrow> octet list" where
  "octets s = map (\<lambda>c. of_nat (of_char c)) s"

definition of_octets :: "octet list \<Rightarrow> string" where
  "of_octets ws = map (\<lambda>w. char_of (unat w)) ws"

definition xor_bytes :: "string \<Rightarrow> string \<Rightarrow> string" where
  "xor_bytes s t = of_octets (map2 (XOR) (octets s) (octets t))"

lemma octets_of_octets [simp]: "octets (of_octets ws) = ws"
proof -
  have "unat w mod 256 = unat w" for w :: octet
    using unsigned_less[of w, where 'a = nat] by simp
  then show ?thesis by (simp add: octets_def of_octets_def o_def)
qed

lemma of_octets_octets [simp]: "of_octets (octets s) = s"
proof -
  have "of_char c < (256::nat)" for c :: char
    using of_char_mod_256[of c, where 'a = nat] by (metis mod_less_divisor zero_less_numeral)
  then have "char_of (unat (of_nat (of_char c) :: octet)) = c" for c :: char
    by (simp add: unat_of_nat)
  then show ?thesis by (simp add: octets_def of_octets_def o_def)
qed

lemma length_octets [simp]: "length (octets s) = length s" "length (of_octets ws) = length ws"
  by (simp_all add: octets_def of_octets_def)

lemma length_xor_bytes [simp]: "length (xor_bytes s t) = min (length s) (length t)"
  by (simp add: xor_bytes_def)

lemma xor_bytes_twice: "length s = length t \<Longrightarrow> xor_bytes (xor_bytes s t) t = s"
proof -
  assume "length s = length t"
  then have "length (octets s) = length (octets t)" by simp
  then have "map2 (XOR) (map2 (XOR) (octets s) (octets t)) (octets t) = octets s"
    by (induction "octets s" "octets t" arbitrary: s t rule: list_induct2)
      (auto simp: octets_def Cons_eq_map_conv[symmetric] xor.assoc)
  then show ?thesis by (simp add: xor_bytes_def)
qed

subsection \<open>AES\<close>

definition xtime :: "octet \<Rightarrow> octet" where
  "xtime a = push_bit 1 a XOR (if bit a 7 then 0x1b else 0)"

fun gf_mul :: "nat \<Rightarrow> octet \<Rightarrow> octet \<Rightarrow> octet" where
  "gf_mul 0 a b = 0"
| "gf_mul (Suc n) a b = (if bit b 0 then a else 0) XOR gf_mul n (xtime a) (drop_bit 1 b)"

fun gf_pow :: "octet \<Rightarrow> nat \<Rightarrow> octet" where
  "gf_pow a 0 = 1"
| "gf_pow a (Suc n) = gf_mul 8 a (gf_pow a n)"

definition rot_octet :: "nat \<Rightarrow> octet \<Rightarrow> octet" where
  "rot_octet n x = push_bit n x OR drop_bit (8 - n) x"

definition sub_byte :: "octet \<Rightarrow> octet" where
  "sub_byte x = (let b = gf_pow x 254 in
     b XOR rot_octet 1 b XOR rot_octet 2 b XOR rot_octet 3 b XOR rot_octet 4 b XOR 0x63)"

text \<open>Key expansion, newest word first; a word is four octets and \<open>nk\<close> the key's number of words.\<close>

fun expand :: "nat \<Rightarrow> nat \<Rightarrow> nat \<Rightarrow> octet \<Rightarrow> octet list list \<Rightarrow> octet list list" where
  "expand nk 0 i rc ws = ws"
| "expand nk (Suc n) i rc ws =
     (let t = hd ws;
          u = (if i mod nk = 0 then map2 (XOR) (map sub_byte (rotate1 t)) [rc, 0, 0, 0]
               else if nk > 6 \<and> i mod nk = 4 then map sub_byte t else t);
          rc' = (if i mod nk = 0 then xtime rc else rc)
      in expand nk n (Suc i) rc' (map2 (XOR) (ws ! (nk - 1)) u # ws))"

fun chunks4 :: "octet list \<Rightarrow> octet list list" where
  "chunks4 (a # b # c # d # s) = [a, b, c, d] # chunks4 s"
| "chunks4 _ = []"

definition key_schedule :: "octet list \<Rightarrow> octet list list" where
  "key_schedule key = (let nk = length key div 4 in
     rev (expand nk (4 * (nk + 7) - nk) nk 1 (rev (chunks4 key))))"

definition shift_rows :: "octet list \<Rightarrow> octet list" where
  "shift_rows s = map (\<lambda>i. s ! ((4 * (i mod 4) + i) mod 16)) [0..<16]"

fun mix_columns :: "octet list \<Rightarrow> octet list" where
  "mix_columns (a # b # c # d # s) =
     [xtime a XOR xtime b XOR b XOR c XOR d, a XOR xtime b XOR xtime c XOR c XOR d,
      a XOR b XOR xtime c XOR xtime d XOR d, xtime a XOR a XOR b XOR c XOR xtime d] @ mix_columns s"
| "mix_columns s = s"

fun aes_rounds :: "octet list list \<Rightarrow> octet list \<Rightarrow> octet list" where
  "aes_rounds (k1 # k2 # k3 # k4 # ks) s =
     (let t = shift_rows (map sub_byte s); k = k1 @ k2 @ k3 @ k4 in
      if ks = [] then map2 (XOR) t k else aes_rounds ks (map2 (XOR) (mix_columns t) k))"
| "aes_rounds ks s = s"

definition aes_encrypt :: "string \<Rightarrow> string \<Rightarrow> string" where
  "aes_encrypt key block =
     (let ws = key_schedule (octets key) in
      of_octets (aes_rounds (drop 4 ws) (map2 (XOR) (octets block) (concat (take 4 ws)))))"

text \<open>\<open>aes.NewCipher\<close> takes keys of 16, 24 or 32 bytes.\<close>

definition aes_key_ok :: "string \<Rightarrow> bool" where
  "aes_key_ok key \<longleftrightarrow> length key \<in> {16, 24, 32}"

subsection \<open>GCM\<close>

type_synonym gf128 = "128 word"

definition to_gf128 :: "string \<Rightarrow> gf128" where
  "to_gf128 s = foldl (\<lambda>acc b. push_bit 8 acc OR ucast b) 0 (octets s)"

definition of_gf128 :: "gf128 \<Rightarrow> string" where
  "of_gf128 w = of_octets (map (\<lambda>i. ucast (drop_bit (120 - 8 * i) w)) [0..<16])"

fun gf128_mul :: "nat \<Rightarrow> gf128 \<Rightarrow> gf128 \<Rightarrow> gf128 \<Rightarrow> gf128" where
  "gf128_mul 0 x v z = z"
| "gf128_mul (Suc n) x v z =
     gf128_mul n x (drop_bit 1 v XOR (if bit v 0 then push_bit 120 0xe1 else 0))
       (if bit x n then z XOR v else z)"

fun blocks16 :: "nat \<Rightarrow> string \<Rightarrow> string list" where
  "blocks16 0 s = []"
| "blocks16 (Suc n) s = (if s = [] then [] else
     (take 16 s @ replicate (16 - length s) (CHR 0x00)) # blocks16 n (drop 16 s))"

definition ghash :: "gf128 \<Rightarrow> string \<Rightarrow> gf128" where
  "ghash h c =
     (let bs = map to_gf128 (blocks16 (length c) c) @ [of_nat (8 * length c)]
      in foldl (\<lambda>y b. gf128_mul 128 (y XOR b) h 0) 0 bs)"

definition counter_block :: "string \<Rightarrow> nat \<Rightarrow> string" where
  "counter_block nonce i = nonce @ bytes_of_w32 (of_nat i)"

definition gcm_keystream :: "string \<Rightarrow> string \<Rightarrow> nat \<Rightarrow> string" where
  "gcm_keystream key nonce n =
     (let s = concat (map (\<lambda>i. aes_encrypt key (counter_block nonce (i + 2))) [0..<(n + 15) div 16])
      in take n (s @ replicate n (CHR 0x00)))"

definition gcm_tag :: "string \<Rightarrow> string \<Rightarrow> string \<Rightarrow> string" where
  "gcm_tag key nonce c =
     of_gf128 (ghash (to_gf128 (aes_encrypt key (replicate 16 (CHR 0x00)))) c
       XOR to_gf128 (aes_encrypt key (counter_block nonce 1)))"

subsection \<open>Sealing and opening\<close>

definition aead_seal ::
  "(string \<Rightarrow> string \<Rightarrow> nat \<Rightarrow> string) \<Rightarrow> (string \<Rightarrow> string \<Rightarrow> string \<Rightarrow> string) \<Rightarrow> string \<Rightarrow> string \<Rightarrow> string \<Rightarrow> string" where
  "aead_seal ks tag key nonce p = (let c = xor_bytes p (ks key nonce (length p)) in c @ tag key nonce c)"

definition aead_open ::
  "(string \<Rightarrow> string \<Rightarrow> nat \<Rightarrow> string) \<Rightarrow> (string \<Rightarrow> string \<Rightarrow> string \<Rightarrow> string) \<Rightarrow> string \<Rightarrow> string \<Rightarrow> string \<Rightarrow> string option" where
  "aead_open ks tag key nonce s =
     (if length s < 16 then None
      else let c = take (length s - 16) s; t = drop (length s - 16) s in
        if t = tag key nonce c then Some (xor_bytes c (ks key nonce (length c))) else None)"

locale stream_aead =
  fixes ks :: "string \<Rightarrow> string \<Rightarrow> nat \<Rightarrow> string" and tag :: "string \<Rightarrow> string \<Rightarrow> string \<Rightarrow> string"
  assumes ks_length: "length (ks k n l) = l"
    and tag_length: "length (tag k n c) = 16"
begin

lemma open_seal: "aead_open ks tag k n (aead_seal ks tag k n p) = Some p"
  by (simp add: aead_open_def aead_seal_def Let_def ks_length tag_length xor_bytes_twice)

lemma seal_open: "aead_open ks tag k n s = Some p \<Longrightarrow> s = aead_seal ks tag k n p"
proof -
  assume o: "aead_open ks tag k n s = Some p"
  let ?c = "take (length s - 16) s"
  have t: "drop (length s - 16) s = tag k n ?c" and p: "p = xor_bytes ?c (ks k n (length ?c))"
    using o by (auto simp: aead_open_def Let_def split: if_splits)
  have "length p = length ?c" unfolding p by (simp add: ks_length)
  then have "xor_bytes p (ks k n (length p)) = ?c"
    unfolding p by (simp add: xor_bytes_twice ks_length)
  then show ?thesis using t by (simp add: aead_seal_def Let_def) (metis append_take_drop_id)
qed

lemma seal_length: "length (aead_seal ks tag k n p) = length p + 16"
  by (simp add: aead_seal_def Let_def ks_length tag_length)

lemma seal_inject: "aead_seal ks tag k n p = aead_seal ks tag k n p' \<Longrightarrow> p = p'"
  by (metis open_seal option.inject)

end

definition gcm_seal :: "string \<Rightarrow> string \<Rightarrow> string \<Rightarrow> string" where
  "gcm_seal = aead_seal gcm_keystream gcm_tag"

definition gcm_open :: "string \<Rightarrow> string \<Rightarrow> string \<Rightarrow> string option" where
  "gcm_open = aead_open gcm_keystream gcm_tag"

interpretation gcm: stream_aead gcm_keystream gcm_tag
  rewrites "aead_seal gcm_keystream gcm_tag = gcm_seal" and "aead_open gcm_keystream gcm_tag = gcm_open"
  by unfold_locales (simp_all add: gcm_keystream_def gcm_tag_def of_gf128_def Let_def gcm_seal_def gcm_open_def)

subsection \<open>HMAC and HKDF\<close>

definition hmac_sha256 :: "string \<Rightarrow> string \<Rightarrow> string" where
  "hmac_sha256 key m =
     (let k = (if length key > 64 then sha256 key else key);
          k = k @ replicate (64 - length k) (CHR 0x00);
          opad = xor_bytes k (replicate 64 (CHR 0x5c)); ipad = xor_bytes k (replicate 64 (CHR 0x36))
      in sha256 (opad @ sha256 (ipad @ m)))"

text \<open>HKDF without a salt, for at most 32 bytes: one block of the expansion.\<close>

definition hkdf_key :: "string \<Rightarrow> string \<Rightarrow> nat \<Rightarrow> string" where
  "hkdf_key secret info n =
     (let prk = hmac_sha256 (replicate 32 (CHR 0x00)) secret in take n (hmac_sha256 prk (info @ [CHR 0x01])))"

lemma length_hmac [simp]: "length (hmac_sha256 k m) = 32"
  by (simp add: hmac_sha256_def Let_def)

lemma length_hkdf_key [simp]: "n \<le> 32 \<Longrightarrow> length (hkdf_key s i n) = n"
  by (simp add: hkdf_key_def Let_def)

end
