(* ===== verification/Keyring.thy ===== *)
theory Keyring
  imports AesGcm Password
begin

text \<open>
  \<open>internal/keyring/keyring.go\<close>: the key ring. A data key is wrapped once per unlocking secret;
  the wraps live in one file, the data key in memory. Argon2id is a third-party package and the
  parameter \<open>argon\<close>; AES-GCM, HKDF, HMAC and base64 are those of the library theories. The random
  bytes, the time stamps, the failures of the operating system and the name of the temporary
  file are inputs. The file's JSON is not spelled out: a file on disk holds a key file or
  something that does not parse.
\<close>

definition dataKeySize :: nat where "dataKeySize = 32"
definition saltSize :: nat where "saltSize = 16"
definition nonceSize :: nat where "nonceSize = 12"
definition kdfMemory :: nat where "kdfMemory = 256 * 1024"
definition kdfTime :: nat where "kdfTime = 4"
definition kdfThreads :: nat where "kdfThreads = 4"
definition KindPassphrase :: string where "KindPassphrase = ''passphrase''"
definition KindOperational :: string where "KindOperational = ''operational''"

lemmas key_consts = dataKeySize_def saltSize_def nonceSize_def kdfMemory_def kdfTime_def kdfThreads_def

record wrap =
  wr_id :: string
  wr_kind :: string
  wr_label :: string
  wr_created_at :: string
  wr_salt :: string
  wr_kdf_memory :: nat
  wr_kdf_time :: nat
  wr_kdf_threads :: nat
  wr_ciphertext :: string

record keyfile =
  kf_version :: int
  kf_wraps :: "wrap list"

record keyring =
  kr_data_key :: string
  kr_file :: keyfile
  kr_path :: string

record secrets =
  se_passphrase :: string
  se_operational :: string

datatype save_step = KMkdir | KCreate | KWrite | KSync | KClose | KChmod | KRename

datatype key_error =
    SecretRequired
  | NoEntropy
  | ErrNoKeyring
  | ReadFailed
  | ParseFailed
  | UnsupportedKeyring int
  | NoWraps
  | ErrLocked
  | ErrWrongSecret
  | ErrLastWrap
  | EmptySecret
  | NoSuchWrap string
  | BadBase64
  | ShortKey
  | NoKdfParams
  | CipherInit
  | TooShort
  | DecryptFailed
  | SaveFailed save_step

text \<open>The random bytes and the time stamp that go into one wrap.\<close>

record wrap_input =
  wi_salt :: "string option"
  wi_id :: "string option"
  wi_nonce :: "string option"
  wi_created :: string

subsection \<open>Wrapping and unwrapping the data key\<close>

definition newID :: "string option \<Rightarrow> string" where
  "newID raw = (case raw of None \<Rightarrow> ''wrap'' | Some r \<Rightarrow> ''wrap_'' @ hex r)"

definition NewOperationalKey :: "string option \<Rightarrow> key_error + string" where
  "NewOperationalKey raw = (case raw of None \<Rightarrow> Inl NoEntropy | Some r \<Rightarrow> Inr (raw_encode url_alphabet r))"

definition wrapKey :: "string \<Rightarrow> string option \<Rightarrow> string \<Rightarrow> key_error + string" where
  "wrapKey kek nonce dk =
     (if \<not> aes_key_ok kek then Inl CipherInit
      else case nonce of None \<Rightarrow> Inl NoEntropy
      | Some n \<Rightarrow> Inr (raw_encode std_alphabet (n @ gcm_seal kek n dk)))"

definition unwrap :: "string \<Rightarrow> wrap \<Rightarrow> key_error + string" where
  "unwrap kek w =
     (case raw_decode std_alphabet (wr_ciphertext w) of
        None \<Rightarrow> Inl BadBase64
      | Some sealed \<Rightarrow>
          if \<not> aes_key_ok kek then Inl CipherInit
          else if length sealed < nonceSize then Inl TooShort
          else case gcm_open kek (take nonceSize sealed) (drop nonceSize sealed) of
            None \<Rightarrow> Inl DecryptFailed | Some dk \<Rightarrow> Inr dk)"

definition passphraseKEK :: "argon \<Rightarrow> string \<Rightarrow> wrap \<Rightarrow> key_error + string" where
  "passphraseKEK argon passphrase w =
     (case raw_decode std_alphabet (wr_salt w) of
        None \<Rightarrow> Inl BadBase64
      | Some salt \<Rightarrow>
          if wr_kdf_memory w = 0 \<or> wr_kdf_time w = 0 \<or> wr_kdf_threads w = 0 then Inl NoKdfParams
          else Inr (argon passphrase salt (wr_kdf_time w) (wr_kdf_memory w) (wr_kdf_threads w) dataKeySize))"

definition operationalKEK :: "string \<Rightarrow> key_error + string" where
  "operationalKEK key =
     (case (case raw_decode url_alphabet key of None \<Rightarrow> std_decode key | Some r \<Rightarrow> Some r) of
        None \<Rightarrow> Inl BadBase64
      | Some raw \<Rightarrow>
          if length raw < 16 then Inl ShortKey
          else Inr (hkdf_key raw ''manualbox/operational-kek/v1'' dataKeySize))"

definition add_wrap :: "wrap \<Rightarrow> keyring \<Rightarrow> keyring" where
  "add_wrap w k = k\<lparr>kr_file := (kr_file k)\<lparr>kf_wraps := kf_wraps (kr_file k) @ [w]\<rparr>\<rparr>"

definition addPassphraseWrap :: "argon \<Rightarrow> wrap_input \<Rightarrow> string \<Rightarrow> string \<Rightarrow> keyring \<Rightarrow> key_error + keyring" where
  "addPassphraseWrap argon wi passphrase label k =
     (case wi_salt wi of
        None \<Rightarrow> Inl NoEntropy
      | Some salt \<Rightarrow>
          let kek = argon passphrase salt kdfTime kdfMemory kdfThreads dataKeySize in
          case wrapKey kek (wi_nonce wi) (kr_data_key k) of
            Inl e \<Rightarrow> Inl e
          | Inr sealed \<Rightarrow> Inr (add_wrap
              \<lparr>wr_id = newID (wi_id wi), wr_kind = KindPassphrase, wr_label = label,
               wr_created_at = wi_created wi, wr_salt = raw_encode std_alphabet salt,
               wr_kdf_memory = kdfMemory, wr_kdf_time = kdfTime, wr_kdf_threads = kdfThreads,
               wr_ciphertext = sealed\<rparr> k))"

definition addOperationalWrap :: "wrap_input \<Rightarrow> string \<Rightarrow> string \<Rightarrow> keyring \<Rightarrow> key_error + keyring" where
  "addOperationalWrap wi key label k =
     (case operationalKEK key of
        Inl e \<Rightarrow> Inl e
      | Inr kek \<Rightarrow>
          (case wrapKey kek (wi_nonce wi) (kr_data_key k) of
             Inl e \<Rightarrow> Inl e
           | Inr sealed \<Rightarrow> Inr (add_wrap
               \<lparr>wr_id = newID (wi_id wi), wr_kind = KindOperational, wr_label = label,
                wr_created_at = wi_created wi, wr_salt = [], wr_kdf_memory = 0, wr_kdf_time = 0,
                wr_kdf_threads = 0, wr_ciphertext = sealed\<rparr> k)))"

subsection \<open>The file\<close>

datatype content = Unparsable | Keyfile keyfile

type_synonym disk = "string \<rightharpoonup> content"

record saveenv =
  sv_fails :: "save_step \<Rightarrow> bool"
  sv_tmp :: string
  sv_remove_fails :: bool

text \<open>
  \<open>save\<close> also returns the disks it passes through: the temporary file half written and written,
  and the key file renamed into place. The deferred clean-up removes the temporary file, unless that
  fails too, which nobody hears of; after the rename there is nothing left to remove.
\<close>

definition drop_temp :: "saveenv \<Rightarrow> disk \<Rightarrow> disk" where
  "drop_temp env d = (if sv_remove_fails env then d else d(sv_tmp env := None))"

definition save :: "saveenv \<Rightarrow> keyring \<Rightarrow> disk \<Rightarrow> key_error option \<times> disk \<times> disk list" where
  "save env k d =
     (let t = sv_tmp env; half = d(t \<mapsto> Unparsable); whole = d(t \<mapsto> Keyfile (kr_file k)) in
      if sv_fails env KMkdir then (Some (SaveFailed KMkdir), d, [])
      else if sv_fails env KCreate then (Some (SaveFailed KCreate), d, [])
      else if sv_fails env KWrite then (Some (SaveFailed KWrite), drop_temp env half, [half])
      else if sv_fails env KSync then (Some (SaveFailed KSync), drop_temp env whole, [half, whole])
      else if sv_fails env KClose then (Some (SaveFailed KClose), drop_temp env whole, [half, whole])
      else if sv_fails env KChmod then (Some (SaveFailed KChmod), drop_temp env whole, [half, whole])
      else if sv_fails env KRename then (Some (SaveFailed KRename), drop_temp env whole, [half, whole])
      else let done = (whole(kr_path k \<mapsto> Keyfile (kr_file k)))(t := None)
           in (None, done, [half, whole, done]))"

subsection \<open>Creating and opening\<close>

definition Create ::
  "argon \<Rightarrow> saveenv \<Rightarrow> string option \<Rightarrow> wrap_input \<Rightarrow> wrap_input \<Rightarrow> string \<Rightarrow> secrets \<Rightarrow> string \<Rightarrow> string
   \<Rightarrow> disk \<Rightarrow> (key_error + keyring) \<times> disk" where
  "Create argon env rand wi1 wi2 path s lp lo d =
     (if se_passphrase s = [] \<and> se_operational s = [] then (Inl SecretRequired, d)
      else case rand of
        None \<Rightarrow> (Inl NoEntropy, d)
      | Some dk \<Rightarrow>
          let k = \<lparr>kr_data_key = dk, kr_file = \<lparr>kf_version = 1, kf_wraps = []\<rparr>, kr_path = path\<rparr>;
              k1 = (if se_passphrase s \<noteq> [] then addPassphraseWrap argon wi1 (se_passphrase s) lp k else Inr k)
          in case k1 of Inl e \<Rightarrow> (Inl e, d)
          | Inr k1 \<Rightarrow>
              (case (if se_operational s \<noteq> [] then addOperationalWrap wi2 (se_operational s) lo k1 else Inr k1) of
                 Inl e \<Rightarrow> (Inl e, d)
               | Inr k2 \<Rightarrow>
                   (case save env k2 d of
                      (Some e, d', _) \<Rightarrow> (Inl e, d')
                    | (None, d', _) \<Rightarrow> (Inr k2, d'))))"

text \<open>The key one wrap is tried with, and what the wrap gives: nothing when its kind's secret is
  missing or wrong.\<close>

definition kek_for :: "argon \<Rightarrow> secrets \<Rightarrow> wrap \<Rightarrow> key_error + string" where
  "kek_for argon s w =
     (if wr_kind w = KindPassphrase then
        (if se_passphrase s = [] then Inl EmptySecret else passphraseKEK argon (se_passphrase s) w)
      else if wr_kind w = KindOperational then
        (if se_operational s = [] then Inl EmptySecret else operationalKEK (se_operational s))
      else Inl EmptySecret)"

definition try_wrap :: "argon \<Rightarrow> secrets \<Rightarrow> wrap \<Rightarrow> string option" where
  "try_wrap argon s w =
     (case kek_for argon s w of
        Inl _ \<Rightarrow> None
      | Inr kek \<Rightarrow> (case unwrap kek w of Inl _ \<Rightarrow> None | Inr dk \<Rightarrow> Some dk))"

fun first_open :: "argon \<Rightarrow> secrets \<Rightarrow> wrap list \<Rightarrow> string option" where
  "first_open argon s [] = None"
| "first_open argon s (w # ws) =
     (case try_wrap argon s w of Some dk \<Rightarrow> Some dk | None \<Rightarrow> first_open argon s ws)"

definition Open_keyring :: "argon \<Rightarrow> bool \<Rightarrow> string \<Rightarrow> secrets \<Rightarrow> disk \<Rightarrow> key_error + keyring" where
  "Open_keyring argon read_fails path s d =
     (if read_fails then Inl ReadFailed
      else case d path of
        None \<Rightarrow> Inl ErrNoKeyring
      | Some Unparsable \<Rightarrow> Inl ParseFailed
      | Some (Keyfile f) \<Rightarrow>
          if kf_version f \<noteq> 1 then Inl (UnsupportedKeyring (kf_version f))
          else if kf_wraps f = [] then Inl NoWraps
          else case first_open argon s (kf_wraps f) of
            None \<Rightarrow> Inl ErrLocked
          | Some dk \<Rightarrow> Inr \<lparr>kr_data_key = dk, kr_file = f, kr_path = path\<rparr>)"

subsection \<open>Operations on an open key ring\<close>

definition Wraps :: "keyring \<Rightarrow> wrap list" where
  "Wraps k = map (\<lambda>w. w\<lparr>wr_ciphertext := [], wr_salt := []\<rparr>) (kf_wraps (kr_file k))"

definition Has :: "string \<Rightarrow> keyring \<Rightarrow> bool" where
  "Has kind k \<longleftrightarrow> list_ex (\<lambda>w. wr_kind w = kind) (kf_wraps (kr_file k))"

definition AddPassphrase ::
  "argon \<Rightarrow> saveenv \<Rightarrow> wrap_input \<Rightarrow> string \<Rightarrow> string \<Rightarrow> keyring \<times> disk \<Rightarrow> key_error option \<times> keyring \<times> disk" where
  "AddPassphrase argon env wi passphrase label kd =
     (case kd of (k, d) \<Rightarrow>
      if passphrase = [] then (Some EmptySecret, k, d)
      else case addPassphraseWrap argon wi passphrase label k of
        Inl e \<Rightarrow> (Some e, k, d)
      | Inr k' \<Rightarrow> (case save env k' d of (e, d', _) \<Rightarrow> (e, k', d')))"

definition AddOperationalKey ::
  "saveenv \<Rightarrow> wrap_input \<Rightarrow> string \<Rightarrow> string \<Rightarrow> keyring \<times> disk \<Rightarrow> key_error option \<times> keyring \<times> disk" where
  "AddOperationalKey env wi key label kd =
     (case kd of (k, d) \<Rightarrow>
      if key = [] then (Some EmptySecret, k, d)
      else case addOperationalWrap wi key label k of
        Inl e \<Rightarrow> (Some e, k, d)
      | Inr k' \<Rightarrow> (case save env k' d of (e, d', _) \<Rightarrow> (e, k', d')))"

fun delete_first :: "string \<Rightarrow> wrap list \<Rightarrow> wrap list option" where
  "delete_first i [] = None"
| "delete_first i (w # ws) = (if wr_id w = i then Some ws else map_option (Cons w) (delete_first i ws))"

definition RemoveWrap :: "saveenv \<Rightarrow> string \<Rightarrow> keyring \<times> disk \<Rightarrow> key_error option \<times> keyring \<times> disk" where
  "RemoveWrap env i kd =
     (case kd of (k, d) \<Rightarrow>
      case delete_first i (kf_wraps (kr_file k)) of
        None \<Rightarrow> (Some (NoSuchWrap i), k, d)
      | Some ws \<Rightarrow>
          if length (kf_wraps (kr_file k)) = 1 then (Some ErrLastWrap, k, d)
          else let k' = k\<lparr>kr_file := (kr_file k)\<lparr>kf_wraps := ws\<rparr>\<rparr>
               in case save env k' d of (e, d', _) \<Rightarrow> (e, k', d'))"

definition Verify_keyring :: "argon \<Rightarrow> bool \<Rightarrow> secrets \<Rightarrow> keyring \<Rightarrow> disk \<Rightarrow> key_error option" where
  "Verify_keyring argon read_fails s k d =
     (case Open_keyring argon read_fails (kr_path k) s d of
        Inl ErrLocked \<Rightarrow> Some ErrWrongSecret
      | Inl e \<Rightarrow> Some e
      | Inr k' \<Rightarrow> if kr_data_key k' \<noteq> kr_data_key k then Some ErrWrongSecret else None)"

definition Encrypt :: "string option \<Rightarrow> keyring \<Rightarrow> string \<Rightarrow> key_error + string" where
  "Encrypt nonce k plain =
     (if \<not> aes_key_ok (kr_data_key k) then Inl CipherInit
      else case nonce of None \<Rightarrow> Inl NoEntropy
      | Some n \<Rightarrow> Inr (n @ gcm_seal (kr_data_key k) n plain))"

definition Decrypt :: "keyring \<Rightarrow> string \<Rightarrow> key_error + string" where
  "Decrypt k sealed =
     (if \<not> aes_key_ok (kr_data_key k) then Inl CipherInit
      else if length sealed < nonceSize then Inl TooShort
      else case gcm_open (kr_data_key k) (take nonceSize sealed) (drop nonceSize sealed) of
        None \<Rightarrow> Inl DecryptFailed | Some p \<Rightarrow> Inr p)"

definition subkey :: "keyring \<Rightarrow> string \<Rightarrow> string" where
  "subkey k purpose = hkdf_key (kr_data_key k) purpose 32"

definition Index :: "keyring \<Rightarrow> string \<Rightarrow> string" where
  "Index k v = hex (hmac_sha256 (subkey k ''manualbox/index/v1'') v)"

subsection \<open>A wrap opens with its secret\<close>

text \<open>The wrap holds a data key sealed under a key.\<close>

definition sealed_as :: "string \<Rightarrow> string \<Rightarrow> wrap \<Rightarrow> bool" where
  "sealed_as kek dk w \<longleftrightarrow>
     (\<exists>n. length n = nonceSize \<and> wr_ciphertext w = raw_encode std_alphabet (n @ gcm_seal kek n dk))"

lemma wrapKey_sealed:
  assumes "wrapKey kek nonce dk = Inr c" "length (the nonce) = nonceSize" "wr_ciphertext w = c"
  shows "sealed_as kek dk w \<and> aes_key_ok kek"
  using assms by (auto simp: wrapKey_def sealed_as_def split: if_splits option.splits)

lemma unwrap_sealed: "sealed_as kek dk w \<Longrightarrow> aes_key_ok kek \<Longrightarrow> unwrap kek w = Inr dk"
  by (auto simp: sealed_as_def unwrap_def raw_decode_encode good_alphabets gcm.open_seal)

text \<open>What unwraps under any other key was sealed under that key as well.\<close>

lemma unwrap_other:
  assumes "sealed_as kek0 dk0 w" "unwrap kek w = Inr dk"
  shows "sealed_as kek dk w"
proof -
  obtain n where n: "length n = nonceSize" "wr_ciphertext w = raw_encode std_alphabet (n @ gcm_seal kek0 n dk0)"
    using assms(1) by (auto simp: sealed_as_def)
  then have "gcm_open kek n (gcm_seal kek0 n dk0) = Some dk"
    using assms(2) by (auto simp: unwrap_def raw_decode_encode good_alphabets split: if_splits option.splits)
  then show ?thesis using n gcm.seal_open by (auto simp: sealed_as_def)
qed

lemma sealed_as_same: "sealed_as kek dk w \<Longrightarrow> sealed_as kek dk' w \<Longrightarrow> aes_key_ok kek \<Longrightarrow> dk = dk'"
  using unwrap_sealed[of kek dk w] unwrap_sealed[of kek dk' w] by simp

lemma try_wrap_Some:
  "try_wrap argon s w = Some dk \<longleftrightarrow> (\<exists>kek. kek_for argon s w = Inr kek \<and> unwrap kek w = Inr dk)"
  by (auto simp: try_wrap_def split: sum.split)

lemma passphrase_wrap:
  assumes "addPassphraseWrap argon wi p label k = Inr k'" "length (the (wi_nonce wi)) = nonceSize"
    and "p \<noteq> []"
  shows "\<exists>w kek. k' = add_wrap w k \<and> wr_kind w = KindPassphrase \<and>
    (\<forall>s. se_passphrase s = p \<longrightarrow> kek_for argon s w = Inr kek \<and> try_wrap argon s w = Some (kr_data_key k)) \<and>
    (\<forall>s. se_passphrase s = [] \<longrightarrow> try_wrap argon s w = None) \<and> sealed_as kek (kr_data_key k) w"
proof -
  obtain salt where salt: "wi_salt wi = Some salt"
    using assms(1) by (auto simp: addPassphraseWrap_def split: option.splits)
  let ?kek = "argon p salt kdfTime kdfMemory kdfThreads dataKeySize"
  obtain c where c: "wrapKey ?kek (wi_nonce wi) (kr_data_key k) = Inr c"
    using assms(1) salt by (auto simp: addPassphraseWrap_def Let_def split: sum.splits)
  let ?w = "\<lparr>wr_id = newID (wi_id wi), wr_kind = KindPassphrase, wr_label = label,
               wr_created_at = wi_created wi, wr_salt = raw_encode std_alphabet salt,
               wr_kdf_memory = kdfMemory, wr_kdf_time = kdfTime, wr_kdf_threads = kdfThreads,
               wr_ciphertext = c\<rparr>"
  have "k' = add_wrap ?w k" using assms(1) salt c by (simp add: addPassphraseWrap_def Let_def)
  moreover have "passphraseKEK argon p ?w = Inr ?kek"
    by (simp add: passphraseKEK_def raw_decode_encode good_alphabets key_consts)
  moreover have "sealed_as ?kek (kr_data_key k) ?w \<and> aes_key_ok ?kek"
    using c assms(2) by (intro wrapKey_sealed) simp_all
  moreover from this have "unwrap ?kek ?w = Inr (kr_data_key k)" using unwrap_sealed by blast
  ultimately show ?thesis using assms(3)
    by (intro exI[of _ ?w] exI[of _ ?kek]) (simp add: try_wrap_def kek_for_def)
qed

lemma operational_wrap:
  assumes "addOperationalWrap wi key label k = Inr k'" "length (the (wi_nonce wi)) = nonceSize" "key \<noteq> []"
  shows "\<exists>w kek. k' = add_wrap w k \<and> wr_kind w = KindOperational \<and>
    (\<forall>s. se_operational s = key \<longrightarrow> kek_for argon s w = Inr kek \<and> try_wrap argon s w = Some (kr_data_key k)) \<and>
    sealed_as kek (kr_data_key k) w"
proof -
  obtain kek c where c: "operationalKEK key = Inr kek" "wrapKey kek (wi_nonce wi) (kr_data_key k) = Inr c"
    using assms(1) by (auto simp: addOperationalWrap_def split: sum.splits)
  let ?w = "\<lparr>wr_id = newID (wi_id wi), wr_kind = KindOperational, wr_label = label,
                wr_created_at = wi_created wi, wr_salt = [], wr_kdf_memory = 0, wr_kdf_time = 0,
                wr_kdf_threads = 0, wr_ciphertext = c\<rparr>"
  have "k' = add_wrap ?w k" using assms(1) c by (simp add: addOperationalWrap_def)
  moreover have "sealed_as kek (kr_data_key k) ?w \<and> aes_key_ok kek"
    using c(2) assms(2) by (intro wrapKey_sealed) simp_all
  moreover from this have "unwrap kek ?w = Inr (kr_data_key k)" using unwrap_sealed by blast
  ultimately show ?thesis using c(1) assms(3)
    by (intro exI[of _ ?w] exI[of _ kek])
      (simp add: try_wrap_def kek_for_def KindPassphrase_def KindOperational_def)
qed

lemma first_open_append:
  "first_open argon s (ws @ vs) =
     (case first_open argon s ws of Some dk \<Rightarrow> Some dk | None \<Rightarrow> first_open argon s vs)"
  by (induction ws) (auto split: option.split)

lemma add_wrap_sel [simp]:
  "kr_data_key (add_wrap w k) = kr_data_key k" "kr_path (add_wrap w k) = kr_path k"
  "kf_wraps (kr_file (add_wrap w k)) = kf_wraps (kr_file k) @ [w]"
  "kf_version (kr_file (add_wrap w k)) = kf_version (kr_file k)"
  by (simp_all add: add_wrap_def)

lemma save_None:
  "save env k d = (None, d', tr) \<Longrightarrow> sv_tmp env \<noteq> kr_path k \<Longrightarrow> d' (kr_path k) = Some (Keyfile (kr_file k))"
  by (auto simp: save_def Let_def split: if_splits)

text \<open>
  The operations change the key ring in memory before they save it. When the save fails, the error
  is reported, the wrap is gone in memory, and the file still has it.
\<close>

lemma RemoveWrap_failed_save:
  assumes "delete_first i (kf_wraps (kr_file k)) = Some ws" "length (kf_wraps (kr_file k)) \<noteq> 1"
    and "sv_fails env KMkdir" "d (kr_path k) = Some (Keyfile (kr_file k))"
  shows "\<exists>k'. RemoveWrap env i (k, d) = (Some (SaveFailed KMkdir), k', d) \<and>
    kf_wraps (kr_file k') = ws \<and> d (kr_path k) = Some (Keyfile (kr_file k))"
  using assms by (simp add: RemoveWrap_def save_def)

lemma delete_first_length: "delete_first i ws = Some ws' \<Longrightarrow> length ws = Suc (length ws')"
  by (induction ws arbitrary: ws') (auto split: if_splits)

lemma RemoveWrap_never_last:
  assumes "RemoveWrap env i (k, d) = (e, k', d')" "kf_wraps (kr_file k) \<noteq> []"
  shows "kf_wraps (kr_file k') \<noteq> []"
  using assms delete_first_length[of i "kf_wraps (kr_file k)"]
  by (auto simp: RemoveWrap_def Let_def split: option.splits if_splits prod.splits)

lemma Verify_iff:
  "Verify_keyring argon f s k d = None \<longleftrightarrow>
     (\<exists>k'. Open_keyring argon f (kr_path k) s d = Inr k' \<and> kr_data_key k' = kr_data_key k)"
  by (auto simp: Verify_keyring_def split: sum.split key_error.split)

subsection \<open>An example\<close>

definition demo_kdf :: argon where
  "demo_kdf p s t m l n = take n (p @ replicate n CHR ''x'')"

definition demo_input :: wrap_input where
  "demo_input = \<lparr>wi_salt = Some (replicate 16 CHR ''s''), wi_id = Some ''123456'',
     wi_nonce = Some (replicate 12 CHR ''n''), wi_created = ''2026-01-01T00:00:00Z''\<rparr>"

definition demo_save :: saveenv where
  "demo_save = \<lparr>sv_fails = (\<lambda>_. False), sv_tmp = ''/data/.keyring-1'', sv_remove_fails = False\<rparr>"

lemma demo_input_nonce: "length (the (wi_nonce demo_input)) = nonceSize"
  by (simp add: demo_input_def nonceSize_def)

lemma length_demo_kdf [simp]: "length (demo_kdf p s t m l n) = n"
  by (auto simp: demo_kdf_def min_def)

lemma demo_add:
  "length dk = 32 \<Longrightarrow> \<exists>k'. addPassphraseWrap demo_kdf demo_input p l k = Inr k'"
  by (simp add: addPassphraseWrap_def Let_def demo_input_def wrapKey_def aes_key_ok_def dataKeySize_def)

lemma demo_create:
  "\<exists>k d'. Create demo_kdf demo_save (Some (replicate 32 CHR ''k'')) demo_input demo_input ''/data/keyring.json''
     \<lparr>se_passphrase = ''pw'', se_operational = []\<rparr> [] [] Map.empty = (Inr k, d')"
proof -
  obtain k' where "addPassphraseWrap demo_kdf demo_input ''pw'' [] \<lparr>kr_data_key = replicate 32 CHR ''k'',
      kr_file = \<lparr>kf_version = 1, kf_wraps = []\<rparr>, kr_path = ''/data/keyring.json''\<rparr> = Inr k'"
    using demo_add[of "replicate 32 CHR ''k''"] by fastforce
  then show ?thesis by (simp add: Create_def Let_def save_def demo_save_def)
qed

subsection \<open>Properties\<close>

lemma first_open_Some: "first_open argon s ws = Some dk \<Longrightarrow> \<exists>w \<in> set ws. try_wrap argon s w = Some dk"
  by (induction ws) (auto split: option.splits)

text \<open>The wraps of a new key ring: each opens with its secret, and with nothing else than a key that
  seals to the same bytes.\<close>

lemma Create_wraps:
  assumes "Create argon env (Some dk) wi1 wi2 path s lp lo d = (Inr k, d')" "sv_tmp env \<noteq> path"
    and "length (the (wi_nonce wi1)) = nonceSize" "length (the (wi_nonce wi2)) = nonceSize"
  shows "kr_data_key k = dk \<and> kr_path k = path \<and> kf_version (kr_file k) = 1 \<and> kf_wraps (kr_file k) \<noteq> [] \<and>
    d' path = Some (Keyfile (kr_file k)) \<and>
    (\<forall>s'. se_passphrase s' \<in> {[], se_passphrase s} \<longrightarrow> se_operational s' \<in> {[], se_operational s} \<longrightarrow>
      se_passphrase s' \<noteq> [] \<or> se_operational s' \<noteq> [] \<longrightarrow> first_open argon s' (kf_wraps (kr_file k)) = Some dk) \<and>
    (\<forall>w \<in> set (kf_wraps (kr_file k)). \<exists>kek. kek_for argon s w = Inr kek \<and> sealed_as kek dk w)"
proof -
  let ?k = "\<lparr>kr_data_key = dk, kr_file = \<lparr>kf_version = 1, kf_wraps = []\<rparr>, kr_path = path\<rparr>"
  have some: "se_passphrase s \<noteq> [] \<or> se_operational s \<noteq> []"
    using assms(1) by (auto simp: Create_def)
  obtain k1 where k1: "(if se_passphrase s \<noteq> [] then addPassphraseWrap argon wi1 (se_passphrase s) lp ?k else Inr ?k) = Inr k1"
    using assms(1) by (auto simp: Create_def Let_def split: sum.splits if_splits)
  obtain tr where k2: "(if se_operational s \<noteq> [] then addOperationalWrap wi2 (se_operational s) lo k1 else Inr k1) = Inr k"
    and sv: "save env k d = (None, d', tr)"
    using assms(1) k1 by (auto simp: Create_def Let_def split: sum.splits if_splits option.splits prod.splits)
  have "kr_data_key k1 = dk \<and> kr_path k1 = path \<and> kf_version (kr_file k1) = 1 \<and>
      (se_passphrase s \<noteq> [] \<longrightarrow> kf_wraps (kr_file k1) \<noteq> []) \<and>
      (\<forall>s'. se_passphrase s' \<noteq> [] \<and> se_passphrase s' = se_passphrase s \<longrightarrow>
        first_open argon s' (kf_wraps (kr_file k1)) = Some dk) \<and>
      (\<forall>s'. se_passphrase s' = [] \<longrightarrow> first_open argon s' (kf_wraps (kr_file k1)) = None) \<and>
      (\<forall>w \<in> set (kf_wraps (kr_file k1)). \<exists>kek. kek_for argon s w = Inr kek \<and> sealed_as kek dk w)"
  proof (cases "se_passphrase s = []")
    case True
    then show ?thesis using k1 by auto
  next
    case False
    then have "addPassphraseWrap argon wi1 (se_passphrase s) lp ?k = Inr k1" using k1 by simp
    from passphrase_wrap[OF this assms(3) False] show ?thesis by auto
  qed
  note p = this
  have "kr_data_key k = dk \<and> kr_path k = path \<and> kf_version (kr_file k) = 1 \<and> kf_wraps (kr_file k) \<noteq> [] \<and>
    (\<forall>s'. se_passphrase s' \<in> {[], se_passphrase s} \<longrightarrow> se_operational s' \<in> {[], se_operational s} \<longrightarrow>
      se_passphrase s' \<noteq> [] \<or> se_operational s' \<noteq> [] \<longrightarrow> first_open argon s' (kf_wraps (kr_file k)) = Some dk) \<and>
    (\<forall>w \<in> set (kf_wraps (kr_file k)). \<exists>kek. kek_for argon s w = Inr kek \<and> sealed_as kek dk w)"
  proof (cases "se_operational s = []")
    case True
    then show ?thesis using k2 p some by auto
  next
    case False
    then have a: "addOperationalWrap wi2 (se_operational s) lo k1 = Inr k" using k2 by simp
    obtain w kek where w: "k = add_wrap w k1" "\<And>s'. se_operational s' = se_operational s \<Longrightarrow>
        kek_for argon s' w = Inr kek \<and> try_wrap argon s' w = Some dk" "sealed_as kek dk w"
      using operational_wrap[OF a assms(4) False, of argon] p by blast
    have "first_open argon s' (kf_wraps (kr_file k)) = Some dk"
      if "se_passphrase s' \<in> {[], se_passphrase s}" "se_operational s' \<in> {[], se_operational s}"
        "se_passphrase s' \<noteq> [] \<or> se_operational s' \<noteq> []" for s'
      using p w(1) w(2)[of s'] that by (cases "se_passphrase s' = []") (auto simp: first_open_append)
    then show ?thesis using p w by auto
  qed
  moreover have "d' path = Some (Keyfile (kr_file k))"
    using save_None[OF sv] assms(2) calculation by simp
  ultimately show ?thesis by blast
qed

text \<open>C11. A key ring that was created opens again, to the same data key, with the passphrase alone,
  with the operational key alone, and with both, from nothing but the file on disk. With any other
  secrets it stays locked, unless one of them gives a key under which the bytes of a wrap are,
  nonce, ciphertext and tag, what sealing some data key under it gives too: a forgery of AES-GCM.\<close>

theorem Create_then_Open:
  assumes "Create argon env (Some dk) wi1 wi2 path s lp lo d = (Inr k, d')" "sv_tmp env \<noteq> path"
    and "length (the (wi_nonce wi1)) = nonceSize" "length (the (wi_nonce wi2)) = nonceSize"
    and "se_passphrase s' \<noteq> [] \<or> se_operational s' \<noteq> []"
    and "se_passphrase s' \<in> {[], se_passphrase s}" "se_operational s' \<in> {[], se_operational s}"
  shows "Open_keyring argon False path s' d' = Inr k \<and> kr_data_key k = dk \<and>
    (\<forall>other. case Open_keyring argon False path other d' of
        Inl e \<Rightarrow> e = ErrLocked
      | Inr k2 \<Rightarrow> \<exists>w \<in> set (kf_wraps (kr_file k)). \<exists>kek kek2.
          kek_for argon s w = Inr kek \<and> sealed_as kek dk w \<and>
          kek_for argon other w = Inr kek2 \<and> sealed_as kek2 (kr_data_key k2) w)"
proof (intro conjI allI)
  note c = Create_wraps[OF assms(1-4)]
  show "Open_keyring argon False path s' d' = Inr k" "kr_data_key k = dk"
    using c assms(5-7) by (auto simp: Open_keyring_def)
  fix other
  have o: "Open_keyring argon False path other d' = (case first_open argon other (kf_wraps (kr_file k)) of
      None \<Rightarrow> Inl ErrLocked
    | Some dk2 \<Rightarrow> Inr \<lparr>kr_data_key = dk2, kr_file = kr_file k, kr_path = path\<rparr>)"
    using c by (simp add: Open_keyring_def)
  show "case Open_keyring argon False path other d' of
      Inl e \<Rightarrow> e = ErrLocked
    | Inr k2 \<Rightarrow> \<exists>w \<in> set (kf_wraps (kr_file k)). \<exists>kek kek2.
        kek_for argon s w = Inr kek \<and> sealed_as kek dk w \<and>
        kek_for argon other w = Inr kek2 \<and> sealed_as kek2 (kr_data_key k2) w"
  proof (cases "first_open argon other (kf_wraps (kr_file k))")
    case (Some dk2)
    then obtain w kek2 where w: "w \<in> set (kf_wraps (kr_file k))" "kek_for argon other w = Inr kek2"
      "unwrap kek2 w = Inr dk2"
      by (auto dest!: first_open_Some simp: try_wrap_Some)
    moreover from c w(1) obtain kek where "kek_for argon s w = Inr kek" "sealed_as kek dk w" by blast
    moreover note unwrap_other[OF this(2) w(3)]
    ultimately show ?thesis unfolding o Some by auto
  qed (simp add: o)
qed

lemma Create_then_Open_witness:
  "\<exists>k d'. Create demo_kdf demo_save (Some (replicate 32 CHR ''k'')) demo_input demo_input ''/data/keyring.json''
     \<lparr>se_passphrase = ''pw'', se_operational = []\<rparr> [] [] Map.empty = (Inr k, d') \<and>
   Open_keyring demo_kdf False ''/data/keyring.json'' \<lparr>se_passphrase = ''pw'', se_operational = []\<rparr> d' = Inr k \<and>
   (\<forall>key e. Open_keyring demo_kdf False ''/data/keyring.json'' \<lparr>se_passphrase = [], se_operational = key\<rparr> d' = Inl e \<longrightarrow>
     e = ErrLocked)"
proof -
  obtain k d' where c: "Create demo_kdf demo_save (Some (replicate 32 CHR ''k'')) demo_input demo_input
      ''/data/keyring.json'' \<lparr>se_passphrase = ''pw'', se_operational = []\<rparr> [] [] Map.empty = (Inr k, d')"
    using demo_create by blast
  have "sv_tmp demo_save \<noteq> ''/data/keyring.json''" by (simp add: demo_save_def)
  note o = Create_then_Open[OF c this demo_input_nonce demo_input_nonce,
      of "\<lparr>se_passphrase = ''pw'', se_operational = []\<rparr>"]
  then have "e = ErrLocked" if "Open_keyring demo_kdf False ''/data/keyring.json''
      \<lparr>se_passphrase = [], se_operational = key\<rparr> d' = Inl e" for key e
    using that by (fastforce dest: spec[of _ "\<lparr>se_passphrase = [], se_operational = key\<rparr>"])
  with o c show ?thesis by auto
qed

text \<open>Adding a passphrase keeps every secret that opened the key ring before working, to the same
  data key, and the new passphrase opens it too; no data is re-encrypted, the data key being
  the same.\<close>

lemma AddPassphrase_adds_a_way:
  assumes "Open_keyring argon False path s d = Inr k" "AddPassphrase argon env wi p label (k, d) = (None, k', d')"
    and "sv_tmp env \<noteq> path" "length (the (wi_nonce wi)) = nonceSize"
  shows "kr_data_key k' = kr_data_key k \<and> Open_keyring argon False path s d' = Inr k' \<and>
    (first_open argon \<lparr>se_passphrase = p, se_operational = []\<rparr> (kf_wraps (kr_file k)) = None \<longrightarrow>
     Open_keyring argon False path \<lparr>se_passphrase = p, se_operational = []\<rparr> d' = Inr k')"
proof -
  have p: "p \<noteq> []" using assms(2) by (auto simp: AddPassphrase_def)
  obtain tr where a: "addPassphraseWrap argon wi p label k = Inr k'" and sv: "save env k' d = (None, d', tr)"
    using assms(2) p by (auto simp: AddPassphrase_def split: sum.splits prod.splits)
  obtain w where w: "k' = add_wrap w k" "\<And>s. se_passphrase s = p \<Longrightarrow> try_wrap argon s w = Some (kr_data_key k)"
    using passphrase_wrap[OF a assms(4) p] by blast
  have o: "kr_path k = path" "kf_version (kr_file k) = 1"
    "first_open argon s (kf_wraps (kr_file k)) = Some (kr_data_key k)"
    using assms(1) by (auto simp: Open_keyring_def split: option.splits content.splits if_splits)
  have "d' path = Some (Keyfile (kr_file k'))" using save_None[OF sv] assms(3) o(1) w(1) by simp
  moreover have k': "\<lparr>kr_data_key = kr_data_key k, kr_file = kr_file k', kr_path = path\<rparr> = k'"
    using w(1) o(1) by (cases k) (simp add: add_wrap_def)
  ultimately show ?thesis
    using w o by (simp add: Open_keyring_def first_open_append)
qed

lemma AddPassphrase_adds_a_way_witness:
  "\<exists>k d k' d'. Open_keyring demo_kdf False ''/data/keyring.json'' \<lparr>se_passphrase = ''pw'', se_operational = []\<rparr> d = Inr k \<and>
     AddPassphrase demo_kdf demo_save demo_input ''other'' [] (k, d) = (None, k', d') \<and>
     Open_keyring demo_kdf False ''/data/keyring.json'' \<lparr>se_passphrase = ''pw'', se_operational = []\<rparr> d' = Inr k'"
proof -
  let ?s = "\<lparr>se_passphrase = ''pw'', se_operational = []\<rparr>"
  let ?k0 = "\<lparr>kr_data_key = replicate 32 CHR ''k'', kr_file = \<lparr>kf_version = 1, kf_wraps = []\<rparr>,
    kr_path = ''/data/keyring.json''\<rparr>"
  obtain k where k: "addPassphraseWrap demo_kdf demo_input ''pw'' [] ?k0 = Inr k"
    using demo_add[of "replicate 32 CHR ''k''"] by fastforce
  obtain w where w: "k = add_wrap w ?k0" "try_wrap demo_kdf ?s w = Some (replicate 32 CHR ''k'')"
    using passphrase_wrap[OF k demo_input_nonce] by auto
  let ?d = "[''/data/keyring.json'' \<mapsto> Keyfile (kr_file k)]"
  have o: "Open_keyring demo_kdf False ''/data/keyring.json'' ?s ?d = Inr k"
    using w by (simp add: Open_keyring_def add_wrap_def)
  obtain k' where k': "addPassphraseWrap demo_kdf demo_input ''other'' [] k = Inr k'"
    using demo_add[of "replicate 32 CHR ''k''"] by fastforce
  obtain d' where a: "AddPassphrase demo_kdf demo_save demo_input ''other'' [] (k, ?d) = (None, k', d')"
    using k' by (simp add: AddPassphrase_def save_def Let_def demo_save_def)
  have "sv_tmp demo_save \<noteq> ''/data/keyring.json''" by (simp add: demo_save_def)
  from AddPassphrase_adds_a_way[OF o a this demo_input_nonce] o a show ?thesis by blast
qed

text \<open>C32. Saving is atomic: at every moment, whatever step fails and wherever it is cut off, the key
  ring's path holds the old file or the complete new one; it holds the new one in the end exactly
  when the save reports success, and no other file changes. The temporary file is gone, unless the
  save failed and removing it failed as well.\<close>

theorem save_is_atomic:
  assumes "save env k d = (e, d', tr)" "sv_tmp env \<noteq> kr_path k" "d (sv_tmp env) = None"
  shows "(\<forall>f \<in> insert d' (set tr). f (kr_path k) = d (kr_path k) \<or> f (kr_path k) = Some (Keyfile (kr_file k))) \<and>
    d'(sv_tmp env := None) = (if e = None then d(kr_path k \<mapsto> Keyfile (kr_file k)) else d) \<and>
    (d' (sv_tmp env) = None \<or> e \<noteq> None \<and> sv_remove_fails env)"
  using assms by (auto simp: save_def drop_temp_def Let_def fun_upd_idem fun_upd_twist split: if_splits)

lemma save_is_atomic_witness:
  "fst (snd (save (demo_save\<lparr>sv_fails := (\<lambda>s. s = KRename)\<rparr>) \<lparr>kr_data_key = [], kr_file = \<lparr>kf_version = 1, kf_wraps = []\<rparr>,
     kr_path = ''/data/keyring.json''\<rparr> Map.empty)) = Map.empty"
proof -
  let ?e = "demo_save\<lparr>sv_fails := (\<lambda>s. s = KRename)\<rparr>"
  let ?k = "\<lparr>kr_data_key = [], kr_file = \<lparr>kf_version = 1, kf_wraps = []\<rparr>, kr_path = ''/data/keyring.json''\<rparr>"
  obtain e d' tr where s: "save ?e ?k Map.empty = (e, d', tr)" by (metis prod_cases3)
  then have "e \<noteq> None" by (auto simp: save_def Let_def)
  moreover have "sv_tmp ?e \<noteq> kr_path ?k" "\<not> sv_remove_fails ?e" by (simp_all add: demo_save_def)
  ultimately have "d'(sv_tmp ?e := None) = Map.empty" "d' (sv_tmp ?e) = None"
    using save_is_atomic[OF s] by auto
  then have "d' = Map.empty" by (metis fun_upd_triv)
  then show ?thesis using s by simp
qed

text \<open>C31. What is encrypted decrypts to the same bytes, and nothing else decrypts at all: whatever
  \<open>Decrypt\<close> accepts is exactly what \<open>Encrypt\<close> makes of the bytes it returns under the nonce in
  front, so an altered ciphertext never comes back as other plaintext than its own.\<close>

theorem Decrypt_inverts_Encrypt:
  assumes "length n = nonceSize" "aes_key_ok (kr_data_key k)"
  shows "(\<exists>c. Encrypt (Some n) k p = Inr c \<and> Decrypt k c = Inr p \<and> length c = length p + 28) \<and>
    (\<forall>c' p'. Decrypt k c' = Inr p' \<longrightarrow> Encrypt (Some (take nonceSize c')) k p' = Inr c')"
proof (intro conjI allI impI)
  show "\<exists>c. Encrypt (Some n) k p = Inr c \<and> Decrypt k c = Inr p \<and> length c = length p + 28"
    using assms by (simp add: Encrypt_def Decrypt_def gcm.open_seal gcm.seal_length nonceSize_def)
  fix c' p' assume "Decrypt k c' = Inr p'"
  then have "gcm_open (kr_data_key k) (take nonceSize c') (drop nonceSize c') = Some p'"
    by (auto simp: Decrypt_def split: if_splits option.splits)
  then have "drop nonceSize c' = gcm_seal (kr_data_key k) (take nonceSize c') p'" by (rule gcm.seal_open)
  then show "Encrypt (Some (take nonceSize c')) k p' = Inr c'"
    using assms(2) by (simp add: Encrypt_def) (metis append_take_drop_id)
qed

lemma Decrypt_inverts_Encrypt_witness:
  "\<exists>c. Encrypt (Some (replicate 12 CHR ''n'')) \<lparr>kr_data_key = replicate 32 CHR ''k'',
     kr_file = \<lparr>kf_version = 1, kf_wraps = []\<rparr>, kr_path = []\<rparr> ''serial'' = Inr c"
  using Decrypt_inverts_Encrypt[of "replicate 12 CHR ''n''" "\<lparr>kr_data_key = replicate 32 CHR ''k'',
     kr_file = \<lparr>kf_version = 1, kf_wraps = []\<rparr>, kr_path = []\<rparr>" "''serial''"]
  by (auto simp: nonceSize_def aes_key_ok_def)

end
