(* ===== verification/SmallTables.thy ===== *)
theory SmallTables
  imports JobsTable
begin

text \<open>
  The \<open>settings\<close> and \<open>blobs\<close> tables (\<open>internal/db/migrations/00001_init.sql\<close>) and their queries
  (\<open>internal/db/gen/settings.sql.go\<close>, \<open>internal/db/gen/blobs.sql.go\<close>). Both writing statements are
  upserts on the primary key. No other package calls these queries yet.
\<close>

record setting =
  st_key :: string
  st_value :: string
  st_updated_at :: millis

record blob_row =
  bl_sha256 :: string
  bl_size_bytes :: int
  bl_media_type :: string
  bl_created_at :: millis

text \<open>\<open>ON CONFLICT DO UPDATE\<close>, with what becomes of the row that is there.\<close>

definition sql_upsert :: "('r \<Rightarrow> 'k) \<Rightarrow> 'r \<Rightarrow> ('r \<Rightarrow> 'r) \<Rightarrow> 'r list \<Rightarrow> 'r list" where
  "sql_upsert key r f t =
     (if row_by key (key r) t = None then t @ [r] else sql_update (\<lambda>x. key x = key r) f t)"

subsection \<open>Settings\<close>

definition DeleteSetting :: "string \<Rightarrow> setting list \<Rightarrow> (db_error + unit) \<times> setting list" where
  "DeleteSetting k t = (Inr (), sql_delete (\<lambda>r. st_key r = k) t)"

definition GetSetting :: "string \<Rightarrow> setting list \<Rightarrow> db_error + string" where
  "GetSetting k t = (case row_by st_key k t of None \<Rightarrow> Inl NoRows | Some r \<Rightarrow> Inr (st_value r))"

definition ListSettings :: "setting list \<Rightarrow> db_error + setting list" where
  "ListSettings t = Inr (sort_key st_key t)"

definition SetSetting :: "string \<Rightarrow> string \<Rightarrow> millis \<Rightarrow> setting list \<Rightarrow> (db_error + unit) \<times> setting list" where
  "SetSetting k v now t =
     (Inr (), sql_upsert st_key \<lparr>st_key = k, st_value = v, st_updated_at = now\<rparr>
        (\<lambda>r. r\<lparr>st_value := v, st_updated_at := now\<rparr>) t)"

subsection \<open>The blob index\<close>

definition BlobExists :: "string \<Rightarrow> blob_row list \<Rightarrow> db_error + bool" where
  "BlobExists d t = Inr (row_by bl_sha256 d t \<noteq> None)"

definition DeleteBlob :: "string \<Rightarrow> blob_row list \<Rightarrow> (db_error + unit) \<times> blob_row list" where
  "DeleteBlob d t = (Inr (), sql_delete (\<lambda>r. bl_sha256 r = d) t)"

definition GetBlob :: "string \<Rightarrow> blob_row list \<Rightarrow> db_error + blob_row" where
  "GetBlob d t = row_result (row_by bl_sha256 d t)"

text \<open>SQLite's \<open>sum\<close> of integers fails when it leaves 64 bits.\<close>

definition TotalBlobBytes :: "blob_row list \<Rightarrow> db_error + int" where
  "TotalBlobBytes t =
     (let s = sum_list (map bl_size_bytes t)
      in if in64 s then Inr s else Inl (DriverFault ''integer overflow''))"

definition UpsertBlob ::
  "string \<Rightarrow> int \<Rightarrow> string \<Rightarrow> millis \<Rightarrow> blob_row list \<Rightarrow> (db_error + unit) \<times> blob_row list" where
  "UpsertBlob d n media now t =
     (if n < 0 then (Inl (Constraint ''CHECK constraint failed: size_bytes >= 0''), t)
      else (Inr (), sql_upsert bl_sha256
        \<lparr>bl_sha256 = d, bl_size_bytes = n, bl_media_type = media, bl_created_at = now\<rparr> id t))"

subsection \<open>Both tables are keyed\<close>

definition settings_ok :: "setting list \<Rightarrow> bool" where
  "settings_ok t \<longleftrightarrow> distinct (map st_key t)"

definition blobs_ok :: "blob_row list \<Rightarrow> bool" where
  "blobs_ok t \<longleftrightarrow> distinct (map bl_sha256 t) \<and> (\<forall>r \<in> set t. 0 \<le> bl_size_bytes r)"

interpretation settings: keyed_table st_key settings_ok
  by unfold_locales (auto simp: settings_ok_def distinct_map_filter)

interpretation blobs: keyed_table bl_sha256 blobs_ok
  by unfold_locales (auto simp: blobs_ok_def distinct_map_filter)

lemma row_after_upsert:
  assumes "\<And>x. key (f x) = key x"
  shows "row_by key k (sql_upsert key r f t) =
    (if k = key r then Some (case row_by key k t of None \<Rightarrow> r | Some x \<Rightarrow> f x) else row_by key k t)"
proof (cases "row_by key (key r) t")
  case None
  then show ?thesis by (simp add: sql_upsert_def row_by_append split: option.split)
next
  case (Some x)
  have "row_by key k (sql_update (\<lambda>x. key x = key r) f t) =
      (case row_by key k t of None \<Rightarrow> None | Some x \<Rightarrow> Some (if k = key r then f x else x))"
    by (induction t) (use assms in \<open>auto simp: sql_update_def\<close>)
  then show ?thesis using Some by (auto simp: sql_upsert_def split: option.split)
qed

lemma upsert_distinct:
  assumes "\<And>x. key (f x) = key x" "distinct (map key t)"
  shows "distinct (map key (sql_upsert key r f t))"
  using assms by (auto simp: sql_upsert_def row_by_None_iff map_sql_update image_iff)

lemma upsert_set: "set (sql_upsert key r f t) \<subseteq> insert r (set t \<union> f ` set t)"
  by (auto simp: sql_upsert_def set_sql_update)

text \<open>What a sequence of writing statements makes of the settings.\<close>

datatype setting_op = PutS string string millis | DelS string

fun run_setting :: "setting_op \<Rightarrow> setting list \<Rightarrow> setting list" where
  "run_setting (PutS k v now) t = snd (SetSetting k v now t)"
| "run_setting (DelS k) t = snd (DeleteSetting k t)"

fun spec_setting :: "setting_op \<Rightarrow> (string \<rightharpoonup> string) \<Rightarrow> (string \<rightharpoonup> string)" where
  "spec_setting (PutS k v now) m = m(k \<mapsto> v)"
| "spec_setting (DelS k) m = m(k := None)"

definition settings_map :: "setting list \<Rightarrow> string \<rightharpoonup> string" where
  "settings_map t k = map_option st_value (row_by st_key k t)"

lemma settings_map_get: "settings_map t k = (case GetSetting k t of Inl _ \<Rightarrow> None | Inr v \<Rightarrow> Some v)"
  by (simp add: settings_map_def GetSetting_def split: option.split)

lemma run_setting_ok: "settings_ok t \<Longrightarrow> settings_ok (run_setting op t)"
  by (cases op) (simp_all add: SetSetting_def DeleteSetting_def settings_ok_def upsert_distinct distinct_map_sql_delete)

lemma run_setting_spec:
  assumes "settings_ok t"
  shows "settings_map (run_setting op t) = spec_setting op (settings_map t)"
proof (cases op)
  case (PutS k v now)
  then show ?thesis
    by (auto simp: fun_eq_iff SetSetting_def settings_map_def row_after_upsert split: option.split)
next
  case (DelS k)
  then show ?thesis
    by (auto simp: fun_eq_iff DeleteSetting_def settings_map_def settings.row_after_delete[OF assms]
        dest: row_by_SomeD split: option.split)
qed

subsection \<open>Properties\<close>

text \<open>The settings table is a map from keys to values: after any sequence of sets and deletes, what
  a get returns is what the same operations on a map leave, no key is listed twice, and the list
  is in the order of the keys.\<close>

lemma settings_refine_a_map:
  "settings_map (fold run_setting ops []) = fold spec_setting ops Map.empty \<and>
   (case ListSettings (fold run_setting ops []) of
      Inl _ \<Rightarrow> False
    | Inr rs \<Rightarrow> sorted (map st_key rs) \<and> distinct (map st_key rs) \<and>
        map_of (map (\<lambda>r. (st_key r, st_value r)) rs) = fold spec_setting ops Map.empty)"
proof -
  have all: "settings_ok (fold run_setting ops t) \<and>
      settings_map (fold run_setting ops t) = fold spec_setting ops (settings_map t)" if "settings_ok t" for t
    using that by (induction ops arbitrary: t) (simp_all add: run_setting_ok run_setting_spec)
  let ?t = "fold run_setting ops []"
  have t: "settings_ok ?t" "settings_map ?t = fold spec_setting ops Map.empty"
    using all[of "[]"] by (simp_all add: settings_ok_def settings_map_def[abs_def])
  let ?rs = "sort_key st_key ?t"
  have d: "distinct (map st_key ?rs)"
    using t(1) by (simp add: settings_ok_def distinct_map)
  have look: "map_of (map (\<lambda>r. (st_key r, st_value r)) xs) k = map_option st_value (row_by st_key k xs)" for xs k
    by (induction xs) auto
  have "row_by st_key k ?rs = Some r \<longleftrightarrow> row_by st_key k ?t = Some r" for k r
    using settings.mem_iff_row[OF t(1)] settings.mem_iff_row[of ?rs] d by (simp add: settings_ok_def)
  then have "row_by st_key k ?rs = row_by st_key k ?t" for k by (metis not_Some_eq)
  then have "map_of (map (\<lambda>r. (st_key r, st_value r)) ?rs) = settings_map ?t"
    by (simp add: fun_eq_iff look settings_map_def)
  then show ?thesis using t d by (simp add: ListSettings_def)
qed

text \<open>Adding a blob that is indexed already changes nothing, and the total never exceeds 64 bits
  unnoticed.\<close>

lemma UpsertBlob_twice:
  assumes "UpsertBlob d s m now t = (Inr (), t')"
  shows "UpsertBlob d s2 m2 at2 t' = (if s2 < 0 then (Inl (Constraint ''CHECK constraint failed: size_bytes >= 0''), t') else (Inr (), t'))"
proof -
  let ?row = "\<lparr>bl_sha256 = d, bl_size_bytes = s, bl_media_type = m, bl_created_at = now\<rparr>"
  have "t' = sql_upsert bl_sha256 ?row id t" using assms by (auto simp: UpsertBlob_def split: if_splits)
  then have "row_by bl_sha256 d t' \<noteq> None" using row_after_upsert[of bl_sha256 id d ?row t] by simp
  then show ?thesis by (auto simp: UpsertBlob_def sql_upsert_def sql_update_id)
qed

lemma UpsertBlob_ok: "blobs_ok t \<Longrightarrow> blobs_ok (snd (UpsertBlob d s m now t))"
  using upsert_distinct[of bl_sha256 id t] upsert_set[of bl_sha256 _ id t]
  by (fastforce simp: UpsertBlob_def blobs_ok_def)

end
