(* ===== verification/Config.thy ===== *)
theory Config
  imports ConfigTypes GoPath GoUrl JobPool
begin

text \<open>
  \<open>internal/config/config.go\<close>, \<open>internal/config/secret.go\<close> and \<open>internal/logging/logging.go\<close>.
  The YAML decoder, the environment parser and the language library are third-party packages and
  parameters: \<open>decode data c\<close> decodes a file onto a configuration, \<open>from_env c\<close> applies the
  environment to one, and \<open>lang tag\<close> gives the base language of a BCP-47 tag and its ISO 639-3
  code. \<open>ord\<close> is the order in which Go walks the map of provider slots, which is not specified.
\<close>

subsection \<open>Secrets\<close>

definition redacted :: string where
  "redacted = map char_of [194, 171 :: nat] @ ''redacted'' @ map char_of [194, 187 :: nat]"

definition String_secret :: "secret \<Rightarrow> string" where
  "String_secret s = (if reveal s = [] then [] else redacted)"

definition GoString :: "secret \<Rightarrow> string" where "GoString s = String_secret s"
definition LogValue :: "secret \<Rightarrow> string" where "LogValue s = String_secret s"

text \<open>\<open>render\<close> is the JSON or YAML library's rendering of a string.\<close>

definition MarshalJSON :: "(string \<Rightarrow> string) \<Rightarrow> secret \<Rightarrow> string" where
  "MarshalJSON render s = render (String_secret s)"

definition MarshalYAML :: "secret \<Rightarrow> string" where "MarshalYAML s = String_secret s"

definition Set_secret :: "secret \<Rightarrow> bool" where
  "Set_secret s \<longleftrightarrow> reveal s \<noteq> []"

subsection \<open>Defaults\<close>

definition no_provider :: provider where
  "no_provider = \<lparr>pv_kind = [], pv_model = [], pv_api_key = Secret [], pv_base_url = [], pv_options = []\<rparr>"

definition Default :: config where
  "Default =
     \<lparr>cf_server = \<lparr>sc_addr = '':7745'', sc_base_url = ''http://localhost:7745'',
        sc_data_dir = ''./data'', sc_trust_proxy = False, sc_read_timeout = 5 * minute,
        sc_write_timeout = 0, sc_max_upload_bytes = 512 * 2 ^ 20\<rparr>,
      cf_content = \<lparr>cc_languages = [''en''], cc_ocr_languages = []\<rparr>,
      cf_providers = \<lparr>ps_convert = no_provider\<lparr>pv_kind := ''poppler''\<rparr>,
        ps_ocr = no_provider\<lparr>pv_kind := ''tesseract''\<rparr>,
        ps_translate = no_provider, ps_extract = no_provider\<rparr>,
      cf_jobs = \<lparr>jc_workers = 2, jc_poll_interval = 2 * second, jc_lease_duration = 15 * minute,
        jc_max_attempts = 3\<rparr>,
      cf_log = \<lparr>lc_level = ''info'', lc_format = ''text''\<rparr>\<rparr>"

text \<open>Go's zero value, which \<open>Load\<close> returns beside its early errors.\<close>

definition zero_config :: config where
  "zero_config =
     \<lparr>cf_server = \<lparr>sc_addr = [], sc_base_url = [], sc_data_dir = [], sc_trust_proxy = False,
        sc_read_timeout = 0, sc_write_timeout = 0, sc_max_upload_bytes = 0\<rparr>,
      cf_content = \<lparr>cc_languages = [], cc_ocr_languages = []\<rparr>,
      cf_providers = \<lparr>ps_convert = no_provider, ps_ocr = no_provider, ps_translate = no_provider,
        ps_extract = no_provider\<rparr>,
      cf_jobs = \<lparr>jc_workers = 0, jc_poll_interval = 0, jc_lease_duration = 0, jc_max_attempts = 0\<rparr>,
      cf_log = \<lparr>lc_level = [], lc_format = []\<rparr>\<rparr>"

subsection \<open>Languages\<close>

definition dedupe_step :: "string set \<times> string list \<Rightarrow> string \<Rightarrow> string set \<times> string list" where
  "dedupe_step st v =
     (case st of (seen, out) \<Rightarrow>
        if v = [] then (seen, out)
        else if v \<in> seen then (seen, out)
        else (insert v seen, out @ [v]))"

definition dedupe :: "string list \<Rightarrow> string list" where
  "dedupe xs = snd (foldl dedupe_step ({}, []) xs)"

definition tesseractISO3 :: "string \<rightharpoonup> string" where
  "tesseractISO3 = [''zh'' \<mapsto> ''chi_sim'', ''ko'' \<mapsto> ''kor'', ''ja'' \<mapsto> ''jpn'']"

definition tesseractCodes :: "(string \<Rightarrow> (string \<times> string) option) \<Rightarrow> string list \<Rightarrow> string list" where
  "tesseractCodes lang tags =
     dedupe (List.map_filter (\<lambda>t. case lang t of
         None \<Rightarrow> None
       | Some (base, iso3) \<Rightarrow>
           (case tesseractISO3 base of Some code \<Rightarrow> Some code | None \<Rightarrow> Some iso3)) tags @ [''eng''])"

subsection \<open>Normalizing\<close>

definition normalize ::
  "(string \<Rightarrow> (string \<times> string) option) \<Rightarrow> string option \<Rightarrow> config \<Rightarrow> config option" where
  "normalize lang wd c =
     (case path_abs wd (sc_data_dir (cf_server c)) of
        None \<Rightarrow> None
      | Some dir \<Rightarrow>
          let server = (cf_server c)\<lparr>sc_data_dir := dir,
                sc_base_url := trim_right_by (\<lambda>x. x = slash) (sc_base_url (cf_server c))\<rparr>;
              log = \<lparr>lc_level = to_lower (trim_space (lc_level (cf_log c))),
                lc_format = to_lower (trim_space (lc_format (cf_log c)))\<rparr>;
              langs = dedupe (map trim_space (cc_languages (cf_content c)));
              ocr = (if cc_ocr_languages (cf_content c) = [] then tesseractCodes lang langs
                     else cc_ocr_languages (cf_content c))
          in Some (c\<lparr>cf_server := server, cf_log := log,
                     cf_content := \<lparr>cc_languages = langs, cc_ocr_languages = ocr\<rparr>\<rparr>))"

subsection \<open>Validating\<close>

datatype config_error =
    EmptyAddr
  | BadBaseURL string
  | BadMaxUpload
  | NoLanguages
  | BadLanguage string
  | BadWorkers
  | BadPollInterval
  | BadLeaseDuration
  | BadMaxAttempts
  | BadLevel string
  | BadFormat string
  | BadProviderURL string string

definition absolute_url :: "string \<Rightarrow> bool" where
  "absolute_url s \<longleftrightarrow>
     (case url_parse s of None \<Rightarrow> False | Some u \<Rightarrow> url_scheme u \<noteq> [] \<and> url_host u \<noteq> [])"

definition provider_slots :: "config \<Rightarrow> (string \<times> provider) list" where
  "provider_slots c =
     [(''convert'', ps_convert (cf_providers c)), (''ocr'', ps_ocr (cf_providers c)),
      (''translate'', ps_translate (cf_providers c)), (''extract'', ps_extract (cf_providers c))]"

definition provider_error :: "string \<times> provider \<Rightarrow> config_error option" where
  "provider_error np =
     (case np of (name, p) \<Rightarrow>
        if \<not> Enabled p then None
        else if pv_base_url p \<noteq> [] \<and> \<not> absolute_url (pv_base_url p)
          then Some (BadProviderURL name (pv_base_url p))
        else None)"

definition Validate ::
  "(string \<Rightarrow> (string \<times> string) option) \<Rightarrow>
   ((string \<times> provider) list \<Rightarrow> (string \<times> provider) list) \<Rightarrow> config \<Rightarrow> config_error list" where
  "Validate lang ord c =
     (let s = cf_server c; j = cf_jobs c; l = cf_log c in
      (if sc_addr s = [] then [EmptyAddr] else []) @
      (if \<not> absolute_url (sc_base_url s) then [BadBaseURL (sc_base_url s)] else []) @
      (if sc_max_upload_bytes s \<le> 0 then [BadMaxUpload] else []) @
      (if cc_languages (cf_content c) = [] then [NoLanguages] else []) @
      map BadLanguage (filter (\<lambda>t. lang t = None) (cc_languages (cf_content c))) @
      (if jc_workers j < 1 then [BadWorkers] else []) @
      (if jc_poll_interval j \<le> 0 then [BadPollInterval] else []) @
      (if jc_lease_duration j \<le> 0 then [BadLeaseDuration] else []) @
      (if jc_max_attempts j < 1 then [BadMaxAttempts] else []) @
      (if lc_level l \<in> {''debug'', ''info'', ''warn'', ''error''} then [] else [BadLevel (lc_level l)]) @
      (if lc_format l \<in> {''text'', ''json''} then [] else [BadFormat (lc_format l)]) @
      List.map_filter provider_error (ord (provider_slots c)))"

subsection \<open>Loading\<close>

datatype file_read = FileAbsent | FileUnreadable string | FileData string

datatype load_error =
    ParseFile string string
  | ReadFile string
  | ParseEnvironment string
  | ResolveDataDir string
  | Invalid "config_error list"

record load_env =
  le_read :: "string \<Rightarrow> file_read"
  le_decode :: "string \<Rightarrow> config \<Rightarrow> string + config"
  le_env :: "config \<Rightarrow> string + config"
  le_lang :: "string \<Rightarrow> (string \<times> string) option"
  le_wd :: "string option"
  le_order :: "(string \<times> provider) list \<Rightarrow> (string \<times> provider) list"

definition read_config_file :: "load_env \<Rightarrow> string \<Rightarrow> load_error + config" where
  "read_config_file e given =
     (let explicit = (given \<noteq> []); path = (if explicit then given else ''config.yaml'') in
      case le_read e path of
        FileData d \<Rightarrow>
          (case le_decode e d Default of Inl m \<Rightarrow> Inl (ParseFile path m) | Inr c \<Rightarrow> Inr c)
      | FileAbsent \<Rightarrow> if explicit then Inl (ReadFile path) else Inr Default
      | FileUnreadable m \<Rightarrow> Inl (ReadFile path))"

definition Load :: "load_env \<Rightarrow> string \<Rightarrow> config \<times> load_error option" where
  "Load e given =
     (case read_config_file e given of
        Inl er \<Rightarrow> (zero_config, Some er)
      | Inr c \<Rightarrow>
          (case le_env e c of
             Inl m \<Rightarrow> (zero_config, Some (ParseEnvironment m))
           | Inr c1 \<Rightarrow>
               (case normalize (le_lang e) (le_wd e) c1 of
                  None \<Rightarrow> (zero_config, Some (ResolveDataDir (sc_data_dir (cf_server c1))))
                | Some c2 \<Rightarrow>
                    (let errs = Validate (le_lang e) (le_order e) c2
                     in (c2, if errs = [] then None else Some (Invalid errs))))))"

subsection \<open>What the rest of the program reads\<close>

definition PrimaryLanguage :: "config \<Rightarrow> string" where
  "PrimaryLanguage c =
     (case cc_languages (cf_content c) of [] \<Rightarrow> ''en'' | l # _ \<Rightarrow> l)"

definition DBPath :: "config \<Rightarrow> string" where
  "DBPath c = path_join [sc_data_dir (cf_server c), ''manualbox.db'']"

definition BlobDir :: "config \<Rightarrow> string" where
  "BlobDir c = path_join [sc_data_dir (cf_server c), ''blobs'']"

subsection \<open>The logger\<close>

datatype log_level = LevelDebug | LevelInfo | LevelWarn | LevelError

text \<open>slog's numeric levels.\<close>

fun level_value :: "log_level \<Rightarrow> int" where
  "level_value LevelDebug = -4"
| "level_value LevelInfo = 0"
| "level_value LevelWarn = 4"
| "level_value LevelError = 8"

instantiation log_level :: linorder
begin

definition less_eq_log_level :: "log_level \<Rightarrow> log_level \<Rightarrow> bool" where
  "less_eq_log_level a b \<longleftrightarrow> level_value a \<le> level_value b"

definition less_log_level :: "log_level \<Rightarrow> log_level \<Rightarrow> bool" where
  "less_log_level a b \<longleftrightarrow> level_value a < level_value b"

instance
proof
  fix x y :: log_level
  show "x \<le> y \<Longrightarrow> y \<le> x \<Longrightarrow> x = y" by (cases x; cases y) (simp_all add: less_eq_log_level_def)
qed (auto simp: less_eq_log_level_def less_log_level_def)

end

definition Level :: "string \<Rightarrow> log_level" where
  "Level s =
     (if s = ''debug'' then LevelDebug
      else if s = ''warn'' then LevelWarn
      else if s = ''error'' then LevelError
      else LevelInfo)"

datatype log_handler = JSONHandler | TextHandler

record logger =
  lg_level :: log_level
  lg_source :: bool
  lg_handler :: log_handler

definition New_logger :: "log_config \<Rightarrow> logger" where
  "New_logger cfg =
     (let level = Level (lc_level cfg)
      in \<lparr>lg_level = level, lg_source = (level \<le> LevelDebug),
          lg_handler = (if lc_format cfg = ''json'' then JSONHandler else TextHandler)\<rparr>)"

subsection \<open>Removing duplicates\<close>

lemma remdups_snoc: "remdups (ys @ [x]) = remdups (filter (\<lambda>y. y \<noteq> x) ys) @ [x]"
  by (induction ys) auto

text \<open>The loop keeps the first occurrence of every string that is not empty.\<close>

lemma dedupe_loop:
  "seen = set out \<Longrightarrow> foldl dedupe_step (seen, out) xs =
     (set out \<union> (set xs - {[]}), out @ rev (remdups (rev (filter (\<lambda>x. x \<noteq> [] \<and> x \<notin> set out) xs))))"
proof (induction xs arbitrary: seen out)
  case (Cons x xs)
  show ?case
  proof (cases "x = [] \<or> x \<in> set out")
    case True
    then have "foldl dedupe_step (seen, out) (x # xs) = foldl dedupe_step (seen, out) xs"
      using Cons.prems by (auto simp: dedupe_step_def)
    with Cons True show ?thesis by auto
  next
    case False
    then have s: "foldl dedupe_step (seen, out) (x # xs) = foldl dedupe_step (insert x seen, out @ [x]) xs"
      using Cons.prems by (auto simp: dedupe_step_def)
    let ?ys = "filter (\<lambda>y. y \<noteq> [] \<and> y \<notin> set out) xs"
    have "filter (\<lambda>y. y \<noteq> [] \<and> y \<notin> set (out @ [x])) xs = filter (\<lambda>y. y \<noteq> x) ?ys"
      using False by (auto simp: filter_filter intro: filter_cong)
    moreover have "rev (remdups (rev (x # ?ys))) = x # rev (remdups (rev (filter (\<lambda>y. y \<noteq> x) ?ys)))"
      by (simp add: remdups_snoc rev_filter)
    ultimately show ?thesis using s Cons.IH[of "insert x seen" "out @ [x]"] Cons.prems False by auto
  qed
qed simp

lemma dedupe_eq: "dedupe xs = rev (remdups (rev (filter (\<lambda>x. x \<noteq> []) xs)))"
  using dedupe_loop[of "{}" "[]" xs] by (simp add: dedupe_def)

lemma subseq_remdups: "subseq (remdups xs) xs"
  by (induction xs) auto

lemma subseq_rev: "subseq xs ys \<Longrightarrow> subseq (rev xs) (rev ys)"
  by (induction rule: list_emb.induct) (auto intro: subseq_order.order_trans)

lemma subseq_dedupe: "subseq (dedupe xs) xs"
proof -
  have "subseq (rev (remdups (rev (filter (\<lambda>x. x \<noteq> []) xs)))) (filter (\<lambda>x. x \<noteq> []) xs)"
    using subseq_remdups by (metis rev_rev_ident subseq_rev)
  then show ?thesis unfolding dedupe_eq by (metis subseq_filter_left subseq_order.order_trans)
qed

lemma dedupe_facts [simp]:
  "distinct (dedupe xs)" "set (dedupe xs) = set xs - {[]}" "dedupe (dedupe xs) = dedupe xs"
proof -
  show d: "distinct (dedupe xs)" "set (dedupe xs) = set xs - {[]}" for xs by (auto simp: dedupe_eq)
  have "filter (\<lambda>x. x \<noteq> []) (dedupe xs) = dedupe xs" using d(2)[of xs] by (simp add: filter_id_conv)
  then show "dedupe (dedupe xs) = dedupe xs" using d(1)[of xs] by (metis dedupe_eq distinct_remdups_id distinct_rev rev_rev_ident)
qed

lemma tesseract_has_english: "''eng'' \<in> set (tesseractCodes lang tags)"
  by (simp add: tesseractCodes_def)

subsection \<open>What a loaded configuration guarantees\<close>

lemma map_filter_Nil_iff: "List.map_filter f xs = [] \<longleftrightarrow> (\<forall>x \<in> set xs. f x = None)"
  by (induction xs) (auto simp: map_filter_simps split: option.splits)

lemma Validate_Nil_iff:
  assumes "\<And>xs. set (ord xs) = set xs"
  shows "Validate lang ord c = [] \<longleftrightarrow>
    sc_addr (cf_server c) \<noteq> [] \<and> absolute_url (sc_base_url (cf_server c)) \<and>
    0 < sc_max_upload_bytes (cf_server c) \<and> cc_languages (cf_content c) \<noteq> [] \<and>
    (\<forall>t \<in> set (cc_languages (cf_content c)). lang t \<noteq> None) \<and>
    1 \<le> jc_workers (cf_jobs c) \<and> 0 < jc_poll_interval (cf_jobs c) \<and>
    0 < jc_lease_duration (cf_jobs c) \<and> 1 \<le> jc_max_attempts (cf_jobs c) \<and>
    lc_level (cf_log c) \<in> {''debug'', ''info'', ''warn'', ''error''} \<and>
    lc_format (cf_log c) \<in> {''text'', ''json''} \<and>
    (\<forall>np \<in> set (provider_slots c). provider_error np = None)"
  unfolding Validate_def Let_def by (auto simp: map_filter_Nil_iff assms filter_empty_conv)

lemma Load_cases:
  assumes "Load e p = (c, None)"
  obtains c0 c1 where "read_config_file e p = Inr c0" "le_env e c0 = Inr c1"
    "normalize (le_lang e) (le_wd e) c1 = Some c" "Validate (le_lang e) (le_order e) c = []"
  using assms that by (auto simp: Load_def Let_def split: sum.splits option.splits if_splits)

lemma normalize_facts:
  assumes "normalize lang wd c = Some c'"
  obtains dir where "path_abs wd (sc_data_dir (cf_server c)) = Some dir" "sc_data_dir (cf_server c') = dir"
    "sc_base_url (cf_server c') = trim_right_by (\<lambda>x. x = slash) (sc_base_url (cf_server c))"
    "cc_languages (cf_content c') = dedupe (map trim_space (cc_languages (cf_content c)))"
    "cc_ocr_languages (cf_content c') =
       (if cc_ocr_languages (cf_content c) = [] then tesseractCodes lang (cc_languages (cf_content c'))
        else cc_ocr_languages (cf_content c))"
    "cf_jobs c' = cf_jobs c"
  using assms that by (auto simp: normalize_def Let_def split: option.splits)


definition demo_load_env :: load_env where
  "demo_load_env =
     \<lparr>le_read = (\<lambda>_. FileAbsent), le_decode = (\<lambda>_ c. Inr c), le_env = Inr,
      le_lang = (\<lambda>t. if t = ''en'' then Some (''en'', ''eng'') else None), le_wd = Some ''/srv'',
      le_order = (\<lambda>xs. xs)\<rparr>"

lemma default_url: "absolute_url ''http://localhost:7745''"
  using url_parse_origin[of "''http''" "''localhost''" "'':7745''"]
  by (simp add: absolute_url_def is_letter_def plain_host_def valid_port_def is_digit_def)

lemma Default_normalized:
  "\<exists>c. normalize (le_lang demo_load_env) (Some ''/srv'') Default = Some c \<and>
     sc_data_dir (cf_server c) = ''/srv/data'' \<and> sc_base_url (cf_server c) = ''http://localhost:7745'' \<and>
     sc_addr (cf_server c) = '':7745'' \<and> sc_max_upload_bytes (cf_server c) = 512 * 2 ^ 20 \<and>
     cc_languages (cf_content c) = [''en''] \<and> cf_jobs c = cf_jobs Default \<and>
     lc_level (cf_log c) = ''info'' \<and> lc_format (cf_log c) = ''text'' \<and>
     provider_slots c = provider_slots Default"
proof -
  have "path_abs (Some ''/srv'') ''./data'' = Some ''/srv/data''"
    "trim_right_by (\<lambda>x. x = slash) ''http://localhost:7745'' = ''http://localhost:7745''"
    "dedupe (map trim_space [''en'']) = [''en'']"
    "to_lower (trim_space ''info'') = ''info''" "to_lower (trim_space ''text'') = ''text''"
    by code_simp+
  then show ?thesis by (simp add: normalize_def Default_def provider_slots_def Let_def del: list.map)
qed

lemma Default_loads: "\<exists>c. Load demo_load_env [] = (c, None) \<and> sc_data_dir (cf_server c) = ''/srv/data''"
proof -
  let ?l = "le_lang demo_load_env"
  obtain c where n: "normalize ?l (Some ''/srv'') Default = Some c"
    "sc_data_dir (cf_server c) = ''/srv/data''" "sc_base_url (cf_server c) = ''http://localhost:7745''"
    "sc_addr (cf_server c) = '':7745''" "sc_max_upload_bytes (cf_server c) = 512 * 2 ^ 20"
    "cc_languages (cf_content c) = [''en'']" "cf_jobs c = cf_jobs Default"
    "lc_level (cf_log c) = ''info''" "lc_format (cf_log c) = ''text''"
    "provider_slots c = provider_slots Default"
    using Default_normalized by metis
  have "\<forall>np \<in> set (provider_slots Default). provider_error np = None"
    by (simp add: provider_slots_def Default_def no_provider_def provider_error_def Enabled_def)
  then have "Validate ?l (\<lambda>xs. xs) c = []"
    by (subst Validate_Nil_iff) (simp_all add: n default_url Default_def demo_load_env_def)
  then show ?thesis using n(1,2) by (simp add: Load_def read_config_file_def demo_load_env_def Let_def)
qed


subsection \<open>Secrets and files\<close>

text \<open>No rendering of a secret depends on more than whether it is set.\<close>

lemma secret_renderings:
  assumes "Set_secret s = Set_secret s'"
  shows "String_secret s = String_secret s' \<and> GoString s = GoString s' \<and> LogValue s = LogValue s' \<and>
    MarshalJSON f s = MarshalJSON f s' \<and> MarshalYAML s = MarshalYAML s'"
  using assms
  by (simp add: String_secret_def GoString_def LogValue_def MarshalJSON_def MarshalYAML_def Set_secret_def)

text \<open>A file the user named must exist; without one, a missing \<open>config.yaml\<close> means the defaults.\<close>

lemma missing_config_file:
  assumes "le_read e (if p = [] then ''config.yaml'' else p) = FileAbsent"
  shows "read_config_file e p = (if p = [] then Inr Default else Inl (ReadFile p))"
  using assms by (cases "p = []") (simp_all add: read_config_file_def Let_def)

lemma Load_error_config:
  assumes "Load e p = (c, Some er)"
  shows "c = zero_config \<or> er = Invalid (Validate (le_lang e) (le_order e) c)"
  using assms by (auto simp: Load_def Let_def split: sum.splits option.splits if_splits)

lemma Level_of_valid:
  assumes "l \<in> {''debug'', ''info'', ''warn'', ''error''}"
  shows "lg_source (New_logger \<lparr>lc_level = l, lc_format = f\<rparr>) = (l = ''debug'')"
  using assms by (auto simp: New_logger_def Level_def Let_def less_eq_log_level_def)

end
