(* ===== verification/Extern.thy ===== *)
theory Extern
  imports GoStrings
begin

text \<open>
  \<open>internal/extern/extern.go\<close>: probing for the optional command-line tools. Where a name is
  found on the search path, and what a tool prints when asked for its version, come from the
  operating system and are inputs.
\<close>

record tool =
  tl_name :: string
  tl_purpose :: string
  tl_version_args :: "string list"
  tl_install :: "(string \<times> string) list"

datatype tool_error = ToolNotFound string | ToolNeeded string string string

record tool_status =
  ts_tool :: tool
  ts_found :: bool
  ts_path :: string
  ts_version :: string
  ts_err :: "tool_error option"

definition popplerInstall :: "(string \<times> string) list" where
  "popplerInstall =
     [(''darwin'', ''brew install poppler''), (''linux'', ''apt install poppler-utils''),
      (''default'', ''https://poppler.freedesktop.org/'')]"

definition PDFToText :: tool where
  "PDFToText = \<lparr>tl_name = ''pdftotext'',
     tl_purpose = ''extract text and layout from PDFs with a text layer'',
     tl_version_args = [''-v''], tl_install = popplerInstall\<rparr>"

definition PDFToPPM :: tool where
  "PDFToPPM = \<lparr>tl_name = ''pdftoppm'',
     tl_purpose = ''render PDF pages to images for OCR and vision conversion'',
     tl_version_args = [''-v''], tl_install = popplerInstall\<rparr>"

definition PDFImages :: tool where
  "PDFImages = \<lparr>tl_name = ''pdfimages'',
     tl_purpose = ''extract embedded illustrations from PDFs'',
     tl_version_args = [''-v''], tl_install = popplerInstall\<rparr>"

definition PDFInfo :: tool where
  "PDFInfo = \<lparr>tl_name = ''pdfinfo'', tl_purpose = ''read PDF page count and metadata'',
     tl_version_args = [''-v''], tl_install = popplerInstall\<rparr>"

definition Tesseract :: tool where
  "Tesseract = \<lparr>tl_name = ''tesseract'', tl_purpose = ''OCR scanned manuals and phone photos'',
     tl_version_args = [''--version''],
     tl_install =
       [(''darwin'', ''brew install tesseract tesseract-lang''),
        (''linux'', ''apt install tesseract-ocr tesseract-ocr-all''),
        (''default'', ''https://tesseract-ocr.github.io/tessdoc/Installation.html'')]\<rparr>"

definition All :: "tool list" where
  "All = [PDFToText, PDFToPPM, PDFImages, PDFInfo, Tesseract]"

definition InstallHint :: "string \<Rightarrow> tool_status \<Rightarrow> string" where
  "InstallHint goos s =
     (let inst = map_of (tl_install (ts_tool s))
      in case inst goos of
           Some h \<Rightarrow> h
         | None \<Rightarrow> (case inst ''default'' of Some h \<Rightarrow> h | None \<Rightarrow> []))"

subsection \<open>Versions\<close>

text \<open>\<open>versionPattern\<close>: digits, a dot, digits, and a third group of digits when there is one.\<close>

definition match_version :: "string \<Rightarrow> string" where
  "match_version s =
     (let a = takeWhile is_digit s in
      case dropWhile is_digit s of
        [] \<Rightarrow> []
      | d # r \<Rightarrow>
          let b = takeWhile is_digit r in
          if a = [] \<or> d \<noteq> CHR ''.'' \<or> b = [] then []
          else (case dropWhile is_digit r of
              [] \<Rightarrow> a @ ''.'' @ b
            | d' # r' \<Rightarrow>
                let c = takeWhile is_digit r' in
                if d' = CHR ''.'' \<and> c \<noteq> [] then a @ ''.'' @ b @ ''.'' @ c else a @ ''.'' @ b))"

text \<open>\<open>FindString\<close>: the match at the first position that has one.\<close>

fun find_version :: "string \<Rightarrow> string" where
  "find_version [] = []"
| "find_version (c # cs) = (if match_version (c # cs) \<noteq> [] then match_version (c # cs) else find_version cs)"

definition firstLine :: "string \<Rightarrow> string" where
  "firstLine s = (case cut_at (char_of (10 :: nat)) s of None \<Rightarrow> s | Some (l, _) \<Rightarrow> l)"

subsection \<open>Probing\<close>

definition Probe :: "(string \<rightharpoonup> string) \<Rightarrow> (tool \<Rightarrow> string) \<Rightarrow> tool \<Rightarrow> tool_status" where
  "Probe look_path output t =
     (let s = \<lparr>ts_tool = t, ts_found = False, ts_path = [], ts_version = [], ts_err = None\<rparr> in
      case look_path (tl_name t) of
        None \<Rightarrow> s\<lparr>ts_err := Some (ToolNotFound (tl_name t))\<rparr>
      | Some path \<Rightarrow>
          let s = s\<lparr>ts_found := True, ts_path := path\<rparr> in
          if tl_version_args t = [] then s
          else
            let out = output t; v = find_version out in
            if v \<noteq> [] then s\<lparr>ts_version := v\<rparr>
            else if trim_space out \<noteq> [] then s\<lparr>ts_version := firstLine (trim_space out)\<rparr>
            else s)"

definition ProbeAll :: "(string \<rightharpoonup> string) \<Rightarrow> (tool \<Rightarrow> string) \<Rightarrow> tool_status list" where
  "ProbeAll look_path output = map (Probe look_path output) All"

text \<open>\<open>Require\<close> caches what it found, keyed by the name of the tool.\<close>

definition Require ::
  "string \<Rightarrow> (string \<rightharpoonup> string) \<Rightarrow> tool \<Rightarrow> (string \<rightharpoonup> string) \<Rightarrow> (tool_error + string) \<times> (string \<rightharpoonup> string)" where
  "Require goos look_path t resolved =
     (case resolved (tl_name t) of
        Some path \<Rightarrow> (Inr path, resolved)
      | None \<Rightarrow>
          (case look_path (tl_name t) of
             None \<Rightarrow>
               let hint = InstallHint goos
                 \<lparr>ts_tool = t, ts_found = False, ts_path = [], ts_version = [], ts_err = None\<rparr>
               in (Inl (ToolNeeded (tl_name t) (tl_purpose t) hint), resolved)
           | Some path \<Rightarrow> (Inr path, resolved(tl_name t \<mapsto> path))))"

definition Available ::
  "string \<Rightarrow> (string \<rightharpoonup> string) \<Rightarrow> tool \<Rightarrow> (string \<rightharpoonup> string) \<Rightarrow> bool \<times> (string \<rightharpoonup> string)" where
  "Available goos look_path t resolved =
     (case Require goos look_path t resolved of
        (Inl _, r) \<Rightarrow> (False, r) | (Inr _, r) \<Rightarrow> (True, r))"

subsection \<open>The version found is the first one\<close>

definition version_text :: "string \<Rightarrow> bool" where
  "version_text v \<longleftrightarrow>
     (\<exists>gs. v = join_with ''.'' gs \<and> length gs \<in> {2, 3} \<and> list_all (\<lambda>g. g \<noteq> [] \<and> list_all is_digit g) gs)"

lemma take_digits: "list_all is_digit (takeWhile is_digit s)"
  by (induction s) auto

lemma match_version_text:
  assumes "match_version s \<noteq> []"
  shows "version_text (match_version s) \<and> prefix (match_version s) s"
proof -
  let ?a = "takeWhile is_digit s"
  obtain r where r: "dropWhile is_digit s = CHR ''.'' # r" and a: "?a \<noteq> []" and b: "takeWhile is_digit r \<noteq> []"
    using assms by (auto simp: match_version_def Let_def split: list.splits if_splits)
  let ?b = "takeWhile is_digit r"
  have s: "s = ?a @ CHR ''.'' # r" by (metis r takeWhile_dropWhile_id)
  have r2: "r = ?b @ dropWhile is_digit r" by simp
  show ?thesis
  proof (cases "\<exists>r'. dropWhile is_digit r = CHR ''.'' # r' \<and> takeWhile is_digit r' \<noteq> []")
    case True
    then obtain r' where r': "dropWhile is_digit r = CHR ''.'' # r'" "takeWhile is_digit r' \<noteq> []" by auto
    let ?c = "takeWhile is_digit r'"
    have m: "match_version s = join_with ''.'' [?a, ?b, ?c]"
      using a b r r' by (simp add: match_version_def Let_def)
    have "s = (?a @ ''.'' @ ?b @ ''.'' @ ?c) @ dropWhile is_digit r'"
      using s r2 r'(1) by (metis append.assoc append_Cons append_Nil takeWhile_dropWhile_id)
    then have "s = join_with ''.'' [?a, ?b, ?c] @ dropWhile is_digit r'" by (simp only: join_with.simps append_assoc)
    then have "prefix (join_with ''.'' [?a, ?b, ?c]) s" by (rule prefixI)
    then show ?thesis
      using a b r'(2) unfolding m version_text_def
      by (intro conjI exI[of _ "[?a, ?b, ?c]"]) (simp_all add: take_digits)
  next
    case False
    then have m: "match_version s = join_with ''.'' [?a, ?b]"
      using a b r by (auto simp: match_version_def Let_def split: list.split)
    have "s = (?a @ ''.'' @ ?b) @ dropWhile is_digit r"
      using s r2 by (metis append.assoc append_Cons append_Nil)
    then have "s = join_with ''.'' [?a, ?b] @ dropWhile is_digit r" by (simp only: join_with.simps append_assoc)
    then have "prefix (join_with ''.'' [?a, ?b]) s" by (rule prefixI)
    then show ?thesis
      using a b unfolding m version_text_def
      by (intro conjI exI[of _ "[?a, ?b]"]) (simp_all add: take_digits)
  qed
qed

lemma find_version_text: "find_version s \<noteq> [] \<Longrightarrow> version_text (find_version s) \<and> (\<exists>u v. s = u @ find_version s @ v)"
proof (induction s)
  case (Cons c cs)
  show ?case
  proof (cases "match_version (c # cs) = []")
    case True
    then have "find_version (c # cs) = find_version cs" by simp
    with Cons show ?thesis by (metis append_Cons)
  next
    case False
    then show ?thesis using match_version_text[OF False]
      by (metis append_Nil find_version.simps(2) prefixE)
  qed
qed simp

lemma takeWhile_all_append:
  "list_all P xs \<Longrightarrow> takeWhile P (xs @ y # ys) = (if P y then xs @ takeWhile P (y # ys) else xs)"
  "list_all P xs \<Longrightarrow> dropWhile P (xs @ y # ys) = dropWhile P (y # ys)"
  by (induction xs) auto

lemma match_version_found:
  assumes "version_text v"
  shows "match_version (v @ w) \<noteq> []"
proof -
  obtain a b rest where v: "v = a @ ''.'' @ b @ rest" "a \<noteq> []" "b \<noteq> []" "list_all is_digit a" "list_all is_digit b"
  proof -
    obtain gs where gs: "v = join_with ''.'' gs" "length gs \<in> {2, 3}"
      "list_all (\<lambda>g. g \<noteq> [] \<and> list_all is_digit g) gs"
      using assms unfolding version_text_def by metis
    consider a b where "gs = [a, b]" | a b c where "gs = [a, b, c]"
      using gs(2) by (auto simp: length_Suc_conv numeral_2_eq_2 numeral_3_eq_3)
    then show thesis using gs(1,3) that[of _ _ "[]"] that by cases fastforce+
  qed
  have nd: "\<not> is_digit (CHR ''.'')" by code_simp
  have d: "takeWhile is_digit (v @ w) = a" "dropWhile is_digit (v @ w) = CHR ''.'' # b @ rest @ w"
    using takeWhile_all_append[OF v(4), of "CHR ''.''" "b @ rest @ w"] v(1) nd by simp_all
  have "takeWhile is_digit (b @ rest @ w) \<noteq> []"
    using v(3,5) by (cases b) auto
  with d v(2) show ?thesis by (simp add: match_version_def Let_def split: list.split)
qed

lemma find_version_complete: "version_text v \<Longrightarrow> find_version (u @ v @ w) \<noteq> []"
proof (induction u)
  case Nil
  have "v \<noteq> []" using match_version_found[OF Nil, of "[]"] by (auto simp: match_version_def)
  then show ?case using match_version_found[OF Nil, of w] by (cases v) auto
qed auto

text \<open>A probe finds a tool exactly when it is on the search path; the version it reports is a dotted
  version number that stands in the tool's output when there is one anywhere, and the first line
  of the output otherwise, so a version with a line break in it is never reported.\<close>

lemma Probe_reports_version:
  shows "(ts_found (Probe lp out t) \<longleftrightarrow> lp (tl_name t) \<noteq> None) \<and>
    (ts_found (Probe lp out t) \<longleftrightarrow> ts_err (Probe lp out t) = None) \<and>
    (ts_found (Probe lp out t) \<and> tl_version_args t \<noteq> [] \<longrightarrow>
       (if \<exists>u v w. out t = u @ v @ w \<and> version_text v
        then version_text (ts_version (Probe lp out t)) \<and> (\<exists>u w. out t = u @ ts_version (Probe lp out t) @ w)
        else ts_version (Probe lp out t) = firstLine (trim_space (out t)) \<and>
          char_of (10 :: nat) \<notin> set (ts_version (Probe lp out t))))"
proof -
  have nl: "char_of (10 :: nat) \<notin> set (firstLine s)" for s
    by (auto simp: firstLine_def cut_at_Some cut_at_def dropWhile_eq_Nil_conv split: option.splits list.splits
        dest: set_takeWhileD)
  define B where "B \<longleftrightarrow> (\<exists>u v w. out t = u @ v @ w \<and> version_text v)"
  have e: "find_version (out t) = [] \<longleftrightarrow> \<not> B"
    unfolding B_def using find_version_text find_version_complete by metis
  have f: "firstLine [] = []" by (simp add: firstLine_def cut_at_def)
  show ?thesis
    unfolding B_def[symmetric] using find_version_text[of "out t"] nl f e
    by (cases "lp (tl_name t)"; cases B) (simp_all add: Probe_def Let_def)
qed

lemma Probe_reports_version_witness:
  "ts_version (Probe (\<lambda>n. Some (''/usr/bin/'' @ n)) (\<lambda>_. ''pdftotext version 24.02.0'') PDFToText) = ''24.02.0''"
proof -
  let ?s = "Probe (\<lambda>n. Some (''/usr/bin/'' @ n)) (\<lambda>_. ''pdftotext version 24.02.0'') PDFToText"
  have "find_version ''pdftotext version 24.02.0'' = ''24.02.0''" by code_simp
  moreover have "ts_found ?s"
    using Probe_reports_version[of "\<lambda>n. Some (''/usr/bin/'' @ n)" "\<lambda>_. ''pdftotext version 24.02.0''" PDFToText]
    by simp
  ultimately show ?thesis by (simp add: Probe_def Let_def PDFToText_def)
qed

subsection \<open>Requiring a tool\<close>

lemma Require_outcome:
  "Require goos lp t c = (case c (tl_name t) of Some p \<Rightarrow> (Inr p, c)
     | None \<Rightarrow> (case lp (tl_name t) of Some p \<Rightarrow> (Inr p, c(tl_name t \<mapsto> p))
        | None \<Rightarrow> (Inl (ToolNeeded (tl_name t) (tl_purpose t)
            (InstallHint goos (Probe lp (\<lambda>_. []) t))), c)))"
  by (simp add: Require_def Let_def Probe_def InstallHint_def split: option.split)

lemma Require_again:
  assumes "Require goos lp t c = (Inr p, c')"
  shows "Require goos lp' t c' = (Inr p, c')"
  using assms by (auto simp: Require_def Let_def split: option.splits)

end
