(* ===== verification/Http.thy ===== *)
theory Http
  imports GoStrings GoTime
begin

text \<open>
  What the HTTP code uses of \<open>net/http\<close>: requests with their headers, the cookies of a request
  as \<open>Request.Cookie\<close> reads them, and responses. A response keeps its cookies apart from its other
  headers; its body is a parameter.
\<close>

datatype json =
    JNull
  | JBool bool
  | JNum string
  | JStr string
  | JList "json list"
  | JObj "(string \<times> json) list"

text \<open>The struct field a member's name is decoded into: an exact match, or one up to case.\<close>

definition field_of :: "string list \<Rightarrow> string \<Rightarrow> string option" where
  "field_of fs k = (case find (\<lambda>f. f = k) fs of Some f \<Rightarrow> Some f | None \<Rightarrow> find (equal_fold k) fs)"

text \<open>
  A body as \<open>json.Decoder\<close> meets it: the value its bytes begin with, unless they are not JSON or end
  early, the number of bytes up to the end of that value, and the first byte after it that is not
  white space, with its position, and what the decoder
  says when it refuses the body.
\<close>

record body =
  bd_value :: "json option"
  bd_end :: nat
  bd_next :: "(nat \<times> char) option"
  bd_error :: string

definition no_body :: body where
  "no_body = \<lparr>bd_value = None, bd_end = 0, bd_next = None, bd_error = ''EOF''\<rparr>"

record request =
  rq_method :: string
  rq_path :: string
  rq_raw_path :: string
  rq_query :: "(string \<times> string) list"
  rq_headers :: "(string \<times> string) list"
  rq_host :: string
  rq_remote :: string
  rq_tls :: bool
  rq_body :: body

record cookie =
  ck_name :: string
  ck_value :: string
  ck_path :: string
  ck_http_only :: bool
  ck_lax :: bool
  ck_secure :: bool
  ck_expires :: "gotime option"
  ck_max_age :: int

record 'b response =
  rs_status :: nat
  rs_headers :: "(string \<times> string) list"
  rs_cookies :: "cookie list"
  rs_body :: 'b

definition respond :: "nat \<Rightarrow> (string \<times> string) list \<Rightarrow> 'b \<Rightarrow> 'b response" where
  "respond st hs b = \<lparr>rs_status = st, rs_headers = hs, rs_cookies = [], rs_body = b\<rparr>"

lemma respond_sel [simp]:
  "rs_status (respond st hs b) = st" "rs_headers (respond st hs b) = hs"
  "rs_cookies (respond st hs b) = []" "rs_body (respond st hs b) = b"
  by (simp_all add: respond_def)

text \<open>\<open>Header.Get\<close> and \<open>url.Values.Get\<close>: the first value, or the empty string.\<close>

definition get_first :: "string \<Rightarrow> (string \<times> string) list \<Rightarrow> string" where
  "get_first k kvs = (case map_of kvs k of None \<Rightarrow> [] | Some v \<Rightarrow> v)"

definition header :: "request \<Rightarrow> string \<Rightarrow> string" where
  "header r k = get_first k (rq_headers r)"

subsection \<open>Cookies of a request\<close>

definition cookie_space :: "char \<Rightarrow> bool" where
  "cookie_space c \<longleftrightarrow> of_char c \<in> {32, 9, 10, 13 :: nat}"

definition trim_string :: "string \<Rightarrow> string" where
  "trim_string s = trim_right_by cookie_space (dropWhile cookie_space s)"

definition cookie_byte :: "char \<Rightarrow> bool" where
  "cookie_byte c \<longleftrightarrow> (let n = of_char c :: nat in 32 \<le> n \<and> n < 127 \<and> n \<noteq> 34 \<and> n \<noteq> 59 \<and> n \<noteq> 92)"

definition cookie_value :: "string \<Rightarrow> string option" where
  "cookie_value raw =
     (let q = char_of (34 :: nat);
          v = (if 1 < length raw \<and> hd raw = q \<and> last raw = q then butlast (tl raw) else raw)
      in if list_all cookie_byte v then Some v else None)"

definition cookie_part :: "string \<Rightarrow> string \<Rightarrow> string option" where
  "cookie_part name part =
     (case (case cut_at (CHR ''='') (trim_string part) of
              None \<Rightarrow> (trim_string part, []) | Some nv \<Rightarrow> nv) of
        (n, v) \<Rightarrow> if trim_string n = name then cookie_value v else None)"

text \<open>The values of a cookie, one for every part of a \<open>Cookie\<close> header that carries it.\<close>

definition cookies_named :: "string \<Rightarrow> request \<Rightarrow> string list" where
  "cookies_named name r =
     concat (map (\<lambda>(k, v). if k = ''Cookie''
         then List.map_filter (cookie_part name) (split_on (CHR '';'') (trim_string v)) else [])
       (rq_headers r))"

definition Cookie :: "request \<Rightarrow> string \<Rightarrow> string option" where
  "Cookie r name = (case cookies_named name r of [] \<Rightarrow> None | v # _ \<Rightarrow> Some v)"

subsection \<open>What a cookie carries\<close>

lemma trim_string_same:
  assumes "s \<noteq> []" "\<not> cookie_space (hd s)" "\<not> cookie_space (last s)"
  shows "trim_string s = s"
proof -
  have "dropWhile cookie_space s = s" using assms(1,2) by (cases s) auto
  moreover have "dropWhile cookie_space (rev s) = rev s"
    using assms(1,3) by (cases s rule: rev_cases) auto
  ultimately show ?thesis by (simp add: trim_string_def trim_right_by_def)
qed

text \<open>A token made of plain bytes in a lone cookie is what \<open>Request.Cookie\<close> returns.\<close>

definition plain_token :: "string \<Rightarrow> bool" where
  "plain_token t \<longleftrightarrow> t \<noteq> [] \<and> list_all (\<lambda>c. cookie_byte c \<and> \<not> cookie_space c) t"

lemma plain_token_facts:
  assumes "plain_token t"
  shows "t \<noteq> []" "\<not> cookie_space (hd t)" "\<not> cookie_space (last t)" "CHR '';'' \<notin> set t"
    "cookie_value t = Some t"
proof -
  have all: "list_all cookie_byte t" "\<And>c. c \<in> set t \<Longrightarrow> \<not> cookie_space c"
    using assms by (auto simp: plain_token_def list_all_iff)
  show ne: "t \<noteq> []" using assms by (simp add: plain_token_def)
  show "\<not> cookie_space (hd t)" "\<not> cookie_space (last t)" using all(2) ne by simp_all
  have "\<not> cookie_byte (CHR '';'')" "\<not> cookie_byte (char_of (34 :: nat))" by code_simp+
  then have b: "CHR '';'' \<notin> set t" "hd t \<noteq> char_of (34 :: nat)"
    using all(1) hd_in_set[OF ne] unfolding list_all_iff by metis+
  then show "CHR '';'' \<notin> set t" "cookie_value t = Some t"
    using all(1) by (simp_all add: cookie_value_def Let_def)
qed

lemma concat_map_if:
  "concat (map (\<lambda>(k, v). if k = n then f v else []) hs) =
   concat (map (\<lambda>(k, v). f v) (filter (\<lambda>(k, v). k = n) hs))"
  by (induction hs) (auto split: prod.split)

lemma lone_cookie:
  assumes "filter (\<lambda>(k, v). k = ''Cookie'') (rq_headers r) = [(''Cookie'', name @ ''='' @ t)]"
    and "plain_token t" "plain_token name" "CHR ''='' \<notin> set name"
  shows "Cookie r name = Some t"
proof -
  note n = plain_token_facts[OF assms(3)] and t = plain_token_facts[OF assms(2)]
  have trim: "trim_string (name @ ''='' @ t) = name @ ''='' @ t"
    by (rule trim_string_same) (use n t in auto)
  have "CHR '';'' \<notin> set (name @ ''='' @ t)" using n(4) t(4) by simp
  then have split: "split_on (CHR '';'') (trim_string (name @ ''='' @ t)) = [name @ ''='' @ t]"
    unfolding trim by (rule split_on_pure)
  have "cut_at (CHR ''='') (name @ ''='' @ t) = Some (name, t)"
    using cut_at_append[OF assms(4), of t] by simp
  then have part: "cookie_part name (name @ ''='' @ t) = Some t"
    using trim_string_same[OF n(1-3)] t(5) by (simp only: cookie_part_def trim option.case prod.case simp_thms if_True)
  have "cookies_named name r = concat (map (\<lambda>(k, v). List.map_filter (cookie_part name)
      (split_on (CHR '';'') (trim_string v))) (filter (\<lambda>(k, v). k = ''Cookie'') (rq_headers r)))"
    unfolding cookies_named_def by (rule concat_map_if)
  also have "\<dots> = [t]" unfolding assms(1) by (simp only: list.map prod.case split concat.simps)
      (simp only: map_filter_simps part option.case append_Nil2)
  finally show ?thesis by (simp add: Cookie_def)
qed

end
