(* ===== verification/Frontend.thy ===== *)
theory Frontend
  imports GoPath Http
begin

text \<open>
  \<open>internal/frontend/frontend.go\<close>: serving the embedded single-page application. The embedded
  files below \<open>dist/app\<close> are a map from their slash-separated names to files or directories, the
  root being named by the dot. \<open>FileServer\<close> is \<open>http.FileServer\<close> on such a file system.
\<close>

datatype fs_node = FileNode string | DirNode

type_synonym site = "string \<rightharpoonup> fs_node"

datatype page =
    Bytes string
  | NotBuiltPage
  | NotFoundText
  | MissingIndexText
  | Listing string
  | MovedTo string

definition html :: "string \<times> string" where
  "html = (''Content-Type'', ''text/html; charset=utf-8'')"

definition immutable :: "string \<times> string" where
  "immutable = (''Cache-Control'', ''public, max-age=31536000, immutable'')"

definition no_cache :: "string \<times> string" where
  "no_cache = (''Cache-Control'', ''no-cache'')"

text \<open>\<open>FS\<close>: the files, and whether a real build is present.\<close>

definition FS :: "site \<Rightarrow> site \<times> bool" where
  "FS files = (files, files ''index.html'' \<noteq> None)"

subsection \<open>The file server\<close>

definition path_base :: "string \<Rightarrow> string" where
  "path_base p =
     (if p = [] then ''.''
      else let s = trim_right_by (\<lambda>c. c = slash) p; b = rev (takeWhile (\<lambda>c. c \<noteq> slash) (rev s))
           in if b = [] then ''/'' else b)"

definition fs_name :: "string \<Rightarrow> string" where
  "fs_name p = (if p = ''/'' then ''.'' else tl p)"

definition moved :: "(string \<times> string) list \<Rightarrow> string \<Rightarrow> page response" where
  "moved hs target = respond 301 (hs @ [(''Location'', target)]) (MovedTo target)"

definition FileServer :: "site \<Rightarrow> (string \<times> string) list \<Rightarrow> string \<Rightarrow> page response" where
  "FileServer files hs upath =
     (let u = (if prefix ''/'' upath then upath else slash # upath); name = path_clean u
      in if suffix ''/index.html'' u then moved hs ''./''
         else case files (fs_name name) of
           None \<Rightarrow> respond 404 hs NotFoundText
         | Some DirNode \<Rightarrow>
             if last u \<noteq> slash then moved hs (path_base u @ ''/'')
             else (case files (fs_name (path_join [name, ''index.html''])) of
                 Some (FileNode b) \<Rightarrow> respond 200 hs (Bytes b)
               | _ \<Rightarrow> respond 200 hs (Listing name))
         | Some (FileNode b) \<Rightarrow>
             if last u = slash then moved hs (''../'' @ path_base u)
             else respond 200 hs (Bytes b))"

subsection \<open>The handler\<close>

definition site_path :: "string \<Rightarrow> string" where
  "site_path urlpath =
     (let p = path_clean (''/'' @ urlpath);
          upath = (case cut_prefix p ''/'' of Some r \<Rightarrow> r | None \<Rightarrow> p)
      in if upath = [] then ''index.html'' else upath)"

definition Handler :: "site \<Rightarrow> string \<Rightarrow> page response" where
  "Handler embedded urlpath =
     (case FS embedded of
        (files, built) \<Rightarrow>
          if \<not> built then
            (if path_ext (path_clean urlpath) \<noteq> [] then respond 404 [] NotFoundText
             else respond 200 [html] NotBuiltPage)
          else
            let upath = site_path urlpath in
            if files upath \<noteq> None then
              FileServer files
                [if upath \<noteq> ''index.html'' \<and> prefix ''assets/'' upath
                 then immutable
                 else no_cache] urlpath
            else if path_ext upath \<noteq> [] then respond 404 [] NotFoundText
            else (case files ''index.html'' of
                Some (FileNode b) \<Rightarrow> respond 200 [html, no_cache] (Bytes b)
              | _ \<Rightarrow> respond 500 [] MissingIndexText))"

subsection \<open>Where served bytes come from\<close>

lemma clean_parts_slash: "prefix ''/'' p \<Longrightarrow> clean_parts (slash # p) = clean_parts p"
  by (simp add: clean_parts_def clean_step_def)

lemma rooted_url:
  "path_clean (if prefix ''/'' p then p else slash # p) = slash # join_with ''/'' (clean_parts (slash # p))"
  by (simp add: path_clean_def clean_parts_slash)

lemma join_Nil_iff: "list_all proper_part ps \<Longrightarrow> join_with ''/'' ps = [] \<longleftrightarrow> ps = []"
  by (cases "(''/'', ps)" rule: join_with.cases) (simp_all add: proper_part_def)

lemma site_path_parts:
  "site_path p = (if clean_parts (slash # p) = [] then ''index.html''
     else join_with ''/'' (clean_parts (slash # p)))"
proof -
  let ?ps = "clean_parts (slash # p)"
  have c: "path_clean (''/'' @ p) = slash # join_with ''/'' ?ps" by (simp add: path_clean_def)
  have "cut_prefix (slash # join_with ''/'' ?ps) ''/'' = Some (join_with ''/'' ?ps)"
    by (simp add: cut_prefix_Some_iff)
  moreover have "join_with ''/'' ?ps = [] \<longleftrightarrow> ?ps = []"
    using clean_parts_rooted[of "slash # p"] by (simp add: join_Nil_iff)
  ultimately show ?thesis unfolding site_path_def c by simp
qed

text \<open>A build in which the root is a directory, as every file system is.\<close>

definition site_ok :: "site \<Rightarrow> bool" where
  "site_ok files \<longleftrightarrow> files ''.'' = Some DirNode"

definition built_file :: "site \<Rightarrow> string \<Rightarrow> bool" where
  "built_file files b \<longleftrightarrow>
     (\<exists>ps. list_all proper_part ps \<and> ps \<noteq> [] \<and> files (join_with ''/'' ps) = Some (FileNode b))"

lemma fs_name_clean:
  "fs_name (slash # join_with ''/'' ps) = (if join_with ''/'' ps = [] then ''.'' else join_with ''/'' ps)"
  by (simp add: fs_name_def)

lemma built_file_index: "files ''index.html'' = Some (FileNode b) \<Longrightarrow> built_file files b"
  unfolding built_file_def by (rule exI[of _ "[''index.html'']"]) (simp add: proper_part_def)

lemma built_file_name:
  assumes "site_ok files" "list_all proper_part ps" "files (fs_name (slash # join_with ''/'' ps)) = Some (FileNode b)"
  shows "built_file files b"
proof -
  have "join_with ''/'' ps \<noteq> []" using assms(1,3) by (auto simp: fs_name_def site_ok_def)
  moreover from this have "ps \<noteq> []" by auto
  ultimately show ?thesis using assms(2,3) unfolding built_file_def fs_name_clean by auto
qed

lemma FileServer_built:
  assumes "site_ok files" "rs_body (FileServer files hs p) = Bytes b"
  shows "built_file files b"
proof -
  let ?u = "if prefix ''/'' p then p else slash # p" and ?ps = "clean_parts (slash # p)"
  have ps: "list_all proper_part ?ps" by (rule clean_parts_rooted) simp
  have i: "list_all proper_part (?ps @ [''index.html''])" using ps by (simp add: proper_part_def)
  have n: "path_clean ?u = slash # join_with ''/'' ?ps" by (rule rooted_url)
  have j: "path_join [path_clean ?u, ''index.html''] = slash # join_with ''/'' (?ps @ [''index.html''])"
  proof -
    have "prefix ''/'' (path_clean ?u)" "proper_part ''index.html''" by (simp_all add: n proper_part_def)
    then have "clean_parts (path_join [path_clean ?u, ''index.html'']) = ?ps @ [''index.html'']"
      using clean_rooted_parts[OF ps] by (simp only: clean_parts_join n)
    moreover have "path_join [path_clean ?u, ''index.html''] = path_clean (path_clean ?u @ slash # ''index.html'')"
      by (simp add: path_join_def Let_def n)
    moreover have "prefix ''/'' (path_clean ?u @ slash # ''index.html'')" by (simp add: n)
    ultimately show ?thesis by (metis clean_parts_clean path_clean_rooted)
  qed
  from assms(2) consider "files (fs_name (path_clean ?u)) = Some (FileNode b)"
    | "files (fs_name (path_join [path_clean ?u, ''index.html''])) = Some (FileNode b)"
    by (auto simp: FileServer_def Let_def moved_def split: if_splits option.splits fs_node.splits)
  then show ?thesis
    using built_file_name[OF assms(1) ps] built_file_name[OF assms(1) i] unfolding j unfolding n
    by cases auto
qed

lemma header_distinct: "immutable \<noteq> no_cache" "immutable \<noteq> html" "immutable \<noteq> (''Location'', t)"
  by (simp_all add: immutable_def no_cache_def html_def)

lemma FileServer_headers: "h \<in> set (rs_headers (FileServer files hs p)) \<Longrightarrow> h \<in> set hs \<or> (\<exists>t. h = (''Location'', t))"
  by (auto simp: FileServer_def Let_def moved_def split: if_splits option.splits fs_node.splits)

text \<open>What a page may be: bytes of a file of the build, the listing of one of its directories, a
  redirect for a name that exists in it, the page that says there is no build, or an error text with
  its status.\<close>

definition page_ok :: "site \<Rightarrow> string \<Rightarrow> nat \<Rightarrow> page \<Rightarrow> bool" where
  "page_ok files p st pg =
     (case pg of
        Bytes b \<Rightarrow> st = 200 \<and> built_file files b
      | Listing d \<Rightarrow> st = 200 \<and> files (fs_name d) = Some DirNode
      | MovedTo t \<Rightarrow> st = 301 \<and> files (site_path p) \<noteq> None
      | NotBuiltPage \<Rightarrow> st = 200 \<and> files ''index.html'' = None
      | NotFoundText \<Rightarrow> st = 404
      | MissingIndexText \<Rightarrow> st = 500)"

lemma FileServer_page:
  assumes "site_ok files" "files (site_path p) \<noteq> None"
  shows "page_ok files p (rs_status (FileServer files hs p)) (rs_body (FileServer files hs p))"
proof (cases "\<exists>b. rs_body (FileServer files hs p) = Bytes b")
  case True
  then obtain b where b: "rs_body (FileServer files hs p) = Bytes b" ..
  moreover have "rs_status (FileServer files hs p) = 200"
    using b by (auto simp: FileServer_def Let_def moved_def split: if_splits option.splits fs_node.splits)
  ultimately show ?thesis using FileServer_built[OF assms(1) b] by (simp add: page_ok_def)
next
  case False
  then show ?thesis using assms(2)
    by (auto simp: page_ok_def FileServer_def Let_def moved_def split: if_splits option.splits fs_node.splits)
qed

text \<open>C40. The front end hands out nothing but the build: whatever path is asked for, bytes that are
  served are those of a file of the build, named by proper path components, a listing is one of a
  directory of the build, a redirect is given only for a name that exists in it, and without a build
  there is the page that says so; everything else is an error status. Only files that exist below
  \<open>assets\<close> are marked immutable; a missing file with an extension is a 404, and any other unknown
  path is answered with the application's page, which is never cached.\<close>

theorem frontend_serves_only_the_build:
  assumes "site_ok files"
  shows "page_ok files p (rs_status (Handler files p)) (rs_body (Handler files p)) \<and>
    (rs_body (Handler files p) = Bytes b \<longrightarrow> built_file files b) \<and>
    (immutable \<in> set (rs_headers (Handler files p)) \<longrightarrow>
       prefix ''assets/'' (site_path p) \<and> files (site_path p) \<noteq> None) \<and>
    (files ''index.html'' = Some (FileNode i) \<and> files (site_path p) = None \<longrightarrow>
       Handler files p = (if path_ext (site_path p) \<noteq> [] then respond 404 [] NotFoundText
         else respond 200 [html, no_cache] (Bytes i)))"
proof (intro conjI impI)
  show page: "page_ok files p (rs_status (Handler files p)) (rs_body (Handler files p))"
  proof (cases "files ''index.html'' = None \<or> files (site_path p) = None")
    case True
    then show ?thesis using built_file_index
      by (auto simp: page_ok_def Handler_def FS_def Let_def split: option.split fs_node.split)
  next
    case False
    then show ?thesis using FileServer_page[OF assms] by (simp add: Handler_def FS_def Let_def)
  qed
  assume "rs_body (Handler files p) = Bytes b"
  with page show "built_file files b" by (simp add: page_ok_def)
next
  assume "immutable \<in> set (rs_headers (Handler files p))"
  then show "prefix ''assets/'' (site_path p)" "files (site_path p) \<noteq> None"
    using header_distinct
    by (auto simp: Handler_def FS_def Let_def dest!: FileServer_headers
        split: if_splits option.splits fs_node.splits)
qed (auto simp: Handler_def FS_def Let_def)

text \<open>The comment on \<open>Handler\<close> promises the application's page for every path that is not a real file;
  a directory of the build is not one, and is listed.\<close>

lemma directories_are_listed:
  "Handler [''.'' \<mapsto> DirNode, ''index.html'' \<mapsto> FileNode ''<app>'', ''assets'' \<mapsto> DirNode] ''/assets/'' =
     respond 200 [no_cache] (Listing ''/assets'')"
proof -
  have "site_path ''/assets/'' = ''assets''" "path_clean ''/assets/'' = ''/assets''" "prefix ''/'' ''/assets/''"
    "path_join [''/assets'', ''index.html''] = ''/assets/index.html''" "\<not> suffix ''/index.html'' ''/assets/''"
    "fs_name ''/assets'' = ''assets''" "fs_name ''/assets/index.html'' = ''assets/index.html''"
    by code_simp+
  then show ?thesis by (simp add: Handler_def FS_def FileServer_def Let_def)
qed

lemma frontend_serves_only_the_build_witness:
  "Handler [''.'' \<mapsto> DirNode, ''index.html'' \<mapsto> FileNode ''<app>''] ''/devices/dev_1'' =
     respond 200 [html, no_cache] (Bytes ''<app>'') \<and>
   Handler [''.'' \<mapsto> DirNode, ''index.html'' \<mapsto> FileNode ''<app>''] ''/../../etc/passwd.txt'' = respond 404 [] NotFoundText"
proof -
  let ?f = "[''.'' \<mapsto> DirNode, ''index.html'' \<mapsto> FileNode ''<app>''] :: site"
  have ok: "site_ok ?f" by (simp add: site_ok_def)
  have p: "site_path ''/devices/dev_1'' = ''devices/dev_1''" "path_ext ''devices/dev_1'' = []"
    "site_path ''/../../etc/passwd.txt'' = ''etc/passwd.txt''" "path_ext ''etc/passwd.txt'' = ''.txt''"
    by code_simp+
  show ?thesis
    using frontend_serves_only_the_build[OF ok, of "''/devices/dev_1''" _ "''<app>''"]
      frontend_serves_only_the_build[OF ok, of "''/../../etc/passwd.txt''" _ "''<app>''"]
    by (simp add: p)
qed

end
