(* ===== verification/Middleware.thy ===== *)
theory Middleware
  imports Http Config Auth JobQueue Extern Frontend
begin

text \<open>
  \<open>internal/api/middleware.go\<close> and the response helpers of \<open>internal/api/api.go\<close>: the state an HTTP
  request acts on, what one request reads from its surroundings, and the middleware around the
  handlers. A handler answers or panics, having perhaps written an answer already; \<open>Aborted\<close> is the
  panic with \<open>http.ErrAbortHandler\<close>. Of the log, only the line \<open>logRequests\<close> writes is kept.
\<close>

subsection \<open>The state and the answers\<close>

record log_line =
  ll_level :: log_level
  ll_method :: string
  ll_path :: string
  ll_status :: nat
  ll_ip :: string

record world =
  w_auth :: auth_tables
  w_queue :: queue
  w_log :: "log_line list"

record provider_info =
  pi_kind :: string
  pi_model :: string
  pi_enabled :: bool
  pi_has_key :: bool

record tool_info =
  ti_name :: string
  ti_available :: bool
  ti_version :: string
  ti_purpose :: string
  ti_install :: string

record instance_info =
  ii_version :: string
  ii_languages :: "string list"
  ii_primary :: string
  ii_capabilities :: "(string \<times> bool) list"
  ii_providers :: "(string \<times> provider_info) list"
  ii_tools :: "tool_info list"

datatype frame = EventFrame string job_event | CommentFrame string

datatype api_body =
    ErrorBody string string
  | HealthBody string int
  | SetupStatusBody bool
  | UserBody auth_user
  | MeBody auth_user auth_session
  | InstanceBody instance_info
  | JobsBody "job list"
  | JobBody job
  | NoContent
  | StreamBody "frame list"
  | PageBody page
  | Interrupted api_body

type_synonym answer = "api_body response"

datatype outcome = Answered answer | Panicked_with "answer option" | Aborted

type_synonym handler = "request \<Rightarrow> world \<Rightarrow> outcome \<times> world"

text \<open>
  What the server is built with. Of the fields of \<open>Deps\<close>, the database, the service that keeps the
  accounts and the queue are the tables of the \<open>world\<close>; what that service was made with (its session
  lifetime, the hash to compare with when there is no account, Argon2id and the parser of
  addresses) is here, beside the configuration and the version.
\<close>

record deps =
  dp_config :: config
  dp_version :: string
  dp_argon :: argon
  dp_parse :: "string \<Rightarrow> string option"
  dp_ttl :: duration
  dp_dummy :: string

subsection \<open>Responses\<close>

definition json_type :: "string \<times> string" where
  "json_type = (''Content-Type'', ''application/json; charset=utf-8'')"

definition writeJSON :: "nat \<Rightarrow> api_body \<Rightarrow> answer" where
  "writeJSON status v = respond status [json_type] v"

definition writeError :: "nat \<Rightarrow> string \<Rightarrow> string \<Rightarrow> answer" where
  "writeError status code message = writeJSON status (ErrorBody code message)"

definition internalError :: answer where
  "internalError = writeError 500 ''internal_error'' ''Something went wrong on the server.''"

definition no_content :: answer where
  "no_content = respond 204 [] NoContent"

definition add_cookie :: "cookie \<Rightarrow> 'b response \<Rightarrow> 'b response" where
  "add_cookie c r = r\<lparr>rs_cookies := rs_cookies r @ [c]\<rparr>"

lemma write_sel [simp]:
  "rs_status (writeJSON st v) = st" "rs_body (writeJSON st v) = v" "rs_cookies (writeJSON st v) = []"
  "rs_status (writeError st c m) = st" "rs_body (writeError st c m) = ErrorBody c m"
  "rs_cookies (writeError st c m) = []"
  "rs_status internalError = 500" "rs_cookies internalError = []"
  "rs_status no_content = 204" "rs_body no_content = NoContent" "rs_cookies no_content = []"
  "rs_status (add_cookie k r) = rs_status r" "rs_body (add_cookie k r) = rs_body r"
  "rs_cookies (add_cookie k r) = rs_cookies r @ [k]"
  by (simp_all add: writeJSON_def writeError_def internalError_def no_content_def add_cookie_def)

subsection \<open>The client's address\<close>

definition forwardedClientIP :: "request \<Rightarrow> string" where
  "forwardedClientIP r =
     (let xff = header r ''X-Forwarded-For'';
          candidate = trim_space (last (split_on (CHR '','') xff))
      in if xff \<noteq> [] \<and> candidate \<noteq> [] then candidate
         else trim_space (header r ''X-Real-Ip''))"

definition realIP :: "deps \<Rightarrow> handler \<Rightarrow> handler" where
  "realIP d next_handler r w =
     (let ip = forwardedClientIP r in
      if sc_trust_proxy (cf_server (dp_config d)) \<and> ip \<noteq> []
      then next_handler (r\<lparr>rq_remote := ip\<rparr>) w else next_handler r w)"

subsection \<open>Logging and panics\<close>

text \<open>
  An error written over an answer that has begun changes neither its status nor its headers; its
  text only follows what was sent (\<open>Interrupted\<close>).
\<close>

definition slogLevelForStatus :: "nat \<Rightarrow> log_level" where
  "slogLevelForStatus st = (if 500 \<le> st then LevelError else if 400 \<le> st then LevelWarn else LevelDebug)"

definition logRequests :: "handler \<Rightarrow> handler" where
  "logRequests next_handler r w =
     (case next_handler r w of
        (Answered a, w') \<Rightarrow>
          if rq_path r = ''/api/v1/jobs/events'' then (Answered a, w')
          else (Answered a, w'\<lparr>w_log := w_log w' @
            [\<lparr>ll_level = slogLevelForStatus (rs_status a), ll_method = rq_method r,
              ll_path = rq_path r, ll_status = rs_status a, ll_ip = rq_remote r\<rparr>]\<rparr>)
      | res \<Rightarrow> res)"

definition recoverPanics :: "handler \<Rightarrow> handler" where
  "recoverPanics next_handler r w =
     (case next_handler r w of
        (Panicked_with None, w') \<Rightarrow> (Answered internalError, w')
      | (Panicked_with (Some a), w') \<Rightarrow> (Answered (a\<lparr>rs_body := Interrupted (rs_body a)\<rparr>), w')
      | res \<Rightarrow> res)"

subsection \<open>Cross-site requests\<close>

definition originAllowed :: "deps \<Rightarrow> string \<Rightarrow> request \<Rightarrow> bool" where
  "originAllowed d origin r =
     (case url_parse origin of
        None \<Rightarrow> False
      | Some u \<Rightarrow>
          if url_host u = [] then False
          else if equal_fold (url_host u) (rq_host r) then True
          else (case url_parse (sc_base_url (cf_server (dp_config d))) of
              None \<Rightarrow> False
            | Some base \<Rightarrow> url_host base \<noteq> [] \<and> equal_fold (url_host u) (url_host base)))"

definition safe_method :: "string \<Rightarrow> bool" where
  "safe_method m \<longleftrightarrow> m \<in> {''GET'', ''HEAD'', ''OPTIONS''}"

definition checkOrigin :: "deps \<Rightarrow> handler \<Rightarrow> handler" where
  "checkOrigin d next_handler r w =
     (if safe_method (rq_method r) then next_handler r w
      else
        let origin = header r ''Origin'' in
        if origin = [] \<or> originAllowed d origin r then next_handler r w
        else (Answered (writeError 403 ''cross_origin_blocked''
               ''This request came from another origin and was blocked.''), w))"

subsection \<open>Sessions\<close>

definition sessionCookie :: string where
  "sessionCookie = ''manualbox_session''"

definition bearer_token :: "request \<Rightarrow> string" where
  "bearer_token r =
     (case cut_prefix (header r ''Authorization'') ''Bearer '' of None \<Rightarrow> [] | Some t \<Rightarrow> trim_space t)"

definition sessionTokenFrom :: "request \<Rightarrow> string" where
  "sessionTokenFrom r =
     (case Cookie r sessionCookie of
        None \<Rightarrow> bearer_token r
      | Some v \<Rightarrow> if v \<noteq> [] then v else bearer_token r)"

definition requestIsHTTPS :: "deps \<Rightarrow> request \<Rightarrow> bool" where
  "requestIsHTTPS d r \<longleftrightarrow>
     rq_tls r \<or>
     sc_trust_proxy (cf_server (dp_config d)) \<and> equal_fold (header r ''X-Forwarded-Proto'') ''https'' \<or>
     prefix ''https://'' (sc_base_url (cf_server (dp_config d)))"

text \<open>\<open>now\<close> is the time at which the remaining life is computed, in whole seconds towards zero.\<close>

definition whole_seconds :: "duration \<Rightarrow> int" where
  "whole_seconds t = (if t < 0 then - (- t div second) else t div second)"

definition setSessionCookie :: "deps \<Rightarrow> request \<Rightarrow> gotime \<Rightarrow> string \<Rightarrow> gotime \<Rightarrow> answer \<Rightarrow> answer" where
  "setSessionCookie d r now token expires =
     add_cookie \<lparr>ck_name = sessionCookie, ck_value = token, ck_path = ''/'', ck_http_only = True, ck_lax = True,
       ck_secure = requestIsHTTPS d r, ck_expires = Some expires,
       ck_max_age = whole_seconds (expires - now)\<rparr>"

definition clearSessionCookie :: "deps \<Rightarrow> request \<Rightarrow> answer \<Rightarrow> answer" where
  "clearSessionCookie d r =
     add_cookie \<lparr>ck_name = sessionCookie, ck_value = [], ck_path = ''/'', ck_http_only = True, ck_lax = True,
       ck_secure = requestIsHTTPS d r, ck_expires = None, ck_max_age = -1\<rparr>"

definition requireUser :: "deps \<Rightarrow> callenv \<Rightarrow> (auth_user \<Rightarrow> auth_session \<Rightarrow> handler) \<Rightarrow> handler" where
  "requireUser d env next_handler r w =
     (let token = sessionTokenFrom r in
      case Authenticate (dp_ttl d) env token (w_auth w) of
        (Inl ErrNoSession, a) \<Rightarrow>
          (Answered ((if token \<noteq> [] then clearSessionCookie d r else id)
             (writeError 401 ''unauthenticated'' ''You need to sign in.'')), w\<lparr>w_auth := a\<rparr>)
      | (Inl _, a) \<Rightarrow> (Answered internalError, w\<lparr>w_auth := a\<rparr>)
      | (Inr (u, s), a) \<Rightarrow> next_handler u s r (w\<lparr>w_auth := a\<rparr>))"

lemma checkOrigin_cases:
  obtains (pass) "checkOrigin d h r w = h r w"
      "safe_method (rq_method r) \<or> header r ''Origin'' = [] \<or> originAllowed d (header r ''Origin'') r"
  | (blocked) "checkOrigin d h r w = (Answered (writeError 403 ''cross_origin_blocked''
        ''This request came from another origin and was blocked.''), w)"
      "\<not> safe_method (rq_method r)" "header r ''Origin'' \<noteq> []" "\<not> originAllowed d (header r ''Origin'') r"
  unfolding checkOrigin_def Let_def by (metis (full_types))

end
