(* ===== verification/Handlers.thy ===== *)
theory Handlers
  imports Middleware
begin

text \<open>
  The JSON handlers of \<open>internal/api/handlers.go\<close> and \<open>decodeJSON\<close> of \<open>internal/api/api.go\<close>. The
  streaming handler is in \<open>JobStream\<close>. What a request reads from outside (clock, entropy,
  failures of its statements, the migration library, the search path and the tools on it) is \<open>calls\<close>;
  \<open>turn\<close> is what happens next while a stream is open. The handlers raise no panic of their own, but
  code they run may; \<open>cl_panic\<close> says whether it does, and when: before the handler has done anything,
  when it is about to write its answer, or after it has written some of it.
\<close>

datatype turn = ClientGone | NextEvent | Tick bool | Elsewhere job_event

datatype panic_point = NoPanic | PanicsFirst | PanicsUnwritten | PanicsWritten

record calls =
  cl_session :: callenv
  cl_setup :: auth_env
  cl_login :: auth_env
  cl_begin_fails :: bool
  cl_commit_fails :: bool
  cl_fault :: "db_error option"
  cl_job :: callenv
  cl_goose :: goose
  cl_look_path :: "string \<rightharpoonup> string"
  cl_tool_output :: "tool \<Rightarrow> string"
  cl_goos :: string
  cl_now :: gotime
  cl_later :: gotime
  cl_flusher :: bool
  cl_turns :: "turn list"
  cl_panic :: panic_point

subsection \<open>Request bodies\<close>

definition max_body :: nat where "max_body = 2 ^ 20"

fun decode_members :: "string list \<Rightarrow> (string \<times> json) list \<Rightarrow> (string \<rightharpoonup> string) \<Rightarrow> (string \<rightharpoonup> string) option" where
  "decode_members fs [] dst = Some dst"
| "decode_members fs ((k, v) # ms) dst =
     (case (field_of fs k, v) of
        (Some f, JStr s) \<Rightarrow> decode_members fs ms (dst(f \<mapsto> s))
      | (Some f, JNull) \<Rightarrow> decode_members fs ms dst
      | _ \<Rightarrow> None)"

text \<open>
  The decoder reads through a limit of one MiB. \<open>More\<close> looks for a further value; a closing bracket
  or brace, and what lies beyond the limit, it does not report.
\<close>

definition decodeJSON :: "string list \<Rightarrow> body \<Rightarrow> (string \<Rightarrow> string) option" where
  "decodeJSON fs b =
     (let dst = (if max_body < bd_end b then None
          else (case bd_value b of
              Some (JObj ms) \<Rightarrow> decode_members fs ms Map.empty
            | Some JNull \<Rightarrow> Some Map.empty
            | _ \<Rightarrow> None));
          more = (case bd_next b of
              None \<Rightarrow> False
            | Some (pos, c) \<Rightarrow> pos < max_body \<and> c \<noteq> CHR '']'' \<and> c \<noteq> CHR ''}'')
      in if more then None
         else map_option (\<lambda>m k. case m k of None \<Rightarrow> [] | Some s \<Rightarrow> s) dst)"

definition bad_body :: "request \<Rightarrow> answer" where
  "bad_body r = writeError 400 ''invalid_body'' (bd_error (rq_body r))"

subsection \<open>Health and setup\<close>

definition handleHealth :: "deps \<Rightarrow> calls \<Rightarrow> handler" where
  "handleHealth d c r w =
     (case Version (cl_goose c) of
        Inl _ \<Rightarrow> (Answered (writeError 503 ''database_unavailable'' ''The database is not reachable.''), w)
      | Inr v \<Rightarrow> (Answered (writeJSON 200 (HealthBody (dp_version d) v)), w))"

definition handleSetupStatus :: "deps \<Rightarrow> calls \<Rightarrow> handler" where
  "handleSetupStatus d c r w =
     (case NeedsSetup (cl_fault c) (w_auth w) of
        Inl _ \<Rightarrow> (Answered internalError, w)
      | Inr needs \<Rightarrow> (Answered (writeJSON 200 (SetupStatusBody needs)), w))"

definition weak_message :: string where
  "weak_message = ''password must be at least '' @ dec MinPasswordLength @ '' characters''"

definition handleSetup :: "deps \<Rightarrow> calls \<Rightarrow> handler" where
  "handleSetup d c r w =
     (case decodeJSON [''email'', ''password'', ''displayName''] (rq_body r) of
        None \<Rightarrow> (Answered (bad_body r), w)
      | Some req \<Rightarrow>
          (case Setup (dp_argon d) (dp_parse d) (cl_setup c) (req ''email'') (req ''password'')
                  (req ''displayName'') (w_auth w) of
             (Inl ErrSetupComplete, a) \<Rightarrow>
               (Answered (writeError 409 ''setup_complete'' ''This instance has already been set up.''), w\<lparr>w_auth := a\<rparr>)
           | (Inl ErrWeakPassword, a) \<Rightarrow>
               (Answered (writeError 422 ''weak_password'' weak_message), w\<lparr>w_auth := a\<rparr>)
           | (Inl ErrInvalidEmail, a) \<Rightarrow>
               (Answered (writeError 422 ''invalid_email'' ''That email address is not valid.''), w\<lparr>w_auth := a\<rparr>)
           | (Inl _, a) \<Rightarrow> (Answered internalError, w\<lparr>w_auth := a\<rparr>)
           | (Inr user, a) \<Rightarrow>
               (case Login (dp_argon d) (dp_ttl d) (dp_dummy d) (cl_login c) (req ''email'')
                       (req ''password'') (header r ''User-Agent'') (rq_remote r) a of
                  ((Inl _, _), a') \<Rightarrow> (Answered (writeJSON 201 (UserBody user)), w\<lparr>w_auth := a'\<rparr>)
                | ((Inr (token, _), _), a') \<Rightarrow>
                    (Answered (setSessionCookie d r (cl_later c) token (cl_now c + DefaultSessionTTL)
                       (writeJSON 201 (UserBody user))), w\<lparr>w_auth := a'\<rparr>))))"

subsection \<open>Signing in and out\<close>

definition handleLogin :: "deps \<Rightarrow> calls \<Rightarrow> handler" where
  "handleLogin d c r w =
     (case decodeJSON [''email'', ''password''] (rq_body r) of
        None \<Rightarrow> (Answered (bad_body r), w)
      | Some req \<Rightarrow>
          (case Login (dp_argon d) (dp_ttl d) (dp_dummy d) (cl_login c) (req ''email'') (req ''password'')
                  (header r ''User-Agent'') (rq_remote r) (w_auth w) of
             ((Inl ErrInvalidCredentials, _), a) \<Rightarrow>
               (Answered (writeError 401 ''invalid_credentials'' ''Email or password is incorrect.''), w\<lparr>w_auth := a\<rparr>)
           | ((Inl _, _), a) \<Rightarrow> (Answered internalError, w\<lparr>w_auth := a\<rparr>)
           | ((Inr (token, user), _), a) \<Rightarrow>
               (Answered (setSessionCookie d r (cl_later c) token (cl_now c + DefaultSessionTTL)
                  (writeJSON 200 (UserBody user))), w\<lparr>w_auth := a\<rparr>)))"

definition handleLogout :: "deps \<Rightarrow> calls \<Rightarrow> handler" where
  "handleLogout d c r w =
     (let token = sessionTokenFrom r;
          (err, a) = (if token \<noteq> [] then Logout (cl_session c) token (w_auth w) else (None, w_auth w))
      in if err \<noteq> None then (Answered internalError, w\<lparr>w_auth := a\<rparr>)
         else (Answered (clearSessionCookie d r no_content), w\<lparr>w_auth := a\<rparr>))"

definition handleMe :: "auth_user \<Rightarrow> auth_session \<Rightarrow> handler" where
  "handleMe u s r w = (Answered (writeJSON 200 (MeBody u s)), w)"

definition handleChangePassword :: "deps \<Rightarrow> calls \<Rightarrow> auth_user \<Rightarrow> auth_session \<Rightarrow> handler" where
  "handleChangePassword d c u s r w =
     (case decodeJSON [''currentPassword'', ''newPassword''] (rq_body r) of
        None \<Rightarrow> (Answered (bad_body r), w)
      | Some req \<Rightarrow>
          (case ChangePassword (dp_argon d) (cl_login c) (cl_begin_fails c) (cl_commit_fails c) (au_id u)
                  (req ''currentPassword'') (req ''newPassword'') (w_auth w) of
             (Some ErrInvalidCredentials, a) \<Rightarrow>
               (Answered (writeError 401 ''invalid_credentials'' ''Your current password is incorrect.''),
                w\<lparr>w_auth := a\<rparr>)
           | (Some ErrWeakPassword, a) \<Rightarrow>
               (Answered (writeError 422 ''weak_password'' weak_message), w\<lparr>w_auth := a\<rparr>)
           | (Some _, a) \<Rightarrow> (Answered internalError, w\<lparr>w_auth := a\<rparr>)
           | (None, a) \<Rightarrow> (Answered (clearSessionCookie d r no_content), w\<lparr>w_auth := a\<rparr>)))"

subsection \<open>The instance\<close>

definition providerInfo :: "provider \<Rightarrow> provider_info" where
  "providerInfo p =
     \<lparr>pi_kind = pv_kind p, pi_model = pv_model p, pi_enabled = Enabled p,
      pi_has_key = Set_secret (pv_api_key p)\<rparr>"

definition handleInstance :: "deps \<Rightarrow> calls \<Rightarrow> auth_user \<Rightarrow> auth_session \<Rightarrow> handler" where
  "handleInstance d c u s r w =
     (let cfg = dp_config d;
          tools = map (\<lambda>st. \<lparr>ti_name = tl_name (ts_tool st), ti_available = ts_found st,
              ti_version = ts_version st, ti_purpose = tl_purpose (ts_tool st),
              ti_install = InstallHint (cl_goos c) st\<rparr>) (ProbeAll (cl_look_path c) (cl_tool_output c))
      in (Answered (writeJSON 200 (InstanceBody
            \<lparr>ii_version = dp_version d, ii_languages = cc_languages (cf_content cfg),
             ii_primary = PrimaryLanguage cfg,
             ii_capabilities = map (\<lambda>(n, p). (n, Enabled p)) (provider_slots cfg),
             ii_providers = map (\<lambda>(n, p). (n, providerInfo p)) (provider_slots cfg),
             ii_tools = tools\<rparr>)), w))"

subsection \<open>Jobs\<close>

text \<open>
  \<open>%q\<close>, \<open>strconv.Quote\<close>: bytes from 128 up are kept, which is what it does with the UTF-8 of
  printable characters.
\<close>

definition escaped :: "char \<Rightarrow> string" where
  "escaped c =
     (let n = of_char c :: nat; bs = char_of (92 :: nat); named = zip [7 ..< 14] ''abtnvfr'' in
      if n = 34 \<or> n = 92 then [bs, c]
      else case map_of named n of
        Some e \<Rightarrow> [bs, e]
      | None \<Rightarrow> if n < 32 \<or> n = 127 then [bs, CHR ''x'', hex_digit (n div 16), hex_digit (n mod 16)]
                else [c])"

definition quoted :: "string \<Rightarrow> string" where
  "quoted s = char_of (34 :: nat) # concat (map escaped s) @ [char_of (34 :: nat)]"

definition listable :: "string \<Rightarrow> bool" where
  "listable state \<longleftrightarrow> state \<in> {[], ''queued'', ''running'', ''succeeded'', ''failed'', ''cancelled''}"

definition list_limit :: "string \<Rightarrow> int option" where
  "list_limit raw =
     (if raw = [] then Some 50
      else case atoi raw of None \<Rightarrow> None | Some n \<Rightarrow> if n < 1 \<or> n > 500 then None else Some n)"

definition handleListJobs :: "deps \<Rightarrow> calls \<Rightarrow> auth_user \<Rightarrow> auth_session \<Rightarrow> handler" where
  "handleListJobs d c u s r w =
     (let state = get_first ''state'' (rq_query r) in
      if \<not> listable state then
        (Answered (writeError 400 ''invalid_state'' (quoted state @ '' is not a job state.'')), w)
      else
        (case list_limit (get_first ''limit'' (rq_query r)) of
           None \<Rightarrow> (Answered (writeError 400 ''invalid_limit''
                    ''limit must be a number between 1 and 500.''), w)
         | Some limit \<Rightarrow>
             (case List_jobs (cl_fault c) state limit (w_queue w) of
                Inl _ \<Rightarrow> (Answered internalError, w)
              | Inr js \<Rightarrow> (Answered (writeJSON 200 (JobsBody js)), w))))"

definition handleGetJob :: "deps \<Rightarrow> calls \<Rightarrow> string \<Rightarrow> auth_user \<Rightarrow> auth_session \<Rightarrow> handler" where
  "handleGetJob d c jobID u s r w =
     (case Get (cl_fault c) jobID (w_queue w) of
        Inl (ErrNotFound _) \<Rightarrow> (Answered (writeError 404 ''not_found'' ''No such job.''), w)
      | Inl _ \<Rightarrow> (Answered internalError, w)
      | Inr j \<Rightarrow> (Answered (writeJSON 200 (JobBody j)), w))"

definition handleCancelJob :: "deps \<Rightarrow> calls \<Rightarrow> string \<Rightarrow> auth_user \<Rightarrow> auth_session \<Rightarrow> handler" where
  "handleCancelJob d c jobID u s r w =
     (case Cancel (cl_job c) jobID (w_queue w) of
        (Some (ErrNotFound _), q) \<Rightarrow>
          (Answered (writeError 404 ''not_found'' ''No such job.''), w\<lparr>w_queue := q\<rparr>)
      | (Some _, q) \<Rightarrow>
          (Answered (writeError 409 ''not_cancellable'' ''That job has already finished.''), w\<lparr>w_queue := q\<rparr>)
      | (None, q) \<Rightarrow> (Answered no_content, w\<lparr>w_queue := q\<rparr>))"


subsection \<open>An example\<close>

definition demo_deps :: "config \<Rightarrow> deps" where
  "demo_deps cfg = \<lparr>dp_config = cfg, dp_version = ''dev'', dp_argon = demo_argon, dp_parse = Some,
     dp_ttl = New_ttl 0, dp_dummy = demo_hash\<rparr>"

definition demo_goose :: goose where
  "demo_goose = \<lparr>gs_files = True, gs_provider = True, gs_up = Some 0, gs_version = Some 1\<rparr>"

definition demo_calls :: calls where
  "demo_calls = \<lparr>cl_session = calm 0, cl_setup = demo_env ''usr_1'', cl_login = demo_env ''ses_2'',
     cl_begin_fails = False, cl_commit_fails = False, cl_fault = None, cl_job = calm 0,
     cl_goose = demo_goose, cl_look_path = Map.empty, cl_tool_output = (\<lambda>_. []), cl_goos = ''linux'', cl_now = 0, cl_later = 0,
     cl_flusher = True, cl_turns = [], cl_panic = NoPanic\<rparr>"

definition demo_world :: "session_row list \<Rightarrow> jobs_table \<Rightarrow> world" where
  "demo_world ss js = \<lparr>w_auth = demo_auth ss, w_queue = NewQueue js, w_log = []\<rparr>"

definition demo_request :: "string \<Rightarrow> string \<Rightarrow> (string \<times> string) list \<Rightarrow> request" where
  "demo_request m p hs = \<lparr>rq_method = m, rq_path = p, rq_raw_path = [], rq_query = [], rq_headers = hs,
     rq_host = ''box:7745'', rq_remote = ''1.2.3.4'', rq_tls = False, rq_body = no_body\<rparr>"

lemma demo_calls_sel [simp]:
  "cl_session demo_calls = calm 0" "cl_login demo_calls = demo_env ''ses_2''" "cl_fault demo_calls = None"
  "cl_flusher demo_calls = True" "cl_turns demo_calls = []" "cl_job demo_calls = calm 0"
  "cl_setup demo_calls = demo_env ''usr_1''" "cl_now demo_calls = 0" "cl_later demo_calls = 0"
  "cl_panic demo_calls = NoPanic"
  by (simp_all add: demo_calls_def)

lemma demo_deps_sel [simp]:
  "dp_config (demo_deps cfg) = cfg" "dp_ttl (demo_deps cfg) = New_ttl 0" "dp_argon (demo_deps cfg) = demo_argon"
  "dp_dummy (demo_deps cfg) = demo_hash"
  by (simp_all add: demo_deps_def)

lemma demo_world_sel [simp]:
  "w_auth (demo_world ss js) = demo_auth ss" "w_queue (demo_world ss js) = NewQueue js"
  "w_log (demo_world ss js) = []"
  by (simp_all add: demo_world_def)

lemma demo_request_sel [simp]:
  "rq_method (demo_request m p hs) = m" "rq_path (demo_request m p hs) = p"
  "rq_headers (demo_request m p hs) = hs" "rq_remote (demo_request m p hs) = ''1.2.3.4''"
  "rq_host (demo_request m p hs) = ''box:7745''"
  by (simp_all add: demo_request_def)

end
