(* ===== verification/JobStream.thy ===== *)
theory JobStream
  imports Handlers
begin

text \<open>
  \<open>handleJobEvents\<close> of \<open>internal/api/handlers.go\<close>: the stream of job events. What happens while the
  stream is open is a list of turns, each one branch of its \<open>select\<close>, or a publication by another
  goroutine; when the list ends the client is gone.
\<close>

fun stream_loop :: "nat \<Rightarrow> turn list \<Rightarrow> job_event broker \<Rightarrow> frame list \<times> job_event broker" where
  "stream_loop ch [] b = ([], b)"
| "stream_loop ch (ClientGone # ts) b = ([], b)"
| "stream_loop ch (NextEvent # ts) b =
     (case receive ch b of
        (Some (Some ev), b') \<Rightarrow>
          (case stream_loop ch ts b' of (fs, b'') \<Rightarrow> (EventFrame ''job'' ev # fs, b''))
      | (Some None, b') \<Rightarrow> ([], b')
      | (None, b') \<Rightarrow> stream_loop ch ts b')"
| "stream_loop ch (Tick written # ts) b =
     (if written
      then (case stream_loop ch ts b of (fs, b') \<Rightarrow> (CommentFrame '': keepalive'' # fs, b'))
      else ([], b))"
| "stream_loop ch (Elsewhere ev # ts) b = stream_loop ch ts (Publish ev b)"

definition stream_headers :: "(string \<times> string) list" where
  "stream_headers =
     [(''Content-Type'', ''text/event-stream''), (''Cache-Control'', ''no-cache''),
      (''Connection'', ''keep-alive''), (''X-Accel-Buffering'', ''no'')]"

definition handleJobEvents :: "deps \<Rightarrow> calls \<Rightarrow> auth_user \<Rightarrow> auth_session \<Rightarrow> handler" where
  "handleJobEvents d c u s r w =
     (if \<not> cl_flusher c then
        (Answered (writeError 500 ''streaming_unsupported'' ''This server cannot stream events.''), w)
      else
        let q = w_queue w; ((ch, fid), b) = Subscribe (q_bus q);
            snapshot = (case Active (cl_fault c) (q\<lparr>q_bus := b\<rparr>) of
                Inl _ \<Rightarrow> []
              | Inr js \<Rightarrow> map (\<lambda>j. EventFrame ''job''
                  \<lparr>ev_job_id = job_id j, ev_kind = job_kind j, ev_state = job_st j,
                   ev_progress = job_progress j, ev_note = job_note j,
                   ev_error = job_last_error j, ev_at = job_updated_at j\<rparr>) js);
            (fs, b') = stream_loop ch (cl_turns c) b
        in (Answered (respond 200 stream_headers (StreamBody (snapshot @ fs))),
            w\<lparr>w_queue := q\<lparr>q_bus := Unsubscribe fid b'\<rparr>\<rparr>))"

subsection \<open>A stream is a subscriber\<close>

definition stream_events :: "frame list \<Rightarrow> job_event list" where
  "stream_events = List.map_filter (\<lambda>f. case f of EventFrame _ e \<Rightarrow> Some e | CommentFrame _ \<Rightarrow> None)"

definition elsewhere :: "turn list \<Rightarrow> job_event list" where
  "elsewhere = List.map_filter (\<lambda>t. case t of Elsewhere e \<Rightarrow> Some e | _ \<Rightarrow> None)"

lemma stream_simps [simp]:
  "stream_events [] = []" "stream_events (EventFrame n e # fs) = e # stream_events fs"
  "stream_events (CommentFrame c # fs) = stream_events fs"
  "elsewhere [] = []" "elsewhere (Elsewhere e # ts) = e # elsewhere ts"
  "elsewhere (NextEvent # ts) = elsewhere ts" "elsewhere (Tick x # ts) = elsewhere ts"
  "elsewhere (ClientGone # ts) = elsewhere ts"
  by (simp_all add: stream_events_def elsewhere_def map_filter_simps)

lemma stream_events_append: "stream_events (fs @ gs) = stream_events fs @ stream_events gs"
  by (induction fs) (simp_all add: stream_events_def map_filter_simps split: option.split)

lemma stream_follows:
  "stream_loop ch ts b = (fs, b') \<Longrightarrow>
   \<exists>ss. follow ch ss (b, got) = (b', got @ stream_events fs) \<and> prefix (published ss) (elsewhere ts)"
proof (induction ch ts b arbitrary: fs got rule: stream_loop.induct)
  case (3 ch ts b)
  obtain x b1 where x: "receive ch b = (x, b1)" by fastforce
  consider "x = None" | "x = Some None" | ev where "x = Some (Some ev)" by (metis option.exhaust)
  then show ?case
  proof cases
    case 1
    then obtain ss where "follow ch ss (b1, got) = (b', got @ stream_events fs)" "prefix (published ss) (elsewhere ts)"
      using 3 x by force
    then show ?thesis using x 1 by (intro exI[of _ "Recv # ss"]) simp
  next
    case 2
    then show ?thesis using 3 x by (intro exI[of _ "[Recv]"]) simp
  next
    case 3
    note ev = this
    obtain fs' where fs: "stream_loop ch ts b1 = (fs', b')" "fs = EventFrame ''job'' ev # fs'"
      using "3.prems" x ev by (auto split: prod.splits)
    then obtain ss where "follow ch ss (b1, got @ [ev]) = (b', (got @ [ev]) @ stream_events fs')"
      "prefix (published ss) (elsewhere ts)"
      using "3.IH"(2)[OF x[symmetric] ev refl fs(1), of "got @ [ev]"] by auto
    then show ?thesis using x ev fs by (intro exI[of _ "Recv # ss"]) simp
  qed
next
  case (4 ch written ts b)
  show ?case
  proof (cases written)
    case True
    then obtain fs' where fs: "stream_loop ch ts b = (fs', b')" "stream_events fs = stream_events fs'"
      using "4.prems" by (auto split: prod.splits)
    show ?thesis unfolding fs(2) stream_simps using "4.IH"[OF True fs(1)] by simp
  next
    case False
    then show ?thesis using "4.prems" by (intro exI[of _ "[]"]) simp
  qed
next
  case (5 ch ev ts b)
  then obtain ss where "follow ch ss (Publish ev b, got) = (b', got @ stream_events fs)"
    "prefix (published ss) (elsewhere ts)"
    by fastforce
  then show ?case by (intro exI[of _ "Pub ev # ss"]) simp
qed (auto intro!: exI[of _ "[]"])


lemma stream_follows_fresh:
  assumes "stream_loop ch ts b = (fs, b')" "broker_inv b" "(f, ch) \<in> set (br_subs b)"
    "ch_buf (br_heap b ! ch) = []"
  shows "broker_inv b' \<and> (f, ch) \<in> set (br_subs b') \<and> subseq (stream_events fs) (elsewhere ts) \<and>
    (length (elsewhere ts) \<le> eventBuffer \<longrightarrow> prefix (stream_events fs) (elsewhere ts))"
proof -
  obtain ss where ss: "follow ch ss (b, []) = (b', stream_events fs)" "prefix (published ss) (elsewhere ts)"
    using stream_follows[OF assms(1), of "[]"] by auto
  note fs = follow_subseq[OF assms(2,3) ss(1)]
  have "subseq (published ss) (elsewhere ts)"
    using ss(2) by (auto simp: prefix_def intro: list_emb_prefix)
  moreover have "subseq (stream_events fs) (stream_events fs @ ch_buf (br_heap b' ! ch))"
    by (intro list_emb_prefix) simp
  ultimately have "subseq (stream_events fs) (elsewhere ts)"
    using fs assms(4) subseq_order.trans by (metis append_Nil)
  moreover have "prefix (stream_events fs) (elsewhere ts)" if "length (elsewhere ts) \<le> eventBuffer"
  proof -
    have "length (published ss) \<le> eventBuffer" using that ss(2) prefix_length_le by fastforce
    then have "stream_events fs @ ch_buf (br_heap b' ! ch) = published ss"
      using follow_lossless[OF assms(2,3) ss(1)] assms(4) by simp
    then show ?thesis using ss(2) by (metis prefixI prefix_order.trans)
  qed
  ultimately show ?thesis using fs by blast
qed

lemma receive_subs: "br_subs (snd (receive ch b)) = br_subs b"
  by (simp add: receive_def split: list.split)

lemma stream_subs:
  "\<lbrakk>stream_loop ch ts b = (fs, b'); broker_inv b\<rbrakk> \<Longrightarrow> br_subs b' = br_subs b"
proof (induction ch ts b arbitrary: fs rule: stream_loop.induct)
  case (3 ch ts b)
  obtain x b1 where x: "receive ch b = (x, b1)" by fastforce
  have "broker_inv b1" "br_subs b1 = br_subs b"
    using receive_inv[OF "3.prems"(2), of ch] receive_subs[of ch b] x by simp_all
  then show ?case using 3 x by (auto split: option.splits prod.splits)
next
  case (5 ch ev ts b)
  then show ?case by (simp add: Publish_inv)
qed (auto split: if_splits prod.splits)

lemma Unsubscribe_first:
  assumes "broker_inv b" "br_subs b = (f, ch) # subs"
  shows "br_subs (Unsubscribe (Some f) b) = subs"
proof -
  have "filter (\<lambda>(g, _). g \<noteq> f) subs = subs"
    using assms by (auto simp: broker_inv_def filter_id_conv intro: rev_image_eqI)
  moreover have "\<not> ch_closed (br_heap b ! ch)" using broker_invD(3)[OF assms(1), of f ch] assms(2) by simp
  ultimately show ?thesis using assms(2) by (simp add: Unsubscribe_def close_chan_def)
qed


lemma Active_bus: "Active f (q\<lparr>q_bus := b\<rparr>) = Active f q"
  by (simp add: Active_def)

subsection \<open>Properties\<close>

text \<open>C16. A client that opens the event stream first gets one event for every active job and then only
  events published after it subscribed, in order and none twice; if at most 32 were published it
  missed none that was published before the last one it got. When it leaves, its subscription is
  gone, nobody else's is, nothing has panicked and no job has changed.\<close>

theorem event_stream_follows_the_queue:
  assumes "broker_inv (q_bus (w_queue w))" "\<not> br_closed (q_bus (w_queue w))" "cl_flusher c"
    and "handleJobEvents d c u s r w = (a, w')"
  shows "\<exists>snap fs resp. a = Answered resp \<and> rs_status resp = 200 \<and> rs_body resp = StreamBody (snap @ fs) \<and>
    (\<forall>js. Active (cl_fault c) (w_queue w) = Inr js \<longrightarrow> stream_events snap = map eventFor js) \<and>
    subseq (stream_events fs) (elsewhere (cl_turns c)) \<and>
    (length (elsewhere (cl_turns c)) \<le> 32 \<longrightarrow> prefix (stream_events fs) (elsewhere (cl_turns c))) \<and>
    br_subs (q_bus (w_queue w')) = br_subs (q_bus (w_queue w)) \<and> broker_inv (q_bus (w_queue w')) \<and>
    q_table (w_queue w') = q_table (w_queue w) \<and> w_auth w' = w_auth w"
proof -
  let ?b = "q_bus (w_queue w)"
  obtain ch b where sub: "Subscribe ?b = ((ch, Some (br_next ?b)), b)"
    "br_subs b = (br_next ?b, ch) # br_subs ?b"
    using assms(2) by (simp add: Subscribe_def Let_def)
  obtain fs b' where loop: "stream_loop ch (cl_turns c) b = (fs, b')" by fastforce
  note fresh = Subscribe_fresh[OF assms(1) sub(1)]
  note follows = stream_follows_fresh[OF loop, of "br_next ?b"]
  have subs: "br_subs b' = (br_next ?b, ch) # br_subs ?b"
    using stream_subs[OF loop] fresh sub(2) by simp
  have snap: "stream_events (map (\<lambda>j. EventFrame ''job'' (eventFor j)) js) = map eventFor js" for js
    by (induction js) simp_all
  let ?snap = "case Active (cl_fault c) (w_queue w) of Inl _ \<Rightarrow> []
      | Inr js \<Rightarrow> map (\<lambda>j. EventFrame ''job'' (eventFor j)) js"
  have "a = Answered (respond 200 stream_headers (StreamBody (?snap @ fs)))"
    "w' = w\<lparr>w_queue := w_queue w\<lparr>q_bus := Unsubscribe (Some (br_next ?b)) b'\<rparr>\<rparr>"
    using assms(3,4) sub(1) loop
    by (simp_all add: handleJobEvents_def Let_def Active_bus eventFor_def[symmetric] cong del: sum.case_cong_weak)
  moreover have "\<forall>js. Active (cl_fault c) (w_queue w) = Inr js \<longrightarrow> stream_events ?snap = map eventFor js"
    by (simp add: snap)
  ultimately show ?thesis
    using follows fresh Unsubscribe_first[OF _ subs] Unsubscribe_inv[of b' "Some (br_next ?b)"]
    by (intro exI[of _ ?snap] exI[of _ fs] exI[of _ "respond 200 stream_headers (StreamBody (?snap @ fs))"])
      (simp add: eventBuffer_def)
qed


lemma event_stream_follows_the_queue_witness:
  "\<exists>fs resp. fst (handleJobEvents (demo_deps Default) demo_calls (userFromRow demo_user)
      (sessionFromRow demo_session) (demo_request ''GET'' ''/api/v1/jobs/events'' []) (demo_world [] [demo_row]))
      = Answered resp \<and> rs_body resp = StreamBody fs \<and>
    stream_events fs = [eventFor (fromRow demo_row)]"
proof -
  let ?w = "demo_world [] [demo_row]"
  obtain a w' where h: "handleJobEvents (demo_deps Default) demo_calls (userFromRow demo_user)
      (sessionFromRow demo_session) (demo_request ''GET'' ''/api/v1/jobs/events'' []) ?w = (a, w')"
    by fastforce
  have pre: "broker_inv (q_bus (w_queue ?w))" "\<not> br_closed (q_bus (w_queue ?w))" "cl_flusher demo_calls"
    by (simp_all add: broker_inv_New) (simp add: NewBroker_def)
  have act: "Active None (NewQueue [demo_row]) = Inr [fromRow demo_row]"
    by (simp add: Active_def ListActiveJobs_def pending_def demo_sel)
  obtain snap fs resp where s: "a = Answered resp" "rs_body resp = StreamBody (snap @ fs)"
    "stream_events snap = [eventFor (fromRow demo_row)]" "subseq (stream_events fs) []"
    using event_stream_follows_the_queue[OF pre h] act by auto
  then have "stream_events (snap @ fs) = [eventFor (fromRow demo_row)]"
    by (simp add: stream_events_append)
  then show ?thesis using h s by auto
qed

end
