(* ===== verification/EventText.thy ===== *)
theory EventText
  imports JobStream
begin

text \<open>
  The bytes of the event stream: \<open>writeSSE\<close> of \<open>internal/api/handlers.go\<close> with what \<open>json.Marshal\<close> makes
  of an event, and a client that reads them back by the rules of the HTML standard. How Go prints a
  floating point number and a time is a parameter.
\<close>

subsection \<open>Strings in JSON\<close>

definition bslash :: char where "bslash = char_of (92 :: nat)"
definition dquote :: char where "dquote = char_of (34 :: nat)"
definition newline :: char where "newline = char_of (10 :: nat)"
definition creturn :: char where "creturn = char_of (13 :: nat)"

definition json_ascii :: "char \<Rightarrow> string" where
  "json_ascii c =
     (let n = of_char c :: nat in
      if 32 \<le> n \<and> n \<notin> {34, 38, 60, 62, 92} then [c]
      else if n \<in> {34, 92} then [bslash, c]
      else case map_of [(8, CHR ''b''), (12, CHR ''f''), (10, CHR ''n''), (13, CHR ''r''), (9, CHR ''t'')] n of
        Some e \<Rightarrow> [bslash, e]
      | None \<Rightarrow> bslash # ''u00'' @ [hex_digit (n div 16), hex_digit n])"

text \<open>Bytes that are no UTF-8 become U+FFFD; the two line separators of Unicode are escaped as well.\<close>

definition line_separators :: "string set" where
  "line_separators = {map char_of [226 :: nat, 128, 168], map char_of [226 :: nat, 128, 169]}"

function json_chars :: "string \<Rightarrow> string" where
  "json_chars s =
     (if s = [] then []
      else let n = rune_len s; rest = json_chars (drop n s) in
        if of_char (hd s) < (128 :: nat) then json_ascii (hd s) @ rest
        else if n = 1 then bslash # ''ufffd'' @ rest
        else if take n s \<in> line_separators then bslash # ''u202'' @ [hex_digit (of_char (s ! 2))] @ rest
        else take n s @ rest)"
  by pat_completeness auto
termination
  by (relation "measure length") (auto simp: rune_len_def Let_def)

declare json_chars.simps [simp del]

definition json_string :: "string \<Rightarrow> string" where
  "json_string s = dquote # json_chars s @ [dquote]"

subsection \<open>Events on the wire\<close>

definition json_member :: "string \<Rightarrow> string \<Rightarrow> string" where
  "json_member name value = json_string name @ CHR '':'' # value"

text \<open>A progress that is no number, and a time that has no text, make \<open>Marshal\<close> fail.\<close>

definition event_json :: "(rat \<Rightarrow> string) \<Rightarrow> (gotime \<Rightarrow> string option) \<Rightarrow> job_event \<Rightarrow> string option" where
  "event_json num tm ev =
     (case (ev_progress ev, tm (ev_at ev)) of
        (Fin x, Some t) \<Rightarrow> Some (''{'' @ join_with '',''
          ([json_member ''jobId'' (json_string (ev_job_id ev)),
            json_member ''kind'' (json_string (ev_kind ev)),
            json_member ''state'' (json_string (state_text (ev_state ev))),
            json_member ''progress'' (num x)] @
           (if ev_note ev = [] then [] else [json_member ''note'' (json_string (ev_note ev))]) @
           (if ev_error ev = [] then [] else [json_member ''error'' (json_string (ev_error ev))]) @
           [json_member ''at'' (dquote # t @ [dquote])]) @ ''}'')
      | _ \<Rightarrow> None)"

definition writeSSE :: "(rat \<Rightarrow> string) \<Rightarrow> (gotime \<Rightarrow> string option) \<Rightarrow> string \<Rightarrow> job_event \<Rightarrow> string" where
  "writeSSE num tm event payload =
     (case event_json num tm payload of
        None \<Rightarrow> []
      | Some data \<Rightarrow> ''event: '' @ event @ [newline] @ ''data: '' @ data @ [newline, newline])"

fun frame_text :: "(rat \<Rightarrow> string) \<Rightarrow> (gotime \<Rightarrow> string option) \<Rightarrow> frame \<Rightarrow> string" where
  "frame_text num tm (EventFrame event payload) = writeSSE num tm event payload"
| "frame_text num tm (CommentFrame comment) = comment @ [newline, newline]"

definition stream_text :: "(rat \<Rightarrow> string) \<Rightarrow> (gotime \<Rightarrow> string option) \<Rightarrow> frame list \<Rightarrow> string" where
  "stream_text num tm fs = concat (map (frame_text num tm) fs)"

subsection \<open>A client\<close>

text \<open>
  The HTML standard's reading of an event stream: lines end with a line feed, a carriage return or
  both; an empty line dispatches what has been gathered; an unfinished line is dropped.
\<close>

function sse_lines :: "string \<Rightarrow> string \<Rightarrow> string list" where
  "sse_lines acc [] = []"
| "sse_lines acc (x # xs) =
     (if x = newline then rev acc # sse_lines [] xs
      else if x = creturn then
        rev acc # sse_lines [] (case xs of [] \<Rightarrow> [] | y # ys \<Rightarrow> if y = newline then ys else xs)
      else sse_lines (x # acc) xs)"
  by pat_completeness auto
termination
  by (relation "measure (\<lambda>(_, xs). length xs)") (auto split: list.split)

definition sse_field :: "string \<Rightarrow> string \<times> string" where
  "sse_field l =
     (let v = drop 1 (dropWhile (\<lambda>c. c \<noteq> CHR '':'') l)
      in (takeWhile (\<lambda>c. c \<noteq> CHR '':'') l, if prefix '' '' v then tl v else v))"

fun sse_run :: "string \<Rightarrow> string \<Rightarrow> string list \<Rightarrow> (string \<times> string) list" where
  "sse_run event data [] = []"
| "sse_run event data (l # ls) =
     (if l = [] then
        if data = [] then sse_run [] [] ls
        else (if event = [] then ''message'' else event, butlast data) # sse_run [] [] ls
      else case sse_field l of (f, v) \<Rightarrow>
        if f = ''event'' then sse_run v data ls
        else if f = ''data'' then sse_run event (data @ v @ [newline]) ls
        else sse_run event data ls)"

definition sse_events :: "string \<Rightarrow> (string \<times> string) list" where
  "sse_events s = sse_run [] [] (sse_lines [] s)"

subsection \<open>What is written is what is read\<close>

definition one_line :: "string \<Rightarrow> bool" where
  "one_line s \<longleftrightarrow> newline \<notin> set s \<and> creturn \<notin> set s"

lemma one_line_simps [simp]:
  "one_line []" "one_line (c # s) \<longleftrightarrow> c \<noteq> newline \<and> c \<noteq> creturn \<and> one_line s"
  "one_line (s @ t) \<longleftrightarrow> one_line s \<and> one_line t"
  by (auto simp: one_line_def)

lemma control_chars:
  "bslash \<noteq> newline" "bslash \<noteq> creturn" "dquote \<noteq> newline" "dquote \<noteq> creturn" "creturn \<noteq> newline"
  "of_char newline = (10 :: nat)" "of_char creturn = (13 :: nat)" "\<not> is_hex newline" "\<not> is_hex creturn"
  by (code_simp)+

lemma hex_digit_line: "hex_digit n \<noteq> newline" "hex_digit n \<noteq> creturn"
  using hex_digit_is_hex[of n] control_chars by metis+

lemma literal_line:
  "CHR ''b'' \<noteq> newline" "CHR ''f'' \<noteq> newline" "CHR ''n'' \<noteq> newline" "CHR ''r'' \<noteq> newline" "CHR ''t'' \<noteq> newline"
  "CHR ''u'' \<noteq> newline" "CHR ''0'' \<noteq> newline" "CHR ''2'' \<noteq> newline" "CHR ''d'' \<noteq> newline"
  "CHR ''b'' \<noteq> creturn" "CHR ''f'' \<noteq> creturn" "CHR ''n'' \<noteq> creturn" "CHR ''r'' \<noteq> creturn" "CHR ''t'' \<noteq> creturn"
  "CHR ''u'' \<noteq> creturn" "CHR ''0'' \<noteq> creturn" "CHR ''2'' \<noteq> creturn" "CHR ''d'' \<noteq> creturn"
  by (code_simp)+

lemma printable_line: "32 \<le> (of_char c :: nat) \<Longrightarrow> c \<noteq> newline \<and> c \<noteq> creturn"
  using control_chars by auto

lemma json_ascii_line: "one_line (json_ascii c)"
  by (auto simp: json_ascii_def Let_def control_chars hex_digit_line literal_line dest: printable_line)

lemma rune_bytes:
  assumes "1 < rune_len s" "c \<in> set (take (rune_len s) s)"
  shows "128 \<le> (of_char c :: nat)"
proof -
  define ok where "ok = (\<lambda>i lo hi. i < length s \<and> in_byte lo hi (s ! i))"
  define high where "high = (\<lambda>i. 128 \<le> (of_char (s ! i) :: nat))"
  have h: "ok i lo hi \<Longrightarrow> 128 \<le> lo \<Longrightarrow> high i" for i lo hi by (simp add: ok_def high_def in_byte_def)
  define A where "A \<longleftrightarrow> ok 0 194 223 \<and> ok 1 128 191"
  define B where "B \<longleftrightarrow> (ok 0 224 224 \<and> ok 1 160 191 \<or> ok 0 225 236 \<and> ok 1 128 191 \<or>
    ok 0 237 237 \<and> ok 1 128 159 \<or> ok 0 238 239 \<and> ok 1 128 191) \<and> ok 2 128 191"
  define C where "C \<longleftrightarrow> (ok 0 240 240 \<and> ok 1 144 191 \<or> ok 0 241 243 \<and> ok 1 128 191 \<or>
    ok 0 244 244 \<and> ok 1 128 143) \<and> ok 2 128 191 \<and> ok 3 128 191"
  have r: "rune_len s = (if A then 2 else if B then 3 else if C then 4 else 1)"
    unfolding rune_len_def Let_def ok_def A_def B_def C_def by (rule refl)
  have "A \<Longrightarrow> high 0 \<and> high 1" "B \<Longrightarrow> high 0 \<and> high 1 \<and> high 2" "C \<Longrightarrow> high 0 \<and> high 1 \<and> high 2 \<and> high 3"
    unfolding A_def B_def C_def using h by fastforce+
  then have "\<forall>i < rune_len s. high i"
    using assms(1) r by (auto simp: less_Suc_eq numeral_eq_Suc split: if_splits)
  moreover obtain i where "i < rune_len s" "c = s ! i"
    using assms(2) by (auto simp: in_set_conv_nth)
  ultimately show ?thesis by (simp add: high_def)
qed

lemma json_chars_line: "one_line (json_chars s)"
proof (induction s rule: json_chars.induct)
  case (1 s)
  have high: "one_line (take (rune_len s) s)" if "1 < rune_len s"
    using rune_bytes[OF that] control_chars unfolding one_line_def by fastforce
  show ?case
  proof (cases "s = []")
    case True
    then show ?thesis by (simp add: json_chars.simps)
  next
    case False
    then have "one_line (json_chars (drop (rune_len s) s))" using 1 by simp
    moreover have "1 < rune_len s \<or> rune_len s = 1" using rune_len_pos[of s] by linarith
    ultimately show ?thesis
      by (subst json_chars.simps)
        (use False high in \<open>auto simp: Let_def json_ascii_line control_chars hex_digit_line literal_line\<close>)
  qed
qed

lemma literal_lines:
  "list_all one_line [''{'', ''}'', '','', '':'', ''jobId'', ''kind'', ''state'', ''progress'', ''note'', ''error'', ''at'',
     ''event: '', ''data: '', ''event: job'', '': keepalive'']"
  by code_simp

lemma json_string_line: "one_line (json_string s)"
  by (simp add: json_string_def json_chars_line control_chars)

lemma json_member_line: "one_line v \<Longrightarrow> one_line (json_member n v)"
  using literal_lines by (simp add: json_member_def json_string_line)

lemma join_line: "one_line sep \<Longrightarrow> list_all one_line xs \<Longrightarrow> one_line (join_with sep xs)"
  by (induction sep xs rule: join_with.induct) simp_all

lemma event_json_line:
  assumes "event_json num tm ev = Some d" "\<And>x. one_line (num x)" "\<And>t s. tm t = Some s \<Longrightarrow> one_line s"
  shows "one_line d"
  using assms(1) literal_lines
  by (auto simp: event_json_def json_member_line json_string_line assms(2) assms(3) control_chars
      intro!: join_line split: gofloat.splits option.splits)

lemma lines_step: "one_line l \<Longrightarrow> sse_lines acc (l @ newline # s) = (rev acc @ l) # sse_lines [] s"
  by (induction l arbitrary: acc) simp_all

lemma field_event: "sse_field (''event: '' @ n) = (''event'', n)" "sse_field (''data: '' @ n) = (''data'', n)"
  by (simp_all add: sse_field_def)

definition frame_ok :: "frame \<Rightarrow> bool" where
  "frame_ok f \<longleftrightarrow> (case f of EventFrame n _ \<Rightarrow> n = ''job'' | CommentFrame c \<Rightarrow> one_line c \<and> prefix '':'' c)"

definition frame_event :: "(rat \<Rightarrow> string) \<Rightarrow> (gotime \<Rightarrow> string option) \<Rightarrow> frame \<Rightarrow> (string \<times> string) list" where
  "frame_event num tm f = (case f of
     EventFrame n ev \<Rightarrow> (case event_json num tm ev of None \<Rightarrow> [] | Some d \<Rightarrow> [(n, d)])
   | CommentFrame _ \<Rightarrow> [])"

lemma event_lines:
  assumes "one_line n" "one_line d"
  shows "sse_lines [] ((''event: '' @ n @ [newline] @ ''data: '' @ d @ [newline, newline]) @ s) =
    (''event: '' @ n) # (''data: '' @ d) # [] # sse_lines [] s"
proof -
  have l: "one_line (''event: '' @ n)" "one_line (''data: '' @ d)" using assms literal_lines by simp_all
  have "(''event: '' @ n @ [newline] @ ''data: '' @ d @ [newline, newline]) @ s =
      (''event: '' @ n) @ newline # (''data: '' @ d) @ newline # [] @ newline # s" by simp
  then show ?thesis using lines_step[OF l(1)] lines_step[OF l(2)] lines_step[of "[]"] by simp
qed

lemma read_frame:
  assumes "frame_ok f" "\<And>x. one_line (num x)" "\<And>t s. tm t = Some s \<Longrightarrow> one_line s"
  shows "sse_run [] [] (sse_lines [] (frame_text num tm f @ s)) =
    frame_event num tm f @ sse_run [] [] (sse_lines [] s)"
proof (cases f)
  case (EventFrame n ev)
  then show ?thesis
  proof (cases "event_json num tm ev")
    case (Some d)
    have "one_line d" using event_json_line[OF Some assms(2,3)] .
    then show ?thesis
      using assms(1) EventFrame Some event_lines[of n d s]
      by (simp add: frame_ok_def frame_event_def writeSSE_def field_event literal_lines[simplified]
        del: append.simps(2) append_assoc)
  qed (simp add: frame_event_def writeSSE_def)
next
  case (CommentFrame c)
  then have c: "one_line c" "prefix '':'' c" using assms(1) by (simp_all add: frame_ok_def)
  have "sse_lines [] (frame_text num tm f @ s) = c # [] # sse_lines [] s"
    using CommentFrame lines_step[OF c(1), of "[]" "newline # s"] by simp
  moreover obtain v where "sse_field c = ([], v)" "c \<noteq> []" using c(2) by (auto simp: sse_field_def prefix_def Let_def)
  ultimately show ?thesis using CommentFrame by (simp add: frame_event_def)
qed

lemma read_stream:
  assumes "list_all frame_ok fs" "\<And>x. one_line (num x)" "\<And>t s. tm t = Some s \<Longrightarrow> one_line s"
  shows "sse_events (stream_text num tm fs) = concat (map (frame_event num tm) fs)"
  using assms(1) by (induction fs) (simp_all add: sse_events_def stream_text_def read_frame assms(2,3))

lemma stream_loop_frames: "list_all frame_ok (fst (stream_loop ch ts b))"
  using literal_lines
  by (induction ch ts b rule: stream_loop.induct)
    (auto simp: frame_ok_def split: prod.splits option.splits)

lemma snapshot_frames: "list_all frame_ok (map (\<lambda>j. EventFrame ''job'' (f j)) js)"
  by (induction js) (simp_all add: frame_ok_def)

lemma frame_events:
  "list_all frame_ok fs \<Longrightarrow> concat (map (frame_event num tm) fs) =
   map (\<lambda>d. (''job'', d)) (List.map_filter (event_json num tm) (stream_events fs))"
  by (induction fs)
    (auto simp: frame_ok_def frame_event_def map_filter_simps split: frame.splits option.splits)

text \<open>C17. Whatever text the jobs' notes and errors hold, line breaks and forged fields included, a
  client that reads the bytes of an event stream by the standard gets exactly the events the server
  wrote, in order, each with the JSON text it was written with.\<close>

theorem notes_cannot_forge_events:
  assumes "handleJobEvents d c u s r w = (Answered a, w')" "rs_body a = StreamBody fs"
    and "\<And>x. one_line (num x)" "\<And>t l. tm t = Some l \<Longrightarrow> one_line l"
  shows "sse_events (stream_text num tm fs) =
    map (\<lambda>d. (''job'', d)) (List.map_filter (event_json num tm) (stream_events fs))"
proof -
  have "list_all frame_ok fs"
    using assms(1,2) stream_loop_frames
    by (auto simp: handleJobEvents_def Let_def snapshot_frames writeError_def writeJSON_def
        split: if_splits prod.splits sum.splits) (metis fst_conv)+
  then show ?thesis by (simp add: read_stream[OF _ assms(3,4)] frame_events)
qed

definition forged_note :: string where
  "forged_note = [newline, newline] @ ''event: job'' @ [newline] @ ''data: {}'' @ [newline, newline]"

lemma notes_cannot_forge_events_witness:
  "\<exists>a w' fs t. handleJobEvents (demo_deps Default) demo_calls (userFromRow demo_user) (sessionFromRow demo_session)
     (demo_request ''GET'' ''/api/v1/jobs/events'' []) (demo_world [] [demo_row\<lparr>jr_progress_note := forged_note\<rparr>]) = (Answered a, w') \<and>
     rs_body a = StreamBody fs \<and> sse_events (stream_text (\<lambda>_. ''0'') (\<lambda>_. Some ''1970-01-01T00:00:00Z'') fs) = [(''job'', t)]"
proof -
  let ?row = "demo_row\<lparr>jr_progress_note := forged_note\<rparr>"
  let ?w = "demo_world [] [?row]"
  obtain ch fid and b :: "job_event broker" where b: "Subscribe NewBroker = ((ch, fid), b)" by (metis surj_pair)
  have "Active None (NewQueue [?row]) = Inr [fromRow ?row]"
    by (simp add: Active_def ListActiveJobs_def pending_def demo_sel)
  then obtain a w' where h: "handleJobEvents (demo_deps Default) demo_calls (userFromRow demo_user) (sessionFromRow demo_session)
     (demo_request ''GET'' ''/api/v1/jobs/events'' []) ?w = (Answered a, w')" and
    fs: "rs_body a = StreamBody [EventFrame ''job'' (eventFor (fromRow ?row))]"
    using b by (simp add: handleJobEvents_def Let_def Active_bus eventFor_def)
  have one: "one_line ''0''" "one_line ''1970-01-01T00:00:00Z''" by code_simp+
  have "sse_events (stream_text (\<lambda>_. ''0'') (\<lambda>_. Some ''1970-01-01T00:00:00Z'') [EventFrame ''job'' (eventFor (fromRow ?row))]) =
      map (\<lambda>d. (''job'', d)) (List.map_filter (event_json (\<lambda>_. ''0'') (\<lambda>_. Some ''1970-01-01T00:00:00Z''))
        [eventFor (fromRow ?row)])"
    using notes_cannot_forge_events[OF h fs, of "\<lambda>_. ''0''" "\<lambda>_. Some ''1970-01-01T00:00:00Z''"] one
    by (simp del: one_line_simps)
  moreover obtain t where "event_json (\<lambda>_. ''0'') (\<lambda>_. Some ''1970-01-01T00:00:00Z'') (eventFor (fromRow ?row)) = Some t"
    by (auto simp: event_json_def eventFor_def demo_row_def)
  ultimately show ?thesis using h fs by (auto simp: map_filter_simps)
qed

end
