(* ===== verification/Routes.thy ===== *)
theory Routes
  imports JobStream
begin

text \<open>
  \<open>Server.routes\<close> of \<open>internal/api/api.go\<close>: the endpoints with their methods and patterns, and the
  middleware every request goes through. The router, \<open>go-chi/chi\<close>, is a third-party package and a
  parameter: \<open>ch_mount\<close> says whether a request goes below the \<open>/api/v1\<close> mount, to the fallback of
  the root, or gets an answer of the router's own (for a method it does not know), and
  \<open>ch_match\<close> which of the patterns a request below the mount matches, with the path parameter.
  What is relied on is \<open>router_ok\<close>: a pattern is matched under its own method. The middlewares
  \<open>RequestID\<close>, \<open>Compress\<close> and \<open>Timeout\<close> of chi neither touch the state nor choose an answer; the
  cancelled context of a timeout shows as failing statements and as \<open>ClientGone\<close>.
\<close>

datatype endpoint =
    Health | SetupStatus | DoSetup | DoLogin | DoLogout
  | Me | SetPassword | Instance | ListJobsE | JobEvents | GetJobE | CancelJobE

type_synonym route = "string \<times> string \<times> endpoint"

definition open_routes :: "route list" where
  "open_routes =
     [(''GET'', ''/health'', Health),
      (''GET'', ''/setup'', SetupStatus),
      (''POST'', ''/setup'', DoSetup),
      (''POST'', ''/auth/login'', DoLogin),
      (''POST'', ''/auth/logout'', DoLogout)]"

definition guarded_routes :: "route list" where
  "guarded_routes =
     [(''GET'', ''/auth/me'', Me),
      (''POST'', ''/auth/password'', SetPassword),
      (''GET'', ''/instance'', Instance),
      (''GET'', ''/jobs'', ListJobsE),
      (''GET'', ''/jobs/events'', JobEvents),
      (''GET'', ''/jobs/{jobID}'', GetJobE),
      (''POST'', ''/jobs/{jobID}/cancel'', CancelJobE)]"

definition routes :: "route list" where
  "routes = open_routes @ guarded_routes"

datatype mounted = InApi | InApp | RouterAnswer answer

datatype matched = Route nat string | NoRoute | WrongMethod

record chi =
  ch_mount :: "string \<Rightarrow> string \<Rightarrow> string \<Rightarrow> mounted"
  ch_match :: "(string \<times> string) list \<Rightarrow> string \<Rightarrow> string \<Rightarrow> string \<Rightarrow> matched"

definition router_ok :: "chi \<Rightarrow> bool" where
  "router_ok chi \<longleftrightarrow> (\<forall>ps m p raw i v. ch_match chi ps m p raw = Route i v \<longrightarrow> i < length ps \<and> fst (ps ! i) = m)"

definition patterns :: "(string \<times> string) list" where
  "patterns = map (\<lambda>(m, p, _). (m, p)) routes"

text \<open>The matched endpoint, and whether it stands in the group behind \<open>requireUser\<close>.\<close>

definition endpoint_at :: "nat \<Rightarrow> endpoint" where
  "endpoint_at i = snd (snd (routes ! i))"

definition guarded :: "nat \<Rightarrow> bool" where
  "guarded i \<longleftrightarrow> length open_routes \<le> i"

definition open_endpoint :: "deps \<Rightarrow> calls \<Rightarrow> endpoint \<Rightarrow> handler" where
  "open_endpoint d c e =
     (case e of
        Health \<Rightarrow> handleHealth d c
      | SetupStatus \<Rightarrow> handleSetupStatus d c
      | DoSetup \<Rightarrow> handleSetup d c
      | DoLogin \<Rightarrow> handleLogin d c
      | _ \<Rightarrow> handleLogout d c)"

definition user_endpoint :: "deps \<Rightarrow> calls \<Rightarrow> string \<Rightarrow> endpoint \<Rightarrow> auth_user \<Rightarrow> auth_session \<Rightarrow> handler" where
  "user_endpoint d c v e =
     (case e of
        SetPassword \<Rightarrow> handleChangePassword d c
      | Instance \<Rightarrow> handleInstance d c
      | ListJobsE \<Rightarrow> handleListJobs d c
      | JobEvents \<Rightarrow> handleJobEvents d c
      | GetJobE \<Rightarrow> handleGetJob d c v
      | CancelJobE \<Rightarrow> handleCancelJob d c v
      | _ \<Rightarrow> handleMe)"

definition not_found :: answer where
  "not_found = writeError 404 ''not_found'' ''No such endpoint.''"

definition method_not_allowed :: answer where
  "method_not_allowed =
     writeError 405 ''method_not_allowed'' ''That method is not allowed on this endpoint.''"

text \<open>
  An endpoint under the panics of \<open>calls\<close>. What it changed before it panicked stays changed; a stream
  has begun its answer before it waits for the first event.
\<close>

definition begun :: "answer \<Rightarrow> answer option" where
  "begun a = (case rs_body a of StreamBody _ \<Rightarrow> Some a | _ \<Rightarrow> None)"

definition panicking :: "panic_point \<Rightarrow> handler \<Rightarrow> handler" where
  "panicking p h r w =
     (case p of
        NoPanic \<Rightarrow> h r w
      | PanicsFirst \<Rightarrow> (Panicked_with None, w)
      | PanicsUnwritten \<Rightarrow>
          (case h r w of (Answered a, w') \<Rightarrow> (Panicked_with (begun a), w') | res \<Rightarrow> res)
      | PanicsWritten \<Rightarrow>
          (case h r w of (Answered a, w') \<Rightarrow> (Panicked_with (Some a), w') | res \<Rightarrow> res))"

definition api_router :: "deps \<Rightarrow> calls \<Rightarrow> chi \<Rightarrow> handler" where
  "api_router d c chi r w =
     (case ch_match chi patterns (rq_method r) (rq_path r) (rq_raw_path r) of
        NoRoute \<Rightarrow> (Answered not_found, w)
      | WrongMethod \<Rightarrow> (Answered method_not_allowed, w)
      | Route i v \<Rightarrow>
          if guarded i
          then requireUser d (cl_session c)
            (\<lambda>u s. panicking (cl_panic c) (user_endpoint d c v (endpoint_at i) u s)) r w
          else panicking (cl_panic c) (open_endpoint d c (endpoint_at i)) r w)"

definition frontend :: "site \<Rightarrow> handler" where
  "frontend embedded r w =
     (case Handler embedded (rq_path r) of
        p \<Rightarrow> (Answered \<lparr>rs_status = rs_status p, rs_headers = rs_headers p, rs_cookies = rs_cookies p,
                 rs_body = PageBody (rs_body p)\<rparr>, w))"

definition root_router :: "deps \<Rightarrow> calls \<Rightarrow> chi \<Rightarrow> site \<Rightarrow> handler" where
  "root_router d c chi embedded r w =
     (case ch_mount chi (rq_method r) (rq_path r) (rq_raw_path r) of
        InApi \<Rightarrow> checkOrigin d (api_router d c chi) r w
      | InApp \<Rightarrow> panicking (cl_panic c) (frontend embedded) r w
      | RouterAnswer a \<Rightarrow> (Answered a, w))"

definition serve :: "deps \<Rightarrow> calls \<Rightarrow> chi \<Rightarrow> site \<Rightarrow> handler" where
  "serve d c chi embedded = realIP d (logRequests (recoverPanics (root_router d c chi embedded)))"

lemma panicking_world: "snd (panicking p h r w) = w \<or> snd (panicking p h r w) = snd (h r w)"
  unfolding panicking_def by (simp split: panic_point.split prod.split outcome.split)

end
