(* ===== verification/Contract.thy ===== *)
theory Contract
  imports Routes
begin

text \<open>
  What the HTTP layer needs from the services it calls, as a locale: a relation between the account
  tables before and after a call and one between the queues, kept by every operation of
  \<open>auth.Service\<close>, \<open>jobs.Queue\<close> and \<open>jobs.Broker\<close> that a handler uses. Whatever the relations, every
  request then keeps them. It is interpreted here with the invariants of the two services, and in
  \<open>Instance\<close> with what no request takes away: an account, and a job's place outside the queue.
\<close>

subsection \<open>What each handler does to the tables\<close>

lemma handleSetup_world:
  "snd (handleSetup d c r w) = w \<or> (\<exists>em p n a.
     a = snd (Setup (dp_argon d) (dp_parse d) (cl_setup c) em p n (w_auth w)) \<and>
     (snd (handleSetup d c r w) = w\<lparr>w_auth := a\<rparr> \<or>
      snd (handleSetup d c r w) = w\<lparr>w_auth := snd (Login (dp_argon d) (dp_ttl d) (dp_dummy d) (cl_login c) em p
         (header r ''User-Agent'') (rq_remote r) a)\<rparr>))"
proof (cases "decodeJSON [''email'', ''password'', ''displayName''] (rq_body r)")
  case (Some req)
  let ?S = "Setup (dp_argon d) (dp_parse d) (cl_setup c) (req ''email'') (req ''password'')
     (req ''displayName'') (w_auth w)"
  have "snd (handleSetup d c r w) = w\<lparr>w_auth := snd ?S\<rparr> \<or>
     snd (handleSetup d c r w) = w\<lparr>w_auth := snd (Login (dp_argon d) (dp_ttl d) (dp_dummy d) (cl_login c)
       (req ''email'') (req ''password'') (header r ''User-Agent'') (rq_remote r) (snd ?S))\<rparr>"
    unfolding handleSetup_def Some by (simp split: sum.split auth_error.split prod.split)
  then show ?thesis by blast
qed (simp add: handleSetup_def)

lemma handleLogin_world:
  "snd (handleLogin d c r w) = w \<or> (\<exists>em p. snd (handleLogin d c r w) =
     w\<lparr>w_auth := snd (Login (dp_argon d) (dp_ttl d) (dp_dummy d) (cl_login c) em p
         (header r ''User-Agent'') (rq_remote r) (w_auth w))\<rparr>)"
proof (cases "decodeJSON [''email'', ''password''] (rq_body r)")
  case (Some req)
  have "snd (handleLogin d c r w) = w\<lparr>w_auth := snd (Login (dp_argon d) (dp_ttl d) (dp_dummy d) (cl_login c)
       (req ''email'') (req ''password'') (header r ''User-Agent'') (rq_remote r) (w_auth w))\<rparr>"
    unfolding handleLogin_def Some by (simp split: sum.split auth_error.split prod.split)
  then show ?thesis by blast
qed (simp add: handleLogin_def)

lemma handleLogout_world:
  "snd (handleLogout d c r w) = w\<lparr>w_auth := (if sessionTokenFrom r = [] then w_auth w
     else snd (Logout (cl_session c) (sessionTokenFrom r) (w_auth w)))\<rparr>"
  unfolding handleLogout_def Let_def by (simp split: prod.split)

lemma handleChangePassword_world:
  "snd (handleChangePassword d c u s r w) = w \<or> (\<exists>cur new. snd (handleChangePassword d c u s r w) =
     w\<lparr>w_auth := snd (ChangePassword (dp_argon d) (cl_login c) (cl_begin_fails c) (cl_commit_fails c)
       (au_id u) cur new (w_auth w))\<rparr>)"
proof (cases "decodeJSON [''currentPassword'', ''newPassword''] (rq_body r)")
  case (Some req)
  have "snd (handleChangePassword d c u s r w) = w\<lparr>w_auth := snd (ChangePassword (dp_argon d) (cl_login c)
       (cl_begin_fails c) (cl_commit_fails c) (au_id u) (req ''currentPassword'') (req ''newPassword'') (w_auth w))\<rparr>"
    unfolding handleChangePassword_def Some by (simp split: option.split auth_error.split prod.split)
  then show ?thesis by blast
qed (simp add: handleChangePassword_def)

lemma handleCancelJob_world:
  "snd (handleCancelJob d c v u s r w) = w\<lparr>w_queue := snd (Cancel (cl_job c) v (w_queue w))\<rparr>"
  unfolding handleCancelJob_def by (simp split: option.split queue_error.split prod.split)

lemma readers_world [simp]:
  "snd (handleHealth d c r w) = w" "snd (handleSetupStatus d c r w) = w" "snd (handleMe u s r w) = w"
  "snd (handleInstance d c u s r w) = w" "snd (handleListJobs d c u s r w) = w"
  "snd (handleGetJob d c v u s r w) = w"
  by (simp_all add: handleHealth_def handleSetupStatus_def handleMe_def handleInstance_def handleListJobs_def
      handleGetJob_def Let_def split: option.split sum.split queue_error.split)

lemma requireUser_world:
  "w_auth (snd (requireUser d env h r w)) = snd (Authenticate (dp_ttl d) env (sessionTokenFrom r) (w_auth w)) \<and>
     w_queue (snd (requireUser d env h r w)) = w_queue w \<or>
   (\<exists>u s. requireUser d env h r w =
     h u s r (w\<lparr>w_auth := snd (Authenticate (dp_ttl d) env (sessionTokenFrom r) (w_auth w))\<rparr>))"
  unfolding requireUser_def Let_def by (auto split: prod.split sum.split auth_error.split)

lemma middleware_world:
  "w_auth (snd (logRequests h r w)) = w_auth (snd (h r w))" "w_queue (snd (logRequests h r w)) = w_queue (snd (h r w))"
  "snd (recoverPanics h r w) = snd (h r w)"
  by (simp_all add: logRequests_def recoverPanics_def split: prod.split outcome.split option.split)

lemma checkOrigin_world: "snd (checkOrigin d h r w) = snd (h r w) \<or> snd (checkOrigin d h r w) = w"
  by (cases rule: checkOrigin_cases[of d h r w]) simp_all

subsection \<open>The contract\<close>

locale service_contract =
  fixes accounts :: "auth_tables \<Rightarrow> auth_tables \<Rightarrow> bool" and jobs :: "queue \<Rightarrow> queue \<Rightarrow> bool"
  assumes accounts_refl: "accounts a a"
    and accounts_trans: "accounts a b \<Longrightarrow> accounts b c \<Longrightarrow> accounts a c"
    and jobs_refl: "jobs q q"
    and jobs_trans: "jobs q p \<Longrightarrow> jobs p k \<Longrightarrow> jobs q k"
    and first_setup: "accounts a (snd (Setup argon parse ae em pw nm a))"
    and login: "accounts a (snd (Login argon ttl dummy ae em pw ua ip a))"
    and authenticate: "accounts a (snd (Authenticate ttl env token a))"
    and logout: "accounts a (snd (Logout env token a))"
    and change_password: "accounts a (snd (ChangePassword argon ae bf cf uid cur new a))"
    and cancel: "jobs q (snd (Cancel env i q))"
    and subscribe: "jobs q (q\<lparr>q_bus := snd (Subscribe (q_bus q))\<rparr>)"
    and unsubscribe: "jobs q (q\<lparr>q_bus := Unsubscribe fid (q_bus q)\<rparr>)"
    and publish: "jobs q (q\<lparr>q_bus := Publish ev (q_bus q)\<rparr>)"
    and receive: "jobs q (q\<lparr>q_bus := snd (receive ch (q_bus q))\<rparr>)"
begin

definition related :: "world \<Rightarrow> world \<Rightarrow> bool" where
  "related w w' \<longleftrightarrow> accounts (w_auth w) (w_auth w') \<and> jobs (w_queue w) (w_queue w')"

lemma related_refl [simp]: "related w w"
  by (simp add: related_def accounts_refl jobs_refl)

lemma related_trans: "related w w1 \<Longrightarrow> related w1 w2 \<Longrightarrow> related w w2"
  unfolding related_def by (blast intro: accounts_trans jobs_trans)

lemma related_auth: "related w (w\<lparr>w_auth := a\<rparr>) \<longleftrightarrow> accounts (w_auth w) a"
  by (simp add: related_def jobs_refl)

lemma related_queue: "related w (w\<lparr>w_queue := q\<rparr>) \<longleftrightarrow> jobs (w_queue w) q"
  by (simp add: related_def accounts_refl)

lemma stream: "stream_loop ch ts b = (fs, b') \<Longrightarrow> jobs (q\<lparr>q_bus := b\<rparr>) (q\<lparr>q_bus := b'\<rparr>)"
proof (induction ch ts b arbitrary: fs rule: stream_loop.induct)
  case (3 ch ts b)
  obtain x b1 where x: "receive ch b = (x, b1)" by fastforce
  then have "jobs (q\<lparr>q_bus := b\<rparr>) (q\<lparr>q_bus := b1\<rparr>)" using receive[of "q\<lparr>q_bus := b\<rparr>" ch] by simp
  then show ?case using 3 x by (auto split: option.splits prod.splits intro: jobs_trans)
next
  case (5 ch ev ts b)
  then show ?case using publish[of "q\<lparr>q_bus := b\<rparr>" ev] by (auto intro: jobs_trans)
qed (auto split: if_splits prod.splits simp: jobs_refl)

lemma handleJobEvents_related: "related w (snd (handleJobEvents d c u s r w))"
proof -
  let ?q = "w_queue w"
  obtain ch fid b where sub: "Subscribe (q_bus ?q) = ((ch, fid), b)" by (metis prod.exhaust)
  obtain fs b' where loop: "stream_loop ch (cl_turns c) b = (fs, b')" by fastforce
  have "jobs ?q (?q\<lparr>q_bus := b\<rparr>)" using subscribe[of ?q] sub by simp
  moreover note stream[OF loop, of ?q]
  moreover have "jobs (?q\<lparr>q_bus := b'\<rparr>) (?q\<lparr>q_bus := Unsubscribe fid b'\<rparr>)"
    using unsubscribe[of "?q\<lparr>q_bus := b'\<rparr>" fid] by simp
  ultimately have "jobs ?q (?q\<lparr>q_bus := Unsubscribe fid b'\<rparr>)" by (blast intro: jobs_trans)
  then show ?thesis by (simp add: handleJobEvents_def Let_def sub loop related_queue)
qed

lemma open_endpoint_related: "related w (snd (open_endpoint d c e r w))"
proof -
  have "related w (snd (handleSetup d c r w))"
    using handleSetup_world[of d c r w]
    by (auto simp: related_auth first_setup intro: accounts_trans[OF first_setup login])
  moreover have "related w (snd (handleLogin d c r w))"
    using handleLogin_world[of d c r w] by (auto simp: related_auth login)
  moreover have "related w (snd (handleLogout d c r w))"
    using logout by (simp add: handleLogout_world related_auth accounts_refl)
  ultimately show ?thesis by (cases e) (simp_all add: open_endpoint_def)
qed

lemma user_endpoint_related: "related w (snd (user_endpoint d c v e u s r w))"
proof -
  have "related w (snd (handleChangePassword d c u s r w))"
    using handleChangePassword_world[of d c u s r w] by (auto simp: related_auth change_password)
  moreover have "related w (snd (handleCancelJob d c v u s r w))"
    using cancel by (simp add: handleCancelJob_world related_queue)
  ultimately show ?thesis using handleJobEvents_related by (cases e) (simp_all add: user_endpoint_def)
qed

lemma requireUser_related:
  assumes "\<And>u s w. related w (snd (h u s r w))"
  shows "related w (snd (requireUser d env h r w))"
proof -
  let ?a = "snd (Authenticate (dp_ttl d) env (sessionTokenFrom r) (w_auth w))"
  have a: "accounts (w_auth w) ?a" by (rule authenticate)
  show ?thesis
    using requireUser_world[of d env h r w]
  proof
    assume "\<exists>u s. requireUser d env h r w = h u s r (w\<lparr>w_auth := ?a\<rparr>)"
    then show ?thesis using assms a related_auth[of w ?a] by (metis related_trans)
  qed (use a in \<open>simp add: related_def jobs_refl\<close>)
qed

lemma panicking_related:
  assumes "\<And>w. related w (snd (h r w))"
  shows "related w (snd (panicking p h r w))"
  using panicking_world[of p h r w] assms[of w] by auto

lemma api_router_related: "related w (snd (api_router d c chi r w))"
  by (simp add: api_router_def requireUser_related panicking_related open_endpoint_related user_endpoint_related
      split: matched.split)

lemma root_router_related: "related w (snd (root_router d c chi e r w))"
  using checkOrigin_world[of d "api_router d c chi" r w] api_router_related[of w d c chi r]
    panicking_world[of "cl_panic c" "frontend e" r w]
  by (auto simp: root_router_def frontend_def split: mounted.split)

lemma serve_related: "related w (snd (serve d c chi e r w))"
proof -
  have "related w (snd (logRequests (recoverPanics (root_router d c chi e)) r' w))" for r'
    using root_router_related[of w d c chi e r'] by (simp add: related_def middleware_world)
  then show ?thesis by (simp add: serve_def realIP_def Let_def)
qed

end

subsection \<open>The invariants of the services\<close>

definition world_ok :: "world \<Rightarrow> bool" where
  "world_ok w \<longleftrightarrow> auth_ok (w_auth w) \<and> queue_inv (w_queue w)"

interpretation invariants: service_contract "\<lambda>a b. auth_ok a \<longrightarrow> auth_ok b" "\<lambda>q p. queue_inv q \<longrightarrow> queue_inv p"
  by unfold_locales
    (auto simp: Setup_keeps Login_keeps Authenticate_keeps Logout_keeps ChangePassword_keeps Cancel_inv
      intro!: queue_inv_bus Subscribe_inv Unsubscribe_inv Publish_inv receive_inv)

lemma serve_keeps: "world_ok w \<Longrightarrow> world_ok (snd (serve d c chi e r w))"
  using invariants.serve_related[of w d c chi e r] by (simp add: invariants.related_def world_ok_def)

end
