(* ===== verification/Api.thy ===== *)
theory Api
  imports Contract
begin

text \<open>
  What the HTTP layer promises as a whole, about \<open>serve\<close>: the whole stack of \<open>Routes\<close> around the
  handlers.
\<close>

subsection \<open>Through the middleware\<close>

text \<open>The request as the handlers see it.\<close>

definition seen :: "deps \<Rightarrow> request \<Rightarrow> request" where
  "seen d r =
     (if sc_trust_proxy (cf_server (dp_config d)) \<and> forwardedClientIP r \<noteq> []
      then r\<lparr>rq_remote := forwardedClientIP r\<rparr> else r)"

lemma realIP_eq: "realIP d h r w = h (seen d r) w"
  by (simp add: realIP_def seen_def Let_def)

lemma header_remote [simp]: "header (r\<lparr>rq_remote := x\<rparr>) k = header r k"
  by (simp add: header_def)

lemma remote_irrelevant [simp]:
  "Cookie (r\<lparr>rq_remote := x\<rparr>) n = Cookie r n" "bearer_token (r\<lparr>rq_remote := x\<rparr>) = bearer_token r"
  "sessionTokenFrom (r\<lparr>rq_remote := x\<rparr>) = sessionTokenFrom r"
  by (simp_all add: cookies_named_def Cookie_def bearer_token_def sessionTokenFrom_def split: option.split)

lemma seen_sel [simp]:
  "rq_method (seen d r) = rq_method r" "rq_path (seen d r) = rq_path r" "rq_raw_path (seen d r) = rq_raw_path r"
  "rq_headers (seen d r) = rq_headers r" "rq_host (seen d r) = rq_host r" "rq_query (seen d r) = rq_query r"
  "rq_body (seen d r) = rq_body r" "rq_tls (seen d r) = rq_tls r"
  "header (seen d r) k = header r k" "Cookie (seen d r) k = Cookie r k"
  "sessionTokenFrom (seen d r) = sessionTokenFrom r"
  by (simp_all add: seen_def)

definition api_parts :: "world \<Rightarrow> auth_tables \<times> queue" where
  "api_parts w = (w_auth w, w_queue w)"

lemma middleware_passes:
  assumes "h r w = (Answered a, w0)"
  shows "\<exists>w'. logRequests (recoverPanics h) r w = (Answered a, w') \<and> api_parts w' = api_parts w0"
  using assms by (simp add: logRequests_def recoverPanics_def api_parts_def)

lemma serve_passes:
  assumes "root_router d c chi e (seen d r) w = (Answered a, w0)"
  shows "\<exists>w'. serve d c chi e r w = (Answered a, w') \<and> api_parts w' = api_parts w0"
  using middleware_passes[of "root_router d c chi e", OF assms] by (simp add: serve_def realIP_eq)

subsection \<open>Every handler answers\<close>

text \<open>
  The answers of the JSON API: an error has an error status, a stream is announced as one, an empty
  answer says so, and the rest is JSON.
\<close>

definition api_answer :: "answer \<Rightarrow> bool" where
  "api_answer a \<longleftrightarrow>
     (case rs_body a of
        ErrorBody code m \<Rightarrow> rs_status a \<in> {400, 401, 403, 404, 405, 409, 422, 500, 503} \<and>
          rs_headers a = [json_type]
      | StreamBody fs \<Rightarrow> rs_status a = 200 \<and> rs_headers a = stream_headers
      | NoContent \<Rightarrow> rs_status a = 204 \<and> rs_headers a = []
      | PageBody p \<Rightarrow> False
      | Interrupted b \<Rightarrow> False
      | _ \<Rightarrow> rs_status a \<in> {200, 201} \<and> rs_headers a = [json_type])"

definition answers_well :: "outcome \<Rightarrow> bool" where
  "answers_well x \<longleftrightarrow> (\<exists>a. x = Answered a \<and> api_answer a)"

lemma answers_well_simps [simp]:
  "st \<in> {400, 401, 403, 404, 405, 409, 422, 500, 503} \<Longrightarrow> answers_well (Answered (writeError st k m))"
  "answers_well (Answered internalError)" "answers_well (Answered no_content)"
  "answers_well (Answered (add_cookie ck a)) = answers_well (Answered a)"
  "answers_well (Answered (respond 200 stream_headers (StreamBody fs)))"
  by (auto simp: answers_well_def api_answer_def writeError_def writeJSON_def internalError_def
      no_content_def add_cookie_def respond_def split: api_body.splits)

lemma answers_well_json [simp]:
  assumes "case b of ErrorBody _ _ \<Rightarrow> False | StreamBody _ \<Rightarrow> False | NoContent \<Rightarrow> False | PageBody _ \<Rightarrow> False
    | Interrupted _ \<Rightarrow> False | _ \<Rightarrow> True" "st \<in> {200, 201}"
  shows "answers_well (Answered (writeJSON st b))"
  using assms by (auto simp: answers_well_def api_answer_def writeJSON_def respond_def split: api_body.splits)

lemma cookies_answer_well [simp]:
  "answers_well (Answered (setSessionCookie d r now t ex a)) = answers_well (Answered a)"
  "answers_well (Answered (clearSessionCookie d r a)) = answers_well (Answered a)"
  by (simp_all add: setSessionCookie_def clearSessionCookie_def)

lemmas open_handlers = handleHealth_def handleSetupStatus_def handleSetup_def handleLogin_def
  handleLogout_def

lemmas user_handlers = handleMe_def handleChangePassword_def handleInstance_def handleListJobs_def
  handleGetJob_def handleCancelJob_def handleJobEvents_def

lemma open_handlers_answer:
  "answers_well (fst (handleHealth d c r w))" "answers_well (fst (handleSetupStatus d c r w))"
  by (simp_all add: handleHealth_def handleSetupStatus_def split: option.split sum.split)

lemma handleSetup_answers: "answers_well (fst (handleSetup d c r w))"
  unfolding handleSetup_def bad_body_def by (simp split: option.split sum.split auth_error.split prod.split)

lemma handleLogin_answers: "answers_well (fst (handleLogin d c r w))"
  unfolding handleLogin_def bad_body_def by (simp split: option.split sum.split auth_error.split prod.split)

lemma handleLogout_answers: "answers_well (fst (handleLogout d c r w))"
  unfolding handleLogout_def Let_def by (simp split: prod.split)

lemma handleChangePassword_answers: "answers_well (fst (handleChangePassword d c u s r w))"
  unfolding handleChangePassword_def bad_body_def by (simp split: option.split auth_error.split prod.split)

lemma handleInstance_answers: "answers_well (fst (handleInstance d c u s r w))"
  unfolding handleInstance_def Let_def by simp

lemma handleListJobs_answers: "answers_well (fst (handleListJobs d c u s r w))"
  unfolding handleListJobs_def Let_def by (simp split: option.split sum.split)

lemma handleGetJob_answers: "answers_well (fst (handleGetJob d c v u s r w))"
  unfolding handleGetJob_def by (simp split: sum.split queue_error.split)

lemma handleCancelJob_answers: "answers_well (fst (handleCancelJob d c v u s r w))"
  unfolding handleCancelJob_def by (simp split: option.split queue_error.split prod.split)

lemma handleJobEvents_answers: "answers_well (fst (handleJobEvents d c u s r w))"
  unfolding handleJobEvents_def Let_def by (simp split: prod.split)


lemma open_endpoint_answers: "answers_well (fst (open_endpoint d c e r w))"
  by (cases e)
    (simp_all add: open_endpoint_def open_handlers_answer handleSetup_answers handleLogin_answers handleLogout_answers)

lemma user_endpoint_answers: "answers_well (fst (user_endpoint d c v e u s r w))"
  by (cases e)
    (simp_all add: user_endpoint_def handleMe_def handleChangePassword_answers handleInstance_answers
      handleListJobs_answers handleGetJob_answers handleCancelJob_answers handleJobEvents_answers)

lemma requireUser_cases:
  obtains e where "fst (Authenticate (dp_ttl d) env (sessionTokenFrom r) (w_auth w)) = Inl e"
      "\<exists>a. fst (requireUser d env h r w) = Answered a \<and> answers_well (Answered a) \<and>
        rs_status a = (if e = ErrNoSession then 401 else 500) \<and> (\<exists>k m. rs_body a = ErrorBody k m)"
      "api_parts (snd (requireUser d env h r w)) =
        (snd (Authenticate (dp_ttl d) env (sessionTokenFrom r) (w_auth w)), w_queue w)"
  | u s d' where "Authenticate (dp_ttl d) env (sessionTokenFrom r) (w_auth w) = (Inr (u, s), d')"
      "requireUser d env h r w = h u s r (w\<lparr>w_auth := d'\<rparr>)"
proof -
  obtain x d' where x: "Authenticate (dp_ttl d) env (sessionTokenFrom r) (w_auth w) = (x, d')" by fastforce
  show thesis
  proof (cases x)
    case (Inl e)
    then show thesis
      by (intro that(1)[of e])
        (cases e; simp add: requireUser_def Let_def x api_parts_def clearSessionCookie_def internalError_def)+
  next
    case (Inr us)
    then show thesis using that(2)[of "fst us" "snd us" d'] x by (cases us) (simp add: requireUser_def Let_def)
  qed
qed

text \<open>Below the middleware a handler answers well, or it panics where \<open>calls\<close> says so.\<close>

definition interrupted :: "answer \<Rightarrow> answer" where
  "interrupted a = a\<lparr>rs_body := Interrupted (rs_body a)\<rparr>"

definition ends_well :: "panic_point \<Rightarrow> outcome \<Rightarrow> bool" where
  "ends_well p x \<longleftrightarrow> answers_well x \<or>
     p \<noteq> NoPanic \<and> x = Panicked_with None \<or>
     p \<notin> {NoPanic, PanicsFirst} \<and> (\<exists>a. x = Panicked_with (Some a) \<and> api_answer a)"

lemma ends_well_answer: "answers_well x \<Longrightarrow> ends_well p x"
  by (simp add: ends_well_def)

lemma panicking_ends_well:
  assumes "answers_well (fst (h r w))"
  shows "ends_well p (fst (panicking p h r w))"
proof -
  obtain a w' where "h r w = (Answered a, w')" "api_answer a"
    using assms by (cases "h r w") (auto simp: answers_well_def)
  then show ?thesis
    by (cases p) (auto simp: panicking_def ends_well_def answers_well_def begun_def split: api_body.split)
qed

lemma api_router_ends_well: "ends_well (cl_panic c) (fst (api_router d c chi r w))"
proof (cases "ch_match chi patterns (rq_method r) (rq_path r) (rq_raw_path r)")
  case (Route i v)
  have "ends_well p (fst (requireUser d env h r w))" if "\<And>u s w. ends_well p (fst (h u s r w))" for p env h
    by (rule requireUser_cases[of d env r w h]) (use that ends_well_answer in auto)
  then show ?thesis using Route
    by (simp add: api_router_def panicking_ends_well user_endpoint_answers open_endpoint_answers)
qed (simp_all add: api_router_def ends_well_answer not_found_def method_not_allowed_def)

lemma root_router_ends:
  "\<exists>x w0. root_router d c chi e r w = (x, w0) \<and> x \<noteq> Aborted \<and>
    (ch_mount chi (rq_method r) (rq_path r) (rq_raw_path r) = InApi \<longrightarrow> ends_well (cl_panic c) x)"
proof (cases "ch_mount chi (rq_method r) (rq_path r) (rq_raw_path r)")
  case InApi
  have "ends_well (cl_panic c) (fst (checkOrigin d (api_router d c chi) r w))"
    by (rule checkOrigin_cases[of d "api_router d c chi" r w]) (simp_all add: api_router_ends_well ends_well_answer)
  then show ?thesis using InApi by (cases "checkOrigin d (api_router d c chi) r w")
    (auto simp: root_router_def ends_well_def answers_well_def)
next
  case InApp
  then show ?thesis by (simp add: root_router_def panicking_def frontend_def split: panic_point.split)
qed (simp add: root_router_def)

text \<open>The middleware turns what is left of the panics into answers.\<close>

lemma recoverPanics_answers:
  assumes "h r w = (x, w0)" "x \<noteq> Aborted"
  shows "\<exists>a. recoverPanics h r w = (Answered a, w0) \<and> (ends_well p x \<longrightarrow>
    api_answer a \<or> p \<notin> {NoPanic, PanicsFirst} \<and> (\<exists>b. api_answer b \<and> a = interrupted b))"
proof (cases x)
  case (Panicked_with o')
  have "answers_well (Answered internalError)" by simp
  then show ?thesis
    using Panicked_with assms(1)
    by (cases o') (auto simp: recoverPanics_def ends_well_def answers_well_def interrupted_def)
qed (use assms in \<open>auto simp: recoverPanics_def ends_well_def answers_well_def\<close>)

subsection \<open>Invariant\<close>

lemma serve_eq:
  obtains a w' where "serve d c chi e r w = (Answered a, w')"
    "api_parts w' = api_parts (snd (root_router d c chi e (seen d r) w))"
    "rq_path r \<noteq> ''/api/v1/jobs/events'' \<Longrightarrow> \<exists>l. last (w_log w') = l \<and> ll_ip l = rq_remote (seen d r) \<and>
       ll_status l = rs_status a \<and> ll_path l = rq_path r"
    "ch_mount chi (rq_method r) (rq_path r) (rq_raw_path r) = InApi \<Longrightarrow>
       api_answer a \<or> cl_panic c \<notin> {NoPanic, PanicsFirst} \<and> (\<exists>b. api_answer b \<and> a = interrupted b)"
proof -
  obtain x w0 where x: "root_router d c chi e (seen d r) w = (x, w0)" "x \<noteq> Aborted"
    "ch_mount chi (rq_method r) (rq_path r) (rq_raw_path r) = InApi \<longrightarrow> ends_well (cl_panic c) x"
    using root_router_ends[of d c chi e "seen d r" w] by auto
  obtain a where "recoverPanics (root_router d c chi e) (seen d r) w = (Answered a, w0)"
    "ends_well (cl_panic c) x \<longrightarrow>
       api_answer a \<or> cl_panic c \<notin> {NoPanic, PanicsFirst} \<and> (\<exists>b. api_answer b \<and> a = interrupted b)"
    using recoverPanics_answers[where h = "root_router d c chi e" and p = "cl_panic c", OF x(1,2)] by blast
  then show ?thesis using x
    by (cases "rq_path r = ''/api/v1/jobs/events''")
      (auto simp: serve_def realIP_eq logRequests_def api_parts_def intro!: that[of a])
qed

subsection \<open>What safe requests do\<close>

lemma safe_endpoints:
  assumes "i < length routes" "safe_method (fst (routes ! i))"
  shows "if guarded i then endpoint_at i \<in> {Me, Instance, ListJobsE, JobEvents, GetJobE}
    else endpoint_at i \<in> {Health, SetupStatus}"
proof -
  have "list_all (\<lambda>i. safe_method (fst (routes ! i)) \<longrightarrow>
      (if guarded i then endpoint_at i \<in> {Me, Instance, ListJobsE, JobEvents, GetJobE}
       else endpoint_at i \<in> {Health, SetupStatus})) [0..<length routes]" by code_simp
  then show ?thesis using assms by (auto simp: list_all_iff)
qed

lemma open_endpoints:
  assumes "i < length routes" "\<not> guarded i"
  shows "endpoint_at i \<in> {Health, SetupStatus, DoSetup, DoLogin, DoLogout}"
proof -
  have "list_all (\<lambda>i. guarded i \<or> endpoint_at i \<in> {Health, SetupStatus, DoSetup, DoLogin, DoLogout})
      [0..<length routes]" by code_simp
  then show ?thesis using assms by (auto simp: list_all_iff)
qed

lemma matched_route:
  assumes "router_ok chi" "ch_match chi patterns m p raw = Route i v"
  shows "i < length routes \<and> fst (routes ! i) = m"
  using assms by (fastforce simp: router_ok_def patterns_def case_prod_beta)

definition kept :: "world \<Rightarrow> (user_row list \<times> session_row list) \<times> jobs_table" where
  "kept w = (auth_keys (w_auth w), q_table (w_queue w))"

lemma kept_parts: "api_parts w' = api_parts w \<Longrightarrow> kept w' = kept w"
  by (simp add: api_parts_def kept_def)

lemma handleJobEvents_kept: "kept (snd (handleJobEvents d c u s r w)) = kept w"
  by (simp add: handleJobEvents_def Let_def kept_def split: prod.split)

lemma api_router_kept:
  assumes "router_ok chi" "safe_method (rq_method r)"
  shows "kept (snd (api_router d c chi r w)) = kept w"
proof (cases "ch_match chi patterns (rq_method r) (rq_path r) (rq_raw_path r)")
  case (Route i v)
  have "i < length routes" "safe_method (fst (routes ! i))"
    using matched_route[OF assms(1) Route] assms(2) by simp_all
  note e = safe_endpoints[OF this]
  show ?thesis
  proof (cases "guarded i")
    case False
    have "snd (open_endpoint d c (endpoint_at i) r w) = w"
      using e False by (auto simp: open_endpoint_def)
    then show ?thesis
      using False Route panicking_world[of "cl_panic c" "open_endpoint d c (endpoint_at i)" r w]
      by (auto simp: api_router_def)
  next
    case True
    let ?h = "\<lambda>u s. panicking (cl_panic c) (user_endpoint d c v (endpoint_at i) u s)"
    have "kept (snd (user_endpoint d c v (endpoint_at i) u s r w)) = kept w" for u s w
      using e True handleJobEvents_kept by (auto simp: user_endpoint_def)
    then have h: "kept (snd (?h u s r w)) = kept w" for u s w
      using panicking_world[of "cl_panic c" "user_endpoint d c v (endpoint_at i) u s" r w] by metis
    note t = Authenticate_touches[of "dp_ttl d" "cl_session c" "sessionTokenFrom r" "w_auth w"]
    have "kept (snd (requireUser d (cl_session c) ?h r w)) = kept w"
    proof (cases rule: requireUser_cases[of d "cl_session c" r w ?h, case_names no yes])
      case (no e)
      then show ?thesis using t by (simp add: kept_def api_parts_def)
    next
      case (yes u s d')
      then show ?thesis using t h[of u s "w\<lparr>w_auth := d'\<rparr>"] by (simp add: kept_def)
    qed
    then show ?thesis using Route True by (simp add: api_router_def)
  qed
qed (simp_all add: api_router_def)

subsection \<open>Headers a proxy sets\<close>

definition proxy_header :: "string \<Rightarrow> bool" where
  "proxy_header k \<longleftrightarrow> k \<in> {''X-Forwarded-For'', ''X-Real-Ip'', ''X-Forwarded-Proto''}"

definition without_proxy_headers :: "request \<Rightarrow> request" where
  "without_proxy_headers r = r\<lparr>rq_headers := filter (\<lambda>(k, _). \<not> proxy_header k) (rq_headers r)\<rparr>"

lemma header_without:
  assumes "\<not> proxy_header k"
  shows "header (without_proxy_headers r) k = header r k"
proof -
  have "map_of (filter (\<lambda>(k, _). \<not> proxy_header k) hs) k = map_of hs k" for hs :: "(string \<times> string) list"
    using assms by (induction hs) auto
  then show ?thesis by (simp add: header_def without_proxy_headers_def get_first_def)
qed

lemma not_proxy_header:
  "\<not> proxy_header ''Origin''" "\<not> proxy_header ''Authorization''" "\<not> proxy_header ''User-Agent''"
  "\<not> proxy_header ''Cookie''"
  by code_simp+

lemma Cookie_without: "Cookie (without_proxy_headers r) n = Cookie r n"
proof -
  have "concat (map (\<lambda>(k, v). if k = ''Cookie'' then f v else []) (filter (\<lambda>(k, _). \<not> proxy_header k) hs)) =
      concat (map (\<lambda>(k, v). if k = ''Cookie'' then f v else []) hs)" for f :: "string \<Rightarrow> string list" and hs
    by (induction hs) (use not_proxy_header(4) in \<open>auto split: if_splits\<close>)
  then show ?thesis by (simp add: Cookie_def cookies_named_def without_proxy_headers_def)
qed

lemma without_sel:
  "rq_method (without_proxy_headers r) = rq_method r" "rq_path (without_proxy_headers r) = rq_path r"
  "rq_raw_path (without_proxy_headers r) = rq_raw_path r" "rq_host (without_proxy_headers r) = rq_host r"
  "rq_query (without_proxy_headers r) = rq_query r" "rq_body (without_proxy_headers r) = rq_body r"
  "rq_remote (without_proxy_headers r) = rq_remote r" "rq_tls (without_proxy_headers r) = rq_tls r"
  by (simp_all add: without_proxy_headers_def)

lemma bearer_without: "bearer_token (without_proxy_headers r) = bearer_token r"
  by (simp add: bearer_token_def header_without not_proxy_header)

lemma token_without: "sessionTokenFrom (without_proxy_headers r) = sessionTokenFrom r"
  unfolding sessionTokenFrom_def Cookie_without bearer_without by (rule refl)

lemma cookies_without:
  assumes "\<not> sc_trust_proxy (cf_server (dp_config d))"
  shows "setSessionCookie d (without_proxy_headers r) = setSessionCookie d r"
    "clearSessionCookie d (without_proxy_headers r) = clearSessionCookie d r"
  using assms by (simp_all add: fun_eq_iff setSessionCookie_def clearSessionCookie_def requestIsHTTPS_def without_sel)

lemmas without = without_sel token_without not_proxy_header[THEN header_without]

lemma open_without:
  assumes "\<not> sc_trust_proxy (cf_server (dp_config d))"
  shows "open_endpoint d c e (without_proxy_headers r) w = open_endpoint d c e r w"
  unfolding open_endpoint_def open_handlers bad_body_def
  by (cases e) (simp_all only: endpoint.case without cookies_without[OF assms])

lemma user_without:
  assumes "\<not> sc_trust_proxy (cf_server (dp_config d))"
  shows "user_endpoint d c v e u s (without_proxy_headers r) w = user_endpoint d c v e u s r w"
  unfolding user_endpoint_def user_handlers bad_body_def
  by (cases e) (simp_all only: endpoint.case without cookies_without[OF assms])

lemma requireUser_without:
  assumes "\<not> sc_trust_proxy (cf_server (dp_config d))" "\<And>u s w. h u s (without_proxy_headers r) w = h u s r w"
  shows "requireUser d env h (without_proxy_headers r) w = requireUser d env h r w"
  unfolding requireUser_def without cookies_without[OF assms(1)] assms(2) by (rule refl)

lemma root_router_without:
  assumes "\<not> sc_trust_proxy (cf_server (dp_config d))"
  shows "root_router d c chi e (without_proxy_headers r) w = root_router d c chi e r w"
proof -
  let ?h = "\<lambda>v k u s. panicking (cl_panic c) (user_endpoint d c v k u s)"
  have "?h v k u s (without_proxy_headers r) w = ?h v k u s r w" for v k u s w
    unfolding panicking_def user_without[OF assms] by (rule refl)
  note guarded = requireUser_without[where h = "?h v k" for v k, OF assms this]
  have "api_router d c chi (without_proxy_headers r) w = api_router d c chi r w"
    unfolding api_router_def without guarded by (simp only: panicking_def open_without[OF assms])
  moreover have "panicking p (frontend e) (without_proxy_headers r) w = panicking p (frontend e) r w" for p
    unfolding panicking_def frontend_def without by (rule refl)
  ultimately show ?thesis
    unfolding root_router_def checkOrigin_def originAllowed_def without by (simp only:)
qed


subsection \<open>API keys\<close>

definition hide_key :: "provider \<Rightarrow> provider" where
  "hide_key p = p\<lparr>pv_api_key := Secret (if Set_secret (pv_api_key p) then ''x'' else [])\<rparr>"

definition hide_keys :: "config \<Rightarrow> config" where
  "hide_keys c = c\<lparr>cf_providers :=
     \<lparr>ps_convert = hide_key (ps_convert (cf_providers c)), ps_ocr = hide_key (ps_ocr (cf_providers c)),
      ps_translate = hide_key (ps_translate (cf_providers c)), ps_extract = hide_key (ps_extract (cf_providers c))\<rparr>\<rparr>"

lemma hide_sel [simp]:
  "cf_server (hide_keys c) = cf_server c" "cf_content (hide_keys c) = cf_content c"
  "PrimaryLanguage (hide_keys c) = PrimaryLanguage c" "Enabled (hide_key p) = Enabled p"
  "providerInfo (hide_key p) = providerInfo p"
  by (simp_all add: hide_keys_def PrimaryLanguage_def hide_key_def Enabled_def providerInfo_def Set_secret_def)

lemma hide_slots:
  "map (\<lambda>(n, p). (n, f p)) (provider_slots (hide_keys c)) = map (\<lambda>(n, p). (n, f (hide_key p))) (provider_slots c)"
  by (simp add: provider_slots_def hide_keys_def)

abbreviation hidden :: "deps \<Rightarrow> deps" where
  "hidden d \<equiv> d\<lparr>dp_config := hide_keys (dp_config d)\<rparr>"

lemma hidden_sel:
  "dp_version (hidden d) = dp_version d" "dp_argon (hidden d) = dp_argon d" "dp_parse (hidden d) = dp_parse d"
  "dp_ttl (hidden d) = dp_ttl d" "dp_dummy (hidden d) = dp_dummy d"
  "cf_server (dp_config (hidden d)) = cf_server (dp_config d)"
  "setSessionCookie (hidden d) = setSessionCookie d" "clearSessionCookie (hidden d) = clearSessionCookie d"
  by (simp_all add: fun_eq_iff setSessionCookie_def clearSessionCookie_def requestIsHTTPS_def)

lemma instance_hidden: "handleInstance (hidden d) c u s r w = handleInstance d c u s r w"
  by (simp add: handleInstance_def Let_def hide_slots)

lemma open_hidden: "open_endpoint (hidden d) c e r w = open_endpoint d c e r w"
  unfolding open_endpoint_def open_handlers by (cases e) (simp_all only: endpoint.case hidden_sel)

lemma user_hidden: "user_endpoint (hidden d) c v e u s r w = user_endpoint d c v e u s r w"
proof -
  have "handleChangePassword (hidden d) c u s r w = handleChangePassword d c u s r w"
    unfolding handleChangePassword_def by (simp only: hidden_sel)
  then show ?thesis unfolding user_endpoint_def
    by (cases e) (simp_all only: endpoint.case instance_hidden handleListJobs_def handleGetJob_def
      handleCancelJob_def handleJobEvents_def)
qed

subsection \<open>Properties\<close>

text \<open>A small router and an instance, for the examples.\<close>

definition demo_chi :: chi where
  "demo_chi =
     \<lparr>ch_mount = (\<lambda>m p raw. if prefix ''/api/v1/'' p then InApi else InApp),
      ch_match = (\<lambda>ps m p raw. case find (\<lambda>i. ps ! i = (m, drop 7 p)) [0..<length ps] of
          Some i \<Rightarrow> Route i []
        | None \<Rightarrow> if drop 7 p \<in> snd ` set ps then WrongMethod else NoRoute)\<rparr>"

lemma demo_router_ok: "router_ok demo_chi"
proof -
  have "i < length ps \<and> fst (ps ! i) = m" if "find (\<lambda>i. ps ! i = (m, q)) [0..<length ps] = Some i"
    for ps :: "(string \<times> string) list" and i m q
    using that by (auto simp: find_Some_iff)
  then show ?thesis by (auto simp: router_ok_def demo_chi_def split: option.splits if_splits)
qed

definition demo_get :: request where
  "demo_get = demo_request ''GET'' ''/api/v1/jobs'' []"

lemma demo_get_sel [simp]: "rq_headers demo_get = []" "rq_remote demo_get = ''1.2.3.4''"
  by (simp_all add: demo_get_def)

lemma demo_routing:
  "ch_mount demo_chi (rq_method demo_get) (rq_path demo_get) (rq_raw_path demo_get) = InApi"
  "ch_match demo_chi patterns (rq_method demo_get) (rq_path demo_get) (rq_raw_path demo_get) = Route 8 []"
  "endpoint_at 8 \<notin> {Health, SetupStatus, DoSetup, DoLogin, DoLogout}" "safe_method (rq_method demo_get)"
  by code_simp+

lemma demo_world_ok: "world_ok (demo_world [] [demo_row])" "world_ok (demo_world [demo_session] [])"
  by (simp_all add: world_ok_def queue_inv_New demo_inv)

lemma demo_request_raw [simp]: "rq_raw_path (demo_request m p hs) = []"
  by (simp add: demo_request_def)

text \<open>C22. Every request is answered, whatever it asks for, whatever fails and wherever its handler
  panics: below the API mount with a JSON document, an error that carries an error status, an empty
  204 or an event stream, and never with a page of the application. Only an answer whose handler
  panicked after it had begun to write it is interrupted.\<close>

theorem every_request_is_answered:
  "\<exists>a w'. serve d c chi e r w = (Answered a, w') \<and>
    (ch_mount chi (rq_method r) (rq_path r) (rq_raw_path r) = InApi \<longrightarrow>
       api_answer a \<or> cl_panic c \<notin> {NoPanic, PanicsFirst} \<and> (\<exists>b. api_answer b \<and> a = interrupted b))"
  by (rule serve_eq[of d c chi e r w]) blast

lemma every_request_is_answered_witness:
  "\<exists>a. fst (serve (demo_deps Default) (demo_calls\<lparr>cl_panic := PanicsFirst\<rparr>) demo_chi Map.empty demo_get
      (demo_world [demo_session] [])) = Answered a \<and> api_answer a"
  using every_request_is_answered[of "demo_deps Default" "demo_calls\<lparr>cl_panic := PanicsFirst\<rparr>" demo_chi Map.empty
      demo_get "demo_world [demo_session] []"] demo_routing(1)
  by auto




definition demo_post :: request where
  "demo_post = demo_request ''POST'' ''/api/v1/auth/logout'' [(''Origin'', ''https://evil.example'')]"

lemma demo_post_facts:
  "ch_mount demo_chi (rq_method demo_post) (rq_path demo_post) (rq_raw_path demo_post) = InApi"
  "\<not> safe_method (rq_method demo_post)" "header demo_post ''Origin'' = ''https'' @ ''://'' @ ''evil.example'' @ []"
  "list_all is_letter ''https''" "plain_host ''evil.example''" "valid_port []"
  "\<not> equal_fold (''evil.example'' @ []) (rq_host demo_post)"
  "url_parse (sc_base_url (cf_server Default)) = Some \<lparr>url_scheme = ''http'', url_host = ''localhost:7745''\<rparr>"
  "\<not> equal_fold (''evil.example'' @ []) ''localhost:7745''"
  by code_simp+


text \<open>C39. Without a trusted proxy the headers a proxy would set have no effect at all: the answer, the
  cookies, the stored sessions with their addresses and the log are those of the request without
  these headers.\<close>

theorem proxy_headers_are_ignored_without_a_proxy:
  assumes "\<not> sc_trust_proxy (cf_server (dp_config d))"
  shows "serve d c chi e r w = serve d c chi e (without_proxy_headers r) w"
proof -
  have "recoverPanics (root_router d c chi e) (without_proxy_headers r) w = recoverPanics (root_router d c chi e) r w"
    by (simp only: recoverPanics_def root_router_without[OF assms])
  then have "logRequests (recoverPanics (root_router d c chi e)) (without_proxy_headers r) w =
      logRequests (recoverPanics (root_router d c chi e)) r w"
    by (simp only: logRequests_def without_sel)
  then show ?thesis using assms by (simp add: serve_def realIP_def Let_def)
qed

lemma proxy_headers_are_ignored_without_a_proxy_witness:
  "serve (demo_deps Default) demo_calls demo_chi Map.empty
     (demo_request ''GET'' ''/api/v1/jobs'' [(''X-Forwarded-For'', ''6.6.6.6'')]) (demo_world [] []) =
   serve (demo_deps Default) demo_calls demo_chi Map.empty
     (demo_request ''GET'' ''/api/v1/jobs'' []) (demo_world [] [])"
proof -
  have "without_proxy_headers (demo_request ''GET'' ''/api/v1/jobs'' [(''X-Forwarded-For'', ''6.6.6.6'')]) =
      demo_request ''GET'' ''/api/v1/jobs'' []"
    by (simp add: without_proxy_headers_def demo_request_def proxy_header_def)
  moreover have "\<not> sc_trust_proxy (cf_server (dp_config (demo_deps Default)))" by (simp add: Default_def)
  ultimately show ?thesis
    using proxy_headers_are_ignored_without_a_proxy[of "demo_deps Default" demo_calls demo_chi Map.empty
      "demo_request ''GET'' ''/api/v1/jobs'' [(''X-Forwarded-For'', ''6.6.6.6'')]" "demo_world [] []"] by simp
qed

text \<open>Behind a trusted proxy that appends the address it saw to the \<open>X-Forwarded-For\<close> header, that
  address is the one the handlers see and the log line records, whatever the client wrote before it.\<close>

lemma proxy_address_is_the_last_entry:
  assumes "sc_trust_proxy (cf_server (dp_config d))" "header r ''X-Forwarded-For'' = forged @ '','' @ '' '' @ ip"
    and "CHR '','' \<notin> set ip" "trim_space ('' '' @ ip) = ip" "ip \<noteq> []"
  shows "seen d r = r\<lparr>rq_remote := ip\<rparr> \<and>
    (rq_path r \<noteq> ''/api/v1/jobs/events'' \<longrightarrow>
     (\<exists>a w' l. serve d c chi e r w = (Answered a, w') \<and> last (w_log w') = l \<and> ll_ip l = ip \<and>
       ll_status l = rs_status a \<and> ll_path l = rq_path r))"
proof -
  have "last (split_on (CHR '','') (forged @ '','' @ '' '' @ ip)) = '' '' @ ip"
    using split_on_last[of "CHR '',''" "'' '' @ ip" forged] assms(3) by (simp del: split_on.simps)
  then have "forwardedClientIP r = ip"
    using assms(2,4,5) by (simp add: forwardedClientIP_def Let_def)
  then have s: "seen d r = r\<lparr>rq_remote := ip\<rparr>" using assms(1,5) by (simp add: seen_def)
  show ?thesis by (rule serve_eq[of d c chi e r w]) (use s in auto)
qed

lemma proxy_address_is_the_last_entry_witness:
  "\<exists>a w' l. serve (demo_deps (Default\<lparr>cf_server := (cf_server Default)\<lparr>sc_trust_proxy := True\<rparr>\<rparr>)) demo_calls
     demo_chi Map.empty (demo_request ''GET'' ''/api/v1/jobs'' [(''X-Forwarded-For'', ''6.6.6.6, 9.9.9.9'')])
     (demo_world [] []) = (Answered a, w') \<and> last (w_log w') = l \<and> ll_ip l = ''9.9.9.9''"
proof -
  let ?d = "demo_deps (Default\<lparr>cf_server := (cf_server Default)\<lparr>sc_trust_proxy := True\<rparr>\<rparr>)"
  let ?r = "demo_request ''GET'' ''/api/v1/jobs'' [(''X-Forwarded-For'', ''6.6.6.6, 9.9.9.9'')]"
  have pre: "sc_trust_proxy (cf_server (dp_config ?d))"
    "header ?r ''X-Forwarded-For'' = ''6.6.6.6'' @ '','' @ '' '' @ ''9.9.9.9''"
    by (simp_all add: header_def get_first_def)
  have strs: "CHR '','' \<notin> set ''9.9.9.9''" "trim_space ('' '' @ ''9.9.9.9'') = ''9.9.9.9''"
    "rq_path ?r \<noteq> ''/api/v1/jobs/events''" by code_simp+
  from proxy_address_is_the_last_entry[OF pre strs(1,2), of demo_calls demo_chi Map.empty "demo_world [] []"] strs(3)
  show ?thesis by blast
qed

text \<open>C38. Nothing the server sends, stores or logs depends on the API keys in its configuration beyond
  whether each is set: its behaviour on every request is that of an instance whose keys are all
  replaced by one letter.\<close>

theorem api_keys_do_not_leak:
  "serve (d\<lparr>dp_config := hide_keys (dp_config d)\<rparr>) c chi e r w = serve d c chi e r w"
proof -
  have "requireUser (hidden d) env h r w = requireUser d env h r w" for env h r w
    unfolding requireUser_def hidden_sel by (rule refl)
  moreover have "user_endpoint (hidden d) c v k = user_endpoint d c v k" for v k
    by (simp add: fun_eq_iff user_hidden)
  moreover have "open_endpoint (hidden d) c k = open_endpoint d c k" for k
    by (simp add: fun_eq_iff open_hidden)
  ultimately have "api_router (hidden d) c chi r w = api_router d c chi r w" for r w
    by (simp only: api_router_def)
  then have "root_router (hidden d) c chi e r w = root_router d c chi e r w" for r w
    by (auto simp: root_router_def checkOrigin_def originAllowed_def Let_def split: mounted.split option.split)
  then have "logRequests (recoverPanics (root_router (hidden d) c chi e)) r w =
      logRequests (recoverPanics (root_router d c chi e)) r w" for r w
    by (simp only: logRequests_def recoverPanics_def)
  then show ?thesis by (simp only: serve_def realIP_def hidden_sel)
qed

text \<open>C13. Requests with a safe method change no data: no account, no job, and of the sessions no
  column but when they were last seen and when they expire. Links, images and prefetches can do no
  harm.\<close>

theorem safe_requests_change_no_data:
  assumes "router_ok chi" "safe_method (rq_method r)"
  shows "\<exists>a w'. serve d c chi e r w = (Answered a, w') \<and> at_users (w_auth w') = at_users (w_auth w) \<and>
    map (\<lambda>s. s\<lparr>sr_last_seen_at := 0, sr_expires_at := 0\<rparr>) (at_sessions (w_auth w')) =
      map (\<lambda>s. s\<lparr>sr_last_seen_at := 0, sr_expires_at := 0\<rparr>) (at_sessions (w_auth w)) \<and>
    q_table (w_queue w') = q_table (w_queue w)"
proof -
  have "kept (snd (root_router d c chi e (seen d r) w)) = kept w"
    using api_router_kept[OF assms(1), of "seen d r" d c w] assms(2)
      panicking_world[of "cl_panic c" "frontend e" "seen d r" w]
    by (auto simp: root_router_def frontend_def checkOrigin_def split: mounted.split)
  moreover obtain a w' where sv: "serve d c chi e r w = (Answered a, w')"
    "api_parts w' = api_parts (snd (root_router d c chi e (seen d r) w))"
    by (rule serve_eq[of d c chi e r w])
  ultimately have "kept w' = kept w" using kept_parts[of w' "snd (root_router d c chi e (seen d r) w)"] by simp
  with sv show ?thesis by (auto simp: kept_def auth_keys_def)
qed

lemma safe_requests_change_no_data_witness:
  "q_table (w_queue (snd (serve (demo_deps Default) demo_calls demo_chi Map.empty demo_get
     (demo_world [demo_session] [demo_row])))) = [demo_row]"
  using safe_requests_change_no_data[OF demo_router_ok demo_routing(4), of "demo_deps Default" demo_calls Map.empty
      "demo_world [demo_session] [demo_row]"] by auto

subsection \<open>Signing in\<close>

lemma url_alphabet_plain: "list_all (\<lambda>c. cookie_byte c \<and> \<not> cookie_space c) url_alphabet"
  by code_simp

lemma token_plain: "raw \<noteq> [] \<Longrightarrow> plain_token (raw_encode url_alphabet raw)"
  using url_alphabet_plain raw_encode_chars[OF good_alphabets(2), of raw] length_raw_encode[of url_alphabet raw]
  by (cases raw) (auto simp: plain_token_def list_all_iff)

lemma session_cookie_plain: "plain_token sessionCookie" "CHR ''='' \<notin> set sessionCookie"
  by code_simp+

lemma handleLogin_ok:
  assumes "handleLogin d c r w = (Answered a, w')" "rs_status a = 200"
  obtains req token u hs a' where "decodeJSON [''email'', ''password''] (rq_body r) = Some req"
    "Login (dp_argon d) (dp_ttl d) (dp_dummy d) (cl_login c) (req ''email'') (req ''password'')
       (header r ''User-Agent'') (rq_remote r) (w_auth w) = ((Inr (token, u), hs), a')" "w' = w\<lparr>w_auth := a'\<rparr>"
    "a = setSessionCookie d r (cl_later c) token (cl_now c + DefaultSessionTTL) (writeJSON 200 (UserBody u))"
proof (cases "decodeJSON [''email'', ''password''] (rq_body r)")
  case None
  then show ?thesis using assms by (auto simp: handleLogin_def bad_body_def)
next
  case (Some req)
  obtain x hs a' where l: "Login (dp_argon d) (dp_ttl d) (dp_dummy d) (cl_login c) (req ''email'') (req ''password'')
       (header r ''User-Agent'') (rq_remote r) (w_auth w) = ((x, hs), a')" by (metis prod.exhaust)
  show ?thesis
  proof (cases x)
    case (Inl e)
    then show ?thesis using assms Some l by (cases e) (auto simp: handleLogin_def)
  next
    case (Inr tu)
    then show ?thesis using that[OF Some, of "fst tu" "snd tu" hs a'] assms Some l
      by (cases tu) (auto simp: handleLogin_def)
  qed
qed

text \<open>C15. After a sign-in the browser holds one cookie, out of the reach of scripts and not sent with
  cross-site posts, and a request that brings it back is served as the user who signed in until
  the session expires.\<close>

theorem login_cookie_signs_in:
  assumes "auth_ok (w_auth w)" "handleLogin d c r w = (Answered a, w')" "rs_status a = 200"
    and "ae_raw (cl_login c) = Some raw" "raw \<noteq> []" "rs_cookies a = [k]"
    and "filter (\<lambda>(n, v). n = ''Cookie'') (rq_headers r2) = [(''Cookie'', ck_name k @ ''='' @ ck_value k)]"
    and "flt env 0 = None" "Millis (clk env 0) < Millis (clk (ae_call (cl_login c)) 1 + dp_ttl d)"
  shows "ck_http_only k \<and> ck_lax k \<and>
    (\<exists>u u' s d2. rs_body a = UserBody u \<and> au_id u' = au_id u \<and> as_user_id s = au_id u \<and>
      requireUser d env h r2 w' = h u' s r2 (w'\<lparr>w_auth := d2\<rparr>))"
proof -
  obtain req token u hs a' where l: "Login (dp_argon d) (dp_ttl d) (dp_dummy d) (cl_login c) (req ''email'') (req ''password'')
       (header r ''User-Agent'') (rq_remote r) (w_auth w) = ((Inr (token, u), hs), a')" "w' = w\<lparr>w_auth := a'\<rparr>"
    and a: "a = setSessionCookie d r (cl_later c) token (cl_now c + DefaultSessionTTL) (writeJSON 200 (UserBody u))"
    by (rule handleLogin_ok[OF assms(2,3)])
  have tok: "token = raw_encode url_alphabet raw"
    using Login_Inr[OF assms(1) l(1)] assms(4) by (metis option.inject)
  then have plain: "plain_token token" using token_plain[OF assms(5)] by simp
  have k: "ck_name k = sessionCookie" "ck_value k = token" "ck_http_only k" "ck_lax k"
    using assms(6) unfolding a by (auto simp: setSessionCookie_def)
  have "Cookie r2 sessionCookie = Some token"
    using lone_cookie[OF assms(7)[unfolded k(1,2)] plain session_cookie_plain] .
  then have "sessionTokenFrom r2 = token" using plain by (simp add: sessionTokenFrom_def plain_token_def)
  moreover obtain u' s where us: "fst (Authenticate (dp_ttl d) env token a') = Inr (u', s)"
    "au_id u' = au_id u" "as_user_id s = au_id u"
    using Login_then_Authenticate[OF assms(1) l(1) _ assms(8,9), of "dp_ttl d"] plain
    by (auto simp: plain_token_def)
  moreover obtain d2 where "Authenticate (dp_ttl d) env token a' = (Inr (u', s), d2)"
    using us(1) by (metis prod.collapse)
  ultimately have "requireUser d env h r2 w' = h u' s r2 (w'\<lparr>w_auth := d2\<rparr>)"
    using l(2) by (simp add: requireUser_def Let_def)
  moreover have "rs_body a = UserBody u" by (simp add: a setSessionCookie_def)
  ultimately show ?thesis using k us(2,3) by blast
qed

definition demo_login_request :: request where
  "demo_login_request = (demo_request ''POST'' ''/api/v1/auth/login'' [])\<lparr>rq_remote := [],
     rq_body := \<lparr>bd_value = Some (JObj [(''email'', JStr ''a@b''), (''password'', JStr ''correct horse'')]),
       bd_end = 40, bd_next = None, bd_error = []\<rparr>\<rparr>"

lemma demo_login_body:
  "\<exists>req. decodeJSON [''email'', ''password''] (rq_body demo_login_request) = Some req \<and>
     req ''email'' = ''a@b'' \<and> req ''password'' = ''correct horse''"
  by (simp add: demo_login_request_def decodeJSON_def max_body_def field_of_def)

lemma login_cookie_signs_in_witness:
  "\<exists>a w' k. handleLogin (demo_deps Default) demo_calls demo_login_request (demo_world [] []) = (Answered a, w') \<and>
     rs_cookies a = [k] \<and> (\<exists>u' s d2. requireUser (demo_deps Default) (calm 0) handleMe
       (demo_request ''GET'' ''/api/v1/auth/me'' [(''Cookie'', ck_name k @ ''='' @ ck_value k)]) w' =
       (Answered (writeJSON 200 (MeBody u' s)), w'\<lparr>w_auth := d2\<rparr>) \<and> au_id u' = ''usr_1'')"
proof -
  obtain d' where l: "Login demo_argon (New_ttl 0) demo_hash (demo_env ''ses_2'') ''a@b'' ''correct horse'' [] []
      (demo_auth []) = ((Inr (raw_encode url_alphabet ''r'', userFromRow demo_user), [demo_hash]), d')"
    using demo_login by blast
  let ?w' = "(demo_world [] [])\<lparr>w_auth := d'\<rparr>" and ?a = "setSessionCookie (demo_deps Default) demo_login_request 0
      (raw_encode url_alphabet ''r'') (0 + DefaultSessionTTL) (writeJSON 200 (UserBody (userFromRow demo_user)))"
  obtain req where "decodeJSON [''email'', ''password''] (rq_body demo_login_request) = Some req"
    "req ''email'' = ''a@b''" "req ''password'' = ''correct horse''"
    using demo_login_body by blast
  moreover have "rq_remote demo_login_request = []" "header demo_login_request ''User-Agent'' = []"
    by (simp_all add: demo_login_request_def header_def get_first_def)
  ultimately have h: "handleLogin (demo_deps Default) demo_calls demo_login_request (demo_world [] []) = (Answered ?a, ?w')"
    using l by (simp add: handleLogin_def)
  obtain k where k: "rs_cookies ?a = [k]" by (simp add: setSessionCookie_def)
  let ?r = "demo_request ''GET'' ''/api/v1/auth/me'' [(''Cookie'', ck_name k @ ''='' @ ck_value k)]"
  have st: "rs_status ?a = 200" "rs_body ?a = UserBody (userFromRow demo_user)" by (simp_all add: setSessionCookie_def)
  have raw: "ae_raw (cl_login demo_calls) = Some ''r''" by (simp add: demo_env_def)
  have ck: "filter (\<lambda>(n, v). n = ''Cookie'') (rq_headers ?r) = [(''Cookie'', ck_name k @ ''='' @ ck_value k)]" by simp
  have ttl: "Millis (clk (calm 0) 0) < Millis (clk (ae_call (cl_login demo_calls)) 1 + dp_ttl (demo_deps Default))"
    by (simp add: demo_env_def New_ttl_def DefaultSessionTTL_def Millis_def)
  have ok: "auth_ok (w_auth (demo_world [] []))" by simp
  from login_cookie_signs_in[OF ok h st(1) raw _ k ck _ ttl, of handleMe] st(2)
  obtain u' s d2 where "requireUser (demo_deps Default) (calm 0) handleMe ?r ?w' = handleMe u' s ?r (?w'\<lparr>w_auth := d2\<rparr>)"
    "au_id u' = au_id (userFromRow demo_user)" by auto
  then have "requireUser (demo_deps Default) (calm 0) handleMe ?r ?w' =
      (Answered (writeJSON 200 (MeBody u' s)), ?w'\<lparr>w_auth := d2\<rparr>) \<and> au_id u' = ''usr_1''"
    by (simp add: handleMe_def userFromRow_def demo_user_def)
  with h k show ?thesis by blast
qed

end
