(* ===== verification/Instance.thy ===== *)
theory Instance
  imports Api JobLife
begin

text \<open>
  The running instance: what \<open>cmdServe\<close> (\<open>cmd/manualbox/main.go\<close>) starts, the HTTP server, the worker
  pool and the session sweeper, side by side on the same tables. A request is one step, and so is
  the second half of a setup that another request overtook; the workers, the shutdown and the closing
  of the broker move by the steps of \<open>JobSystem\<close>, whose labels are kept. An event stream, the one
  request that lasts, is besides its one-step form covered by the steps in which a subscriber
  registers, takes an event and leaves. Of the other requests only the
  setup is split between its two statements; the statements of the rest run without another step in
  between.
\<close>

record instance_state =
  in_auth :: auth_tables
  in_sys :: sys
  in_log :: "log_line list"

definition world_of :: "instance_state \<Rightarrow> world" where
  "world_of s = \<lparr>w_auth = in_auth s, w_queue = sy_queue (in_sys s), w_log = in_log s\<rparr>"

definition with_world :: "world \<Rightarrow> instance_state \<Rightarrow> instance_state" where
  "with_world w s =
     s\<lparr>in_auth := w_auth w, in_sys := (in_sys s)\<lparr>sy_queue := w_queue w\<rparr>, in_log := w_log w\<rparr>"

text \<open>The state in which a process starts on the tables it finds.\<close>

definition booted :: "auth_tables \<Rightarrow> jobs_table \<Rightarrow> instance_state" where
  "booted d t =
     \<lparr>in_auth = d,
      in_sys = \<lparr>sy_queue = NewQueue t, sy_busy = Map.empty, sy_down = False, sy_issued = jr_id ` set t\<rparr>,
      in_log = []\<rparr>"

inductive inst_step :: "deps \<Rightarrow> pool \<Rightarrow> label \<Rightarrow> instance_state \<Rightarrow> instance_state \<Rightarrow> bool" for d p where
  request: "inst_step d p Regular s (with_world (snd (serve d c chi e r (world_of s))) s)"
| overtaken_setup: "inst_step d p Regular s (s\<lparr>in_auth := snd (setup_insert env row (in_auth s))\<rparr>)"
| sweep: "inst_step d p Regular s (s\<lparr>in_auth := snd (SweepExpiredSessions env (in_auth s))\<rparr>)"
| work: "sys_step p l (in_sys s) s' \<Longrightarrow> inst_step d p l s (s\<lparr>in_sys := s'\<rparr>)"

inductive inst_reach :: "deps \<Rightarrow> pool \<Rightarrow> label set \<Rightarrow> instance_state \<Rightarrow> instance_state \<Rightarrow> bool" for d p L s0 where
  start: "inst_reach d p L s0 s0"
| move: "inst_reach d p L s0 s \<Longrightarrow> l \<in> L \<Longrightarrow> inst_step d p l s s' \<Longrightarrow> inst_reach d p L s0 s'"

lemma world_of_sel [simp]:
  "w_auth (world_of s) = in_auth s" "w_queue (world_of s) = sy_queue (in_sys s)" "w_log (world_of s) = in_log s"
  by (simp_all add: world_of_def)

lemma with_world_sel [simp]:
  "in_auth (with_world w s) = w_auth w" "in_sys (with_world w s) = (in_sys s)\<lparr>sy_queue := w_queue w\<rparr>"
  "in_log (with_world w s) = w_log w"
  by (simp_all add: with_world_def)

lemma world_of_with [simp]: "world_of (with_world w s) = w"
  by (simp add: world_of_def with_world_def)

lemma booted_sel [simp]:
  "in_auth (booted d t) = d" "sy_queue (in_sys (booted d t)) = NewQueue t"
  "world_of (booted d t) = \<lparr>w_auth = d, w_queue = NewQueue t, w_log = []\<rparr>"
  by (simp_all add: booted_def world_of_def)

subsection \<open>What no request takes away\<close>

interpretation lasting: service_contract accounts_kept "\<lambda>q q'. quiet (q_table q) (q_table q')"
  by unfold_locales
    (auto simp: kept_accounts.operations_rel quiet_ops(1) intro: kept_accounts.same kept_accounts.chain quiet_trans)

subsection \<open>Invariants\<close>

lemma inst_step_ok:
  assumes "inst_step d p l s s'" "world_ok (world_of s)"
  shows "world_ok (world_of s')"
  using assms(1)
proof cases
  case (request c chi e r)
  then show ?thesis using serve_keeps[OF assms(2), of d c chi e r] by (simp add: world_ok_def)
next
  case (work s1)
  then show ?thesis using assms(2) sys_step_inv[OF work(2)] by (simp add: world_ok_def)
qed (use assms(2) in \<open>simp_all add: world_ok_def operations_keep\<close>)

lemma inst_step_accounts:
  assumes "inst_step d p l s s'"
  shows "accounts_kept (in_auth s) (in_auth s')"
  using assms
proof cases
  case (request c chi e r)
  then show ?thesis using lasting.serve_related[of "world_of s" d c chi e r] by (simp add: lasting.related_def)
qed (simp_all add: kept_accounts.operations_rel kept_accounts.same)

lemma inst_step_exclusive:
  assumes "inst_step d p l s s'" "queue_inv (sy_queue (in_sys s))" "exclusive b (in_sys s)"
    "l \<noteq> Expires" "b \<longrightarrow> l \<noteq> Reclaims"
  shows "exclusive b (in_sys s')"
  using assms(1)
proof cases
  case (request c chi e r)
  then show ?thesis
    using lasting.serve_related[of "world_of s" d c chi e r] exclusive_quiet[OF assms(3)]
    by (simp add: lasting.related_def)
next
  case (work s1)
  then show ?thesis using sys_step_exclusive[OF work(2) assms(2,3,4,5)] by simp
qed (use assms(3) in simp_all)

lemma inst_step_moves:
  assumes "inst_step d p l s s'" "queue_inv (sy_queue (in_sys s))" "exclusive False (in_sys s)" "l \<noteq> Expires"
  shows "moves (sy_issued (in_sys s)) (q_table (sy_queue (in_sys s))) (q_table (sy_queue (in_sys s')))"
  using assms(1)
proof cases
  case (request c chi e r)
  then show ?thesis
    using lasting.serve_related[of "world_of s" d c chi e r] by (simp add: lasting.related_def quiet_moves)
next
  case (work s1)
  then show ?thesis using sys_step_moves[OF work(2) assms(2,3,4)] by simp
qed simp_all

lemma inst_step_issued: "inst_step d p l s s' \<Longrightarrow> sy_issued (in_sys s) \<subseteq> sy_issued (in_sys s')"
  by (induction rule: inst_step.induct) (simp_all add: sys_step_issued)

lemma inst_reach_ok: "inst_reach d p L s0 s \<Longrightarrow> world_ok (world_of s0) \<Longrightarrow> world_ok (world_of s)"
  by (induction rule: inst_reach.induct) (auto intro: inst_step_ok)

lemma inst_reach_accounts: "inst_reach d p L s0 s \<Longrightarrow> accounts_kept (in_auth s0) (in_auth s)"
  by (induction rule: inst_reach.induct) (auto intro: kept_accounts.same kept_accounts.chain inst_step_accounts)

lemma inst_reach_exclusive:
  "inst_reach d p L s0 s \<Longrightarrow> world_ok (world_of s0) \<Longrightarrow> exclusive b (in_sys s0) \<Longrightarrow> Expires \<notin> L \<Longrightarrow>
   b \<longrightarrow> Reclaims \<notin> L \<Longrightarrow> exclusive b (in_sys s)"
proof (induction rule: inst_reach.induct)
  case (move s l s')
  then show ?case
    using inst_reach_ok[OF move(1)] inst_step_exclusive[OF move(3), of b] by (auto simp: world_ok_def)
qed simp

lemma booted_ok: "auth_ok d \<Longrightarrow> jobs_inv t \<Longrightarrow> world_ok (world_of (booted d t))"
  by (simp add: world_ok_def queue_inv_New)

lemma booted_exclusive: "b \<longrightarrow> list_all budget t \<Longrightarrow> exclusive b (in_sys (booted d t))"
  by (auto simp: exclusive_def booted_def rows_ok_def busy_ok_def apart_def list_all_iff dest!: row_by_SomeD)

text \<open>What holds in every state that is reached without taking a job from a living worker.\<close>

lemma kept_in_time:
  assumes "inst_reach d p L (booted a t) s" "auth_ok a" "jobs_inv t" "Expires \<notin> L"
  shows "queue_inv (sy_queue (in_sys s))" "exclusive False (in_sys s)"
    "Reclaims \<notin> L \<Longrightarrow> list_all budget t \<Longrightarrow> exclusive True (in_sys s)"
  using inst_reach_ok[OF assms(1) booted_ok[OF assms(2,3)]] inst_reach_exclusive[OF assms(1) booted_ok[OF assms(2,3)]]
    booted_exclusive assms(4) by (simp_all add: world_ok_def)

subsection \<open>Properties\<close>

text \<open>C9. A running instance keeps its data in order, whatever requests arrive, whatever fails, whatever
  the workers and the sweeper do meanwhile, through lease expiry, shutdown and crashes: accounts,
  tokens, job ids and pending dedupe keys stay unique, every session belongs to an account, no
  account disappears or changes its address or role, every job's row is well formed, and no
  channel operation panics.\<close>

theorem instance_keeps_its_data_in_order:
  assumes "inst_reach d p L (booted a t) s" "auth_ok a" "jobs_inv t"
  shows "distinct (map ur_email_folded (at_users (in_auth s))) \<and>
    distinct (map sr_token_hash (at_sessions (in_auth s))) \<and>
    (\<forall>x \<in> set (at_sessions (in_auth s)). sr_user_id x \<in> ur_id ` set (at_users (in_auth s))) \<and>
    prefix (map account_of (at_users a)) (map account_of (at_users (in_auth s))) \<and>
    distinct (map jr_id (q_table (sy_queue (in_sys s)))) \<and>
    distinct (List.map_filter pending_key (q_table (sy_queue (in_sys s)))) \<and>
    list_all row_inv (q_table (sy_queue (in_sys s))) \<and> \<not> br_panic (q_bus (sy_queue (in_sys s)))"
  using inst_reach_ok[OF assms(1) booted_ok[OF assms(2,3)]] inst_reach_accounts[OF assms(1)]
  by (auto simp: world_ok_def auth_ok_iff queue_inv_def jobs_inv_def jobs_ok_iff list_all_iff accounts_kept_def
      dest: broker_invD(2))

lemma instance_keeps_its_data_in_order_witness:
  "\<exists>s. inst_reach (demo_deps Default) (demo_pool (Returned None)) UNIV (booted (demo_auth [demo_session]) [demo_row]) s \<and>
     list_all row_inv (q_table (sy_queue (in_sys s))) \<and> \<not> br_panic (q_bus (sy_queue (in_sys s)))"
proof -
  have "inst_reach (demo_deps Default) (demo_pool (Returned None)) UNIV (booted (demo_auth [demo_session]) [demo_row])
      (with_world (snd (serve (demo_deps Default) demo_calls demo_chi Map.empty demo_get
        (world_of (booted (demo_auth [demo_session]) [demo_row])))) (booted (demo_auth [demo_session]) [demo_row]))"
    by (rule inst_reach.move[OF inst_reach.start _ inst_step.request]) simp
  moreover have "auth_ok (demo_auth [demo_session])" by simp
  ultimately show ?thesis using instance_keeps_its_data_in_order[OF _ _ demo_inv(1)] by blast
qed

text \<open>C1. As long as the reclaimer takes no job from a living worker, no interleaving of requests,
  workers, purges, reclaims, shutdown and crashes makes two workers run the same job at the same
  time. If nothing is reclaimed either, no job uses more attempts than its maximum.\<close>

theorem requests_leave_running_exclusive:
  assumes "inst_reach d p L (booted a t) s" "auth_ok a" "jobs_inv t" "Expires \<notin> L"
  shows "(\<forall>w w' j j' h h'. sy_busy (in_sys s) w = Some (j, h) \<longrightarrow> sy_busy (in_sys s) w' = Some (j', h') \<longrightarrow>
      job_id j = job_id j' \<longrightarrow> w = w') \<and>
    (Reclaims \<notin> L \<longrightarrow> list_all budget t \<longrightarrow>
      (\<forall>r \<in> set (q_table (sy_queue (in_sys s))). jr_attempts r \<le> jr_max_attempts r))"
proof -
  have "jobs_ok (q_table (sy_queue (in_sys s)))" using kept_in_time(1)[OF assms] by auto
  then show ?thesis
    using kept_in_time(2,3)[OF assms] jobs.row_of_mem[of "q_table (sy_queue (in_sys s))"]
    by (fastforce simp: exclusive_def apart_def rows_ok_def budget_def)
qed

lemma demo_work:
  "\<exists>s1 j. sys_step (demo_pool (Returned None)) Regular (in_sys (booted a [demo_row])) s1 \<and>
     sy_busy s1 ''worker-0'' = Some (j, Some (HDone (Returned None))) \<and>
     state_of ''j1'' (q_table (sy_queue s1)) = Some StateRunning"
proof -
  let ?p = "demo_pool (Returned None)" and ?s = "in_sys (booted a [demo_row])"
  have inv: "queue_inv (NewQueue [demo_row])" by (simp add: queue_inv_New demo_inv)
  have room: "attempts_room (q_table (NewQueue [demo_row]))" by (simp add: attempts_room_def demo_sel)
  obtain r' q' where c: "claim False (calm 0) ''worker-0'' ?p (NewQueue [demo_row]) = (Inr (Some (fromRow r')), q')"
      "jr_kind r' = ''convert''" "state_of ''j1'' (q_table q') = Some StateRunning"
    by (rule claim_cases[OF inv room calm_sel(2)[of 0 0], where w = "''worker-0''" and p = ?p])
      (auto simp: demo_sel Millis_def claim_row_def runnable_def state_of_def sql_update_def)
  define s1 where "s1 = ?s\<lparr>sy_queue := publish_job (fromRow r') q',
    sy_busy := (sy_busy ?s)(''worker-0'' \<mapsto> (fromRow r', Some (HDone (Returned None))))\<rparr>"
  have "sys_step ?p Regular ?s s1"
    unfolding s1_def by (rule sys_step.start[where env = "calm 0" and h = "\<lambda>_. HDone (Returned None)"])
      (use c in \<open>simp_all add: booted_def fromRow_def\<close>)
  then show ?thesis using c by (intro exI[of _ s1] exI[of _ "fromRow r'"]) (simp add: s1_def)
qed

lemma requests_leave_running_exclusive_witness:
  "\<exists>s j h. inst_reach (demo_deps Default) (demo_pool (Returned None)) {Regular} (booted (demo_auth []) [demo_row]) s \<and>
     sy_busy (in_sys s) ''worker-0'' = Some (j, h) \<and>
     {w. \<exists>j' h'. sy_busy (in_sys s) w = Some (j', h') \<and> job_id j' = job_id j} = {''worker-0''} \<and>
     (\<forall>r \<in> set (q_table (sy_queue (in_sys s))). jr_attempts r \<le> jr_max_attempts r)"
proof -
  let ?p = "demo_pool (Returned None)" and ?d = "demo_deps Default" and ?b = "booted (demo_auth []) [demo_row]"
  obtain s1 j where w: "sys_step ?p Regular (in_sys ?b) s1" "sy_busy s1 ''worker-0'' = Some (j, Some (HDone (Returned None)))"
    using demo_work by blast
  have 1: "inst_reach ?d ?p {Regular} ?b (?b\<lparr>in_sys := s1\<rparr>)" (is "inst_reach _ _ _ _ ?t")
    using w(1) by (intro inst_reach.move[OF inst_reach.start _ inst_step.work]) simp_all
  define s where "s = with_world (snd (serve ?d demo_calls demo_chi Map.empty demo_get (world_of ?t))) ?t"
  have s: "inst_reach ?d ?p {Regular} ?b s"
    unfolding s_def by (rule inst_reach.move[OF 1 _ inst_step.request]) simp
  have b: "sy_busy (in_sys s) ''worker-0'' = Some (j, Some (HDone (Returned None)))" using w(2) by (simp add: s_def)
  have "auth_ok (demo_auth [])" "list_all budget [demo_row]" by (simp_all add: budget_def demo_sel)
  from requests_leave_running_exclusive[OF s this(1) demo_inv(1)] this(2)
  have e: "\<forall>w w' j j' h h'. sy_busy (in_sys s) w = Some (j, h) \<longrightarrow> sy_busy (in_sys s) w' = Some (j', h') \<longrightarrow>
      job_id j = job_id j' \<longrightarrow> w = w'"
    and m: "\<forall>r \<in> set (q_table (sy_queue (in_sys s))). jr_attempts r \<le> jr_max_attempts r" by simp_all
  have "{w. \<exists>j' h'. sy_busy (in_sys s) w = Some (j', h') \<and> job_id j' = job_id j} = {''worker-0''}"
    using e b by blast
  with s b m show ?thesis by blast
qed

text \<open>C2. Every step of the instance moves every job along its life: a job is queued, runs, and ends
  succeeded, failed or cancelled, a run may put it back into the queue, only a job that has ended is
  removed, and no id is used twice. This holds until the reclaimer takes a job from a living
  worker.\<close>

theorem jobs_follow_their_life:
  assumes "inst_reach d p L (booted a t) s" "auth_ok a" "jobs_inv t" "Expires \<notin> L"
    "inst_step d p l s s'" "l \<in> L"
  shows "\<forall>i. state_of i (q_table (sy_queue (in_sys s'))) = state_of i (q_table (sy_queue (in_sys s))) \<or>
    life (state_of i (q_table (sy_queue (in_sys s)))) (state_of i (q_table (sy_queue (in_sys s')))) \<and>
    (state_of i (q_table (sy_queue (in_sys s))) = None \<longrightarrow> i \<notin> sy_issued (in_sys s))"
  using inst_step_moves[OF assms(5) kept_in_time(1,2)[OF assms(1-4)]] assms(4,6) by (auto simp: moves_def)

lemma jobs_follow_their_life_witness:
  "\<exists>s'. inst_step (demo_deps Default) (demo_pool (Returned None)) Regular (booted (demo_auth []) [demo_row]) s' \<and>
     state_of ''j1'' (q_table (sy_queue (in_sys s'))) = Some StateRunning \<and>
     life (Some StateQueued) (state_of ''j1'' (q_table (sy_queue (in_sys s'))))"
proof -
  let ?p = "demo_pool (Returned None)" and ?d = "demo_deps Default" and ?b = "booted (demo_auth []) [demo_row]"
  obtain s1 where w: "sys_step ?p Regular (in_sys ?b) s1" "state_of ''j1'' (q_table (sy_queue s1)) = Some StateRunning"
    using demo_work by blast
  have st: "inst_step ?d ?p Regular ?b (?b\<lparr>in_sys := s1\<rparr>)" by (rule inst_step.work[OF w(1)])
  have "state_of ''j1'' (q_table (sy_queue (in_sys ?b))) = Some StateQueued" by (simp add: state_of_def demo_sel)
  moreover have "auth_ok (demo_auth [])" "Expires \<notin> {Regular}" by simp_all
  note jobs_follow_their_life[OF inst_reach.start this(1) demo_inv(1) this(2) st, THEN spec, of "''j1''"]
  ultimately have "life (Some StateQueued) (state_of ''j1'' (q_table (sy_queue s1)))" using w(2) by simp
  with st w(2) show ?thesis by (intro exI[of _ "?b\<lparr>in_sys := s1\<rparr>"]) simp
qed

lemma inst_reach_settled:
  assumes "inst_reach d p L s s'" "world_ok (world_of s)" "exclusive False (in_sys s)" "Expires \<notin> L"
    "x \<in> {StateSucceeded, StateFailed}" "state_of i (q_table (sy_queue (in_sys s))) = Some x"
  shows "state_of i (q_table (sy_queue (in_sys s'))) \<in> {Some x, None} \<and> i \<in> sy_issued (in_sys s')"
  using assms
proof induction
  case start
  then show ?case by (auto simp: state_of_def exclusive_def rows_ok_def)
next
  case (move s1 l s2)
  have "moves (sy_issued (in_sys s1)) (q_table (sy_queue (in_sys s1))) (q_table (sy_queue (in_sys s2)))"
    using inst_step_moves[OF move(3)] inst_reach_ok[OF move(1)] inst_reach_exclusive[OF move(1)] move(2,5,6,7)
    by (auto simp: world_ok_def)
  then show ?case using moves_settled[of _ _ _ i x] move inst_step_issued[OF move(3)] by blast
qed

text \<open>C3. As long as the reclaimer takes no job from a living worker, a job that has succeeded or
  failed stays that way: through any further requests, steps of the workers, reclaims of abandoned
  jobs, purges, sweeps and crashes it is in the same state or has been purged, and then no other job
  takes its id. (A worker whose job was taken away could overwrite it: the statements that record an
  outcome do not look at the state.)\<close>

theorem settled_jobs_stay_settled:
  assumes "inst_reach d p L (booted a t) s" "auth_ok a" "jobs_inv t" "Expires \<notin> L"
    "state_of i (q_table (sy_queue (in_sys s))) = Some x" "x \<in> {StateSucceeded, StateFailed}"
    "inst_reach d p L s s'"
  shows "state_of i (q_table (sy_queue (in_sys s'))) \<in> {Some x, None}"
  using inst_reach_settled[OF assms(7) _ kept_in_time(2)[OF assms(1-4)] assms(4,6,5)]
    inst_reach_ok[OF assms(1) booted_ok[OF assms(2,3)]] by simp

lemma settled_jobs_stay_settled_witness:
  "state_of ''j1'' (q_table (sy_queue (in_sys (with_world (snd (serve (demo_deps Default) demo_calls demo_chi Map.empty
     demo_get (world_of (booted (demo_auth []) [demo_failed])))) (booted (demo_auth []) [demo_failed]))))) \<in>
   {Some StateFailed, None}"
proof (rule settled_jobs_stay_settled)
  show "inst_reach (demo_deps Default) (demo_pool (Returned None)) {Regular} (booted (demo_auth []) [demo_failed])
      (booted (demo_auth []) [demo_failed])" by (rule inst_reach.start)
  then show "inst_reach (demo_deps Default) (demo_pool (Returned None)) {Regular} (booted (demo_auth []) [demo_failed])
      (with_world (snd (serve (demo_deps Default) demo_calls demo_chi Map.empty demo_get
        (world_of (booted (demo_auth []) [demo_failed])))) (booted (demo_auth []) [demo_failed]))"
    by (rule inst_reach.move[OF _ _ inst_step.request]) simp
qed (simp_all add: demo_failed_inv state_of_def demo_failed_sel)

end
