(* ===== verification/Fixture.thy ===== *)
theory Fixture
  imports Http GoPath Store
begin

text \<open>
  \<open>internal/fixture/fixture.go\<close>: the manifests of test documents and the cache of fetched ones.
  A manifest file is unreadable, not JSON, or a JSON value; \<open>encoding/json\<close>'s way of filling a
  struct from it is spelled out for the kinds of field there are (a manifest names a field at
  most once). The file system is that of \<open>Store\<close>; what the network answers and which calls fail
  are inputs.
\<close>

record fsection =
  fx_code :: string
  fx_title :: string
  fx_printed_page :: int
  fx_pdf_start :: int
  fx_pdf_end :: int
  fx_pages :: int
  fx_boundary_source :: string
  fx_note :: string

record manifest =
  mf_name :: string
  mf_url :: string
  mf_sha256 :: string
  mf_bytes :: int
  mf_pages :: int
  mf_has_text_layer :: bool
  mf_median_chars :: int
  mf_content_starts :: int
  mf_index_pages :: "int list"
  mf_sections :: "fsection list"

definition Section :: "string \<Rightarrow> manifest \<Rightarrow> fsection option" where
  "Section code m = find (\<lambda>s. fx_code s = code) (mf_sections m)"

subsection \<open>Reading a manifest\<close>

definition no_section :: fsection where
  "no_section = \<lparr>fx_code = [], fx_title = [], fx_printed_page = 0, fx_pdf_start = 0, fx_pdf_end = 0,
     fx_pages = 0, fx_boundary_source = [], fx_note = []\<rparr>"

definition no_manifest :: manifest where
  "no_manifest = \<lparr>mf_name = [], mf_url = [], mf_sha256 = [], mf_bytes = 0, mf_pages = 0,
     mf_has_text_layer = False, mf_median_chars = 0, mf_content_starts = 0, mf_index_pages = [],
     mf_sections = []\<rparr>"

definition section_fields :: "string list" where
  "section_fields = [''code'', ''title'', ''printed_page'', ''pdf_start'', ''pdf_end'', ''pages'',
     ''boundary_source'', ''note'']"

definition section_member :: "string \<times> json \<Rightarrow> fsection \<Rightarrow> fsection option" where
  "section_member kv s =
     (case (field_of section_fields (fst kv), snd kv) of
        (None, _) \<Rightarrow> Some s
      | (Some f, JNull) \<Rightarrow> Some s
      | (Some f, JStr v) \<Rightarrow>
          if f = ''code'' then Some (s\<lparr>fx_code := v\<rparr>)
          else if f = ''title'' then Some (s\<lparr>fx_title := v\<rparr>)
          else if f = ''boundary_source'' then Some (s\<lparr>fx_boundary_source := v\<rparr>)
          else if f = ''note'' then Some (s\<lparr>fx_note := v\<rparr>)
          else None
      | (Some f, JNum v) \<Rightarrow>
          (case atoi v of
             None \<Rightarrow> None
           | Some n \<Rightarrow>
               if f = ''printed_page'' then Some (s\<lparr>fx_printed_page := n\<rparr>)
               else if f = ''pdf_start'' then Some (s\<lparr>fx_pdf_start := n\<rparr>)
               else if f = ''pdf_end'' then Some (s\<lparr>fx_pdf_end := n\<rparr>)
               else if f = ''pages'' then Some (s\<lparr>fx_pages := n\<rparr>)
               else None)
      | _ \<Rightarrow> None)"

fun fold_members :: "(string \<times> json \<Rightarrow> 's \<Rightarrow> 's option) \<Rightarrow> (string \<times> json) list \<Rightarrow> 's \<Rightarrow> 's option" where
  "fold_members f [] s = Some s"
| "fold_members f (kv # kvs) s = (case f kv s of None \<Rightarrow> None | Some s' \<Rightarrow> fold_members f kvs s')"

fun all_some :: "'a option list \<Rightarrow> 'a list option" where
  "all_some [] = Some []"
| "all_some (None # xs) = None"
| "all_some (Some x # xs) = map_option (\<lambda>ys. x # ys) (all_some xs)"

definition int_item :: "json \<Rightarrow> int option" where
  "int_item v = (case v of JNum n \<Rightarrow> atoi n | JNull \<Rightarrow> Some 0 | _ \<Rightarrow> None)"

definition section_item :: "json \<Rightarrow> fsection option" where
  "section_item v =
     (case v of
        JObj kvs \<Rightarrow> fold_members section_member kvs no_section
      | JNull \<Rightarrow> Some no_section
      | _ \<Rightarrow> None)"

definition manifest_fields :: "string list" where
  "manifest_fields = [''name'', ''url'', ''sha256'', ''bytes'', ''pages'', ''has_text_layer'',
     ''median_chars_per_page'', ''content_starts_on_pdf_page'', ''index_pages'', ''sections'']"

definition manifest_member :: "string \<times> json \<Rightarrow> manifest \<Rightarrow> manifest option" where
  "manifest_member kv m =
     (case (field_of manifest_fields (fst kv), snd kv) of
        (None, _) \<Rightarrow> Some m
      | (Some f, JNull) \<Rightarrow> Some m
      | (Some f, JStr v) \<Rightarrow>
          if f = ''name'' then Some (m\<lparr>mf_name := v\<rparr>)
          else if f = ''url'' then Some (m\<lparr>mf_url := v\<rparr>)
          else if f = ''sha256'' then Some (m\<lparr>mf_sha256 := v\<rparr>)
          else None
      | (Some f, JNum v) \<Rightarrow>
          (case atoi v of
             None \<Rightarrow> None
           | Some n \<Rightarrow>
               if f = ''bytes'' then Some (m\<lparr>mf_bytes := n\<rparr>)
               else if f = ''pages'' then Some (m\<lparr>mf_pages := n\<rparr>)
               else if f = ''median_chars_per_page'' then Some (m\<lparr>mf_median_chars := n\<rparr>)
               else if f = ''content_starts_on_pdf_page'' then Some (m\<lparr>mf_content_starts := n\<rparr>)
               else None)
      | (Some f, JBool v) \<Rightarrow> if f = ''has_text_layer'' then Some (m\<lparr>mf_has_text_layer := v\<rparr>) else None
      | (Some f, JList vs) \<Rightarrow>
          if f = ''index_pages'' then map_option (\<lambda>ns. m\<lparr>mf_index_pages := ns\<rparr>) (all_some (map int_item vs))
          else if f = ''sections'' then map_option (\<lambda>ss. m\<lparr>mf_sections := ss\<rparr>) (all_some (map section_item vs))
          else None
      | _ \<Rightarrow> None)"

datatype fixture_file = Unreadable | NotJson | Json json

datatype fixture_error =
    ReadFailed string
  | ParseFailed string
  | MissingFields string
  | CacheDirFailed
  | FetchFailed string

definition Load_fixture :: "(string \<Rightarrow> fixture_file) \<Rightarrow> string \<Rightarrow> string \<Rightarrow> fixture_error + manifest" where
  "Load_fixture rd dir name =
     (let path = path_join [dir, name @ ''.json''] in
      case rd path of
        Unreadable \<Rightarrow> Inl (ReadFailed path)
      | NotJson \<Rightarrow> Inl (ParseFailed path)
      | Json v \<Rightarrow>
          (case (case v of JObj kvs \<Rightarrow> fold_members manifest_member kvs no_manifest
                 | JNull \<Rightarrow> Some no_manifest | _ \<Rightarrow> None) of
             None \<Rightarrow> Inl (ParseFailed path)
           | Some m \<Rightarrow>
               if mf_name m = [] \<or> mf_url m = [] \<or> mf_sha256 m = [] then Inl (MissingFields path)
               else Inr m))"

subsection \<open>Fetching\<close>

datatype fetch_call = FMkdir | FRemoveOld | FRequest | FDo | FCreate | FCopy | FClose | FRename | FRemoveTemp

record fetch_env =
  fe_cache :: "string option"
  fe_temp :: string
  fe_fails :: "fetch_call \<Rightarrow> bool"
  fe_read_fails :: bool
  fe_status :: nat
  fe_body :: bytes
  fe_suffix :: string

definition cache_dir_path :: "fetch_env \<Rightarrow> string" where
  "cache_dir_path env =
     path_join [case fe_cache env of Some b \<Rightarrow> b | None \<Rightarrow> fe_temp env, ''manualbox'', ''test-fixtures'']"

definition CacheDir :: "fetch_env \<Rightarrow> fsys \<Rightarrow> (fixture_error + string) \<times> fsys" where
  "CacheDir env fs =
     (let dir = cache_dir_path env in
      if fe_fails env FMkdir then (Inl CacheDirFailed, fs) else (Inr dir, fs_mkdir [dir] fs))"

definition fileSHA256 :: "bool \<Rightarrow> string \<Rightarrow> fsys \<Rightarrow> string option" where
  "fileSHA256 read_fails path fs =
     (case fs_files fs path of
        None \<Rightarrow> None
      | Some b \<Rightarrow> if read_fails then None else Some (hex (sha256 b)))"

definition fixture_path :: "string \<Rightarrow> manifest \<Rightarrow> string" where
  "fixture_path dir m = path_join [dir, mf_sha256 m @ path_ext (mf_name m) @ ''.pdf'']"

text \<open>
  A fetch from the point where nothing usable is cached. The third component of the result lists
  the file systems on the way; \<open>fe_body\<close> are the bytes that arrive, all of them unless the copy
  fails. The deferred clean-up removes the temporary file, unless that fails too.
\<close>

definition drop_download :: "fetch_env \<Rightarrow> string \<Rightarrow> fsys \<Rightarrow> fsys" where
  "drop_download env tmp fs = (if fe_fails env FRemoveTemp then fs else fs_remove tmp fs)"

definition download :: "fetch_env \<Rightarrow> manifest \<Rightarrow> string \<Rightarrow> string \<Rightarrow> fsys
    \<Rightarrow> (fixture_error + string) \<times> fsys \<times> fsys list" where
  "download env m dir path fs =
     (if fe_fails env FRequest then (Inl (FetchFailed ''build request''), fs, [])
      else if fe_fails env FDo then (Inl (FetchFailed ''download''), fs, [])
      else if fe_status env \<noteq> 200 then (Inl (FetchFailed ''download returned''), fs, [])
      else if fe_fails env FCreate then (Inl (FetchFailed ''create temp file''), fs, [])
      else
        let tmp = path_join [dir, ''download-'' @ fe_suffix env];
            fs1 = fs_write tmp (fe_body env) fs in
        if fe_fails env FCopy then (Inl (FetchFailed ''write''), drop_download env tmp fs1, [fs1])
        else if fe_fails env FClose then (Inl (FetchFailed ''close''), drop_download env tmp fs1, [fs1])
        else if hex (sha256 (fe_body env)) \<noteq> mf_sha256 m
          then (Inl (FetchFailed ''checksum mismatch''), drop_download env tmp fs1, [fs1])
        else if fe_fails env FRename
          then (Inl (FetchFailed ''commit to cache''), drop_download env tmp fs1, [fs1])
        else
          let fs2 = fs_rename tmp path fs1
          in (Inr path, drop_download env tmp fs2, [fs1, fs2]))"

definition Fetch :: "fetch_env \<Rightarrow> manifest \<Rightarrow> fsys \<Rightarrow> (fixture_error + string) \<times> fsys \<times> fsys list" where
  "Fetch env m fs =
     (case CacheDir env fs of
        (Inl e, fs0) \<Rightarrow> (Inl e, fs0, [])
      | (Inr dir, fs0) \<Rightarrow>
          let path = fixture_path dir m in
          (case fileSHA256 (fe_read_fails env) path fs0 of
             None \<Rightarrow> download env m dir path fs0
           | Some got \<Rightarrow>
               if got = mf_sha256 m then (Inr path, fs0, [])
               else download env m dir path
                 (if fe_fails env FRemoveOld then fs0 else fs_remove path fs0)))"

subsection \<open>What a fetch leaves in the cache\<close>

definition verified :: "manifest \<Rightarrow> bytes \<Rightarrow> bool" where
  "verified m b \<longleftrightarrow> hex (sha256 b) = mf_sha256 m"

lemma fs_files_simps [simp]:
  "fs_files (fs_write p b fs) = (fs_files fs)(p \<mapsto> b)" "fs_files (fs_remove p fs) = (fs_files fs)(p := None)"
  "fs_files (fs_mkdir ds fs) = fs_files fs"
  by (simp_all add: fs_write_def fs_remove_def fs_mkdir_def)

lemma fs_files_rename [simp]:
  "fs_files fs p = Some b \<Longrightarrow> fs_files (fs_rename p q fs) = (fs_files fs)(q \<mapsto> b, p := None)"
  by (simp add: fs_rename_def)

lemma download_Inr:
  assumes "download env m dir path fs = (Inr p, fs', states)" "path_join [dir, ''download-'' @ fe_suffix env] \<noteq> path"
  shows "p = path \<and> (\<exists>b. fs_files fs' p = Some b \<and> verified m b)"
  using assms by (auto simp: download_def drop_download_def Let_def verified_def split: if_splits)

lemma download_states:
  assumes "download env m dir path fs = (x, fs', states)" "path_join [dir, ''download-'' @ fe_suffix env] \<noteq> path"
    and "s \<in> set (fs' # states)"
  shows "fs_files s path = fs_files fs path \<or> (\<exists>b. fs_files s path = Some b \<and> verified m b)"
  using assms by (auto simp: download_def drop_download_def Let_def verified_def split: if_splits)

text \<open>The temporary file never has the name of a cached document.\<close>

lemma path_ext_slash: "slash \<notin> set (path_ext p)"
  by (auto simp: path_ext_def Let_def dest: set_takeWhileD)

lemma long_proper: "slash \<notin> set s \<Longrightarrow> 2 < length s \<Longrightarrow> proper_part s"
  by (auto simp: proper_part_def)

lemma tmp_is_not_cached:
  assumes "prefix ''/'' (cache_dir_path env)" "slash \<notin> set (fe_suffix env)"
    and "\<forall>c \<in> set (mf_sha256 m). is_hex c" "2 \<le> length (mf_sha256 m)"
  shows "path_join [cache_dir_path env, ''download-'' @ fe_suffix env] \<noteq> fixture_path (cache_dir_path env) m"
proof -
  let ?x = "''download-'' @ fe_suffix env" and ?y = "mf_sha256 m @ path_ext (mf_name m) @ ''.pdf''"
  have "\<not> is_hex slash" "\<not> is_hex (CHR ''o'')" by code_simp+
  moreover have "is_hex (mf_sha256 m ! 1)" using assms(3,4) by simp
  then have "mf_sha256 m ! 1 \<noteq> CHR ''o''" using \<open>\<not> is_hex (CHR ''o'')\<close> by metis
  ultimately have y: "slash \<notin> set ?y" "?y ! 1 \<noteq> CHR ''o''"
    using assms(3,4) path_ext_slash[of "mf_name m"] by (auto simp: nth_append)
  have "?x \<noteq> ?y" using y(2) by (metis append_Cons nth_Cons_0 nth_Cons_Suc One_nat_def)
  moreover have "proper_part ?x" "proper_part ?y"
    using assms(2) y(1) by (intro long_proper; simp)+
  ultimately show ?thesis
    using path_join_inject[OF assms(1)] by (simp add: fixture_path_def)
qed

lemma Fetch_cases:
  fixes env m fs
  defines "dir \<equiv> cache_dir_path env" and "path \<equiv> fixture_path (cache_dir_path env) m"
    and "fs0 \<equiv> fs_mkdir [cache_dir_path env] fs"
  assumes "Fetch env m fs = (x, fs', states)" "\<not> fe_fails env FMkdir"
  obtains (hit) "x = Inr path" "fs' = fs0" "states = []" "fileSHA256 (fe_read_fails env) path fs0 = Some (mf_sha256 m)"
    | (miss) fs1 where "download env m dir path fs1 = (x, fs', states)" "fs1 = fs0 \<or> fs1 = fs_remove path fs0"
proof (cases "fileSHA256 (fe_read_fails env) path fs0")
  case None
  then have "Fetch env m fs = download env m dir path fs0"
    using assms(5) unfolding dir_def path_def fs0_def by (simp only: Fetch_def CacheDir_def Let_def if_False prod.case sum.case option.case)
  then show ?thesis using assms(4) by (intro that(2)[of fs0]) simp_all
next
  case (Some got)
  have f: "Fetch env m fs = (if got = mf_sha256 m then (Inr path, fs0, [])
      else download env m dir path (if fe_fails env FRemoveOld then fs0 else fs_remove path fs0))"
    using assms(5) Some unfolding dir_def path_def fs0_def by (simp only: Fetch_def CacheDir_def Let_def if_False prod.case sum.case option.case)
  show ?thesis
  proof (cases "got = mf_sha256 m")
    case True
    then show ?thesis using f Some assms(4) by (intro that(1)) simp_all
  next
    case False
    then show ?thesis using f assms(4)
      by (intro that(2)[of "if fe_fails env FRemoveOld then fs0 else fs_remove path fs0"]) simp_all
  qed
qed

subsection \<open>Properties\<close>

text \<open>C24. A fetch that succeeds names a file whose content has the manifest's checksum, whether it was
  cached or downloaded; and at every moment of any fetch, interrupted anywhere, the cached file is
  what it was before, or absent, or verified: the fetch never puts a half-written or a foreign
  document there. A damaged document from before can stay, when it cannot be removed and the download
  fails; such a fetch does not succeed.\<close>

theorem Fetch_caches_only_verified_bytes:
  assumes "Fetch env m fs = (x, fs', states)"
    and "path_join [cache_dir_path env, ''download-'' @ fe_suffix env] \<noteq> fixture_path (cache_dir_path env) m"
  shows "(\<forall>p. x = Inr p \<longrightarrow> p = fixture_path (cache_dir_path env) m \<and>
      (\<exists>b. fs_files fs' p = Some b \<and> hex (sha256 b) = mf_sha256 m)) \<and>
    (\<forall>s \<in> set (fs' # states). case fs_files s (fixture_path (cache_dir_path env) m) of
        None \<Rightarrow> True
      | Some b \<Rightarrow> fs_files fs (fixture_path (cache_dir_path env) m) = Some b \<or> hex (sha256 b) = mf_sha256 m)"
proof (cases "fe_fails env FMkdir")
  case True
  then show ?thesis using assms(1) by (auto simp: Fetch_def CacheDir_def split: option.split)
next
  case False
  let ?dir = "cache_dir_path env" let ?path = "fixture_path ?dir m" let ?fs0 = "fs_mkdir [?dir] fs"
  from assms(1) False show ?thesis
  proof (cases rule: Fetch_cases)
    case hit
    then show ?thesis by (auto simp: fileSHA256_def split: option.splits if_splits)
  next
    case (miss fs1)
    have old: "fs_files fs1 ?path = fs_files fs ?path \<or> fs_files fs1 ?path = None"
      using miss(2) by auto
    have "p = ?path \<and> (\<exists>b. fs_files fs' p = Some b \<and> hex (sha256 b) = mf_sha256 m)" if "x = Inr p" for p
      using download_Inr[OF _ assms(2)] miss(1) that by (auto simp: verified_def)
    moreover have "case fs_files s ?path of None \<Rightarrow> True
      | Some b \<Rightarrow> fs_files fs ?path = Some b \<or> hex (sha256 b) = mf_sha256 m" if "s \<in> set (fs' # states)" for s
      using download_states[OF miss(1) assms(2) that] old by (auto simp: verified_def split: option.split)
    ultimately show ?thesis by blast
  qed
qed

definition demo_fetch :: fetch_env where
  "demo_fetch = \<lparr>fe_cache = Some ''/c'', fe_temp = ''/tmp'', fe_fails = (\<lambda>_. False), fe_read_fails = False,
     fe_status = 200, fe_body = ''doc'', fe_suffix = ''1''\<rparr>"

definition demo_manifest :: manifest where
  "demo_manifest = no_manifest\<lparr>mf_name := ''m'', mf_url := ''u'', mf_sha256 := Digest ''doc''\<rparr>"

lemma Fetch_caches_only_verified_bytes_witness:
  "\<exists>p fs' states b. Fetch demo_fetch demo_manifest empty_fs = (Inr p, fs', states) \<and>
     fs_files fs' p = Some b \<and> hex (sha256 b) = Digest ''doc''"
proof -
  have dir: "prefix ''/'' (cache_dir_path demo_fetch)" by code_simp
  have "mf_sha256 demo_manifest = Digest ''doc''" by (simp add: demo_manifest_def)
  moreover have "(\<forall>c \<in> set (Digest ''doc''). is_hex c) \<and> length (Digest ''doc'') = 64"
    using Digest_valid ValidDigest_iff by blast
  ultimately have ne: "path_join [cache_dir_path demo_fetch, ''download-'' @ fe_suffix demo_fetch] \<noteq>
      fixture_path (cache_dir_path demo_fetch) demo_manifest"
    by (intro tmp_is_not_cached[OF dir]) (simp_all add: demo_fetch_def)
  obtain x fs' states where f: "Fetch demo_fetch demo_manifest empty_fs = (x, fs', states)"
    by (metis prod.exhaust)
  have "\<not> fe_fails demo_fetch k" "fe_status demo_fetch = 200" "fe_body demo_fetch = ''doc''" for k
    by (simp_all add: demo_fetch_def)
  then have "x = Inr (fixture_path (cache_dir_path demo_fetch) demo_manifest)"
    using f by (simp add: Fetch_def CacheDir_def Let_def fileSHA256_def download_def empty_fs_def demo_manifest_def
      Digest_def)
  then show ?thesis
    using Fetch_caches_only_verified_bytes[OF f ne] f by (auto simp: demo_manifest_def)
qed

end
