(* ===== verification/Cli.thy ===== *)
theory Cli
  imports Api Store
begin

text \<open>
  \<open>cmd/manualbox/main.go\<close>: the commands. The operating system's answers (the home directory, the
  outcome of creating and writing files, the search path and the tools on it) are inputs. What
  \<open>doctor\<close> prints is a list of lines and of tables, before \<open>tabwriter\<close> pads the columns of a
  table; a use of the flag package that prints its own message is \<open>FlagMessage\<close>.
\<close>

subsection \<open>Flags\<close>

datatype flag_kind = StringFlag | BoolFlag

datatype flag_error =
    HelpAsked
  | BadSyntax string
  | UnknownFlag string
  | BadBool string string
  | NeedsArgument string

definition parse_bool :: "string \<Rightarrow> bool option" where
  "parse_bool s =
     (if s \<in> {''1'', ''t'', ''T'', ''TRUE'', ''true'', ''True''} then Some True
      else if s \<in> {''0'', ''f'', ''F'', ''FALSE'', ''false'', ''False''} then Some False
      else None)"

text \<open>
  \<open>FlagSet.Parse\<close>: one or two dashes, the value after an equals sign or, for a string flag, in the
  next argument; it stops at the first argument that is not a flag and after a lone double dash.
\<close>

definition flag_name :: "string \<Rightarrow> string" where
  "flag_name s = (case cut_prefix s ''--'' of Some n \<Rightarrow> n | None \<Rightarrow> drop 1 s)"

definition split_flag :: "string \<Rightarrow> string \<times> string option" where
  "split_flag name =
     (case cut_at (CHR ''='') (tl name) of
        None \<Rightarrow> (name, None) | Some (n, v) \<Rightarrow> (hd name # n, Some v))"

fun parse_flags ::
  "(string \<rightharpoonup> flag_kind) \<Rightarrow> string list \<Rightarrow> (string \<rightharpoonup> string) \<Rightarrow> flag_error + (string \<rightharpoonup> string)" where
  "parse_flags kinds [] vals = Inr vals"
| "parse_flags kinds (s # rest) vals =
     (if length s < 2 \<or> hd s \<noteq> CHR ''-'' \<or> s = ''--'' then Inr vals
      else if flag_name s = [] \<or> hd (flag_name s) = CHR ''-'' \<or> hd (flag_name s) = CHR ''=''
        then Inl (BadSyntax s)
      else
        (case split_flag (flag_name s) of (name, value) \<Rightarrow>
         (case (kinds name, value, rest) of
            (None, _, _) \<Rightarrow> if name = ''help'' \<or> name = ''h'' then Inl HelpAsked else Inl (UnknownFlag name)
          | (Some BoolFlag, None, _) \<Rightarrow> parse_flags kinds rest (vals(name \<mapsto> ''true''))
          | (Some BoolFlag, Some v, _) \<Rightarrow>
              (case parse_bool v of
                 None \<Rightarrow> Inl (BadBool v name)
               | Some b \<Rightarrow> parse_flags kinds rest (vals(name \<mapsto> (if b then ''true'' else ''false''))))
          | (Some StringFlag, Some v, _) \<Rightarrow> parse_flags kinds rest (vals(name \<mapsto> v))
          | (Some StringFlag, None, v # rest') \<Rightarrow> parse_flags kinds rest' (vals(name \<mapsto> v))
          | (Some StringFlag, None, []) \<Rightarrow> Inl (NeedsArgument name))))"

subsection \<open>Errors and the environment\<close>

datatype cli_error =
    NoCommand
  | UnknownCommand string
  | FlagFailed flag_error
  | LoadFailed load_error
  | DataDirError string
  | DataDirNotWritable
  | OpenDbFailed open_error
  | StoreFailed store_error
  | ServeFailed string

record cli_env =
  ce_load :: load_env
  ce_home :: "string option"
  ce_mkdir :: "string \<Rightarrow> string option"
  ce_write :: "string \<Rightarrow> string option"
  ce_remove :: "string \<Rightarrow> string option"
  ce_look_path :: "string \<rightharpoonup> string"
  ce_tool_output :: "tool \<Rightarrow> string"
  ce_goos :: string

definition loadConfigWithFlags ::
  "cli_env \<Rightarrow> (string \<rightharpoonup> flag_kind) \<Rightarrow> string list \<Rightarrow> cli_error + config \<times> (string \<rightharpoonup> string)" where
  "loadConfigWithFlags env extra args =
     (case parse_flags (extra(''config'' \<mapsto> StringFlag)) args Map.empty of
        Inl e \<Rightarrow> Inl (FlagFailed e)
      | Inr vals \<Rightarrow>
          (case Load (ce_load env) (case vals ''config'' of None \<Rightarrow> [] | Some p \<Rightarrow> p) of
             (c, None) \<Rightarrow> Inr (c, vals)
           | (_, Some e) \<Rightarrow> Inl (LoadFailed e)))"

definition loadConfig :: "cli_env \<Rightarrow> string list \<Rightarrow> cli_error + config" where
  "loadConfig env args =
     (case loadConfigWithFlags env Map.empty args of Inl e \<Rightarrow> Inl e | Inr (c, _) \<Rightarrow> Inr c)"

subsection \<open>Redaction\<close>

type_synonym redactor = string

definition newRedactor :: "cli_env \<Rightarrow> bool \<Rightarrow> redactor" where
  "newRedactor env enabled =
     (if \<not> enabled then []
      else case ce_home env of
        None \<Rightarrow> []
      | Some home \<Rightarrow> if home = [] \<or> home = ''/'' then [] else home)"

definition mentions :: "string \<Rightarrow> string \<Rightarrow> bool" where
  "mentions p s \<longleftrightarrow> list_ex (prefix s) (suffixes p)"

definition tmp_mark :: string where
  "tmp_mark = map char_of [194, 171 :: nat] @ ''tmp'' @ map char_of [194, 187 :: nat]"

definition from_last_slash :: "string \<Rightarrow> string" where
  "from_last_slash p = slash # rev (takeWhile (\<lambda>c. c \<noteq> slash) (rev p))"

definition redact_path :: "redactor \<Rightarrow> string \<Rightarrow> string" where
  "redact_path home p =
     (if home = [] then p
      else case cut_prefix p home of
        Some rest \<Rightarrow> CHR ''~'' # rest
      | None \<Rightarrow> if mentions p ''/var/folders/'' then tmp_mark @ from_last_slash p else p)"

subsection \<open>The data directory\<close>

fun first_error :: "(string \<Rightarrow> string option) \<Rightarrow> string list \<Rightarrow> (string \<times> string) option" where
  "first_error f [] = None"
| "first_error f (d # ds) = (case f d of Some e \<Rightarrow> Some (d, e) | None \<Rightarrow> first_error f ds)"

definition ensureDataDir :: "cli_env \<Rightarrow> config \<Rightarrow> string option" where
  "ensureDataDir env cfg =
     (let dir = sc_data_dir (cf_server cfg) in
      case first_error (ce_mkdir env) [dir, BlobDir cfg] of
        Some (d, e) \<Rightarrow> Some (''create '' @ d @ '': '' @ e)
      | None \<Rightarrow>
          let probe = path_join [dir, ''.write-test''] in
          (case ce_write env probe of
             Some e \<Rightarrow> Some (''data directory '' @ dir @ '' is not writable: '' @ e)
           | None \<Rightarrow> ce_remove env probe))"

text \<open>The helpers at the end of the file.\<close>

definition pluralize :: "nat \<Rightarrow> string \<Rightarrow> string \<Rightarrow> string" where
  "pluralize n one many = (if n = 1 then one else many)"

definition join_loop :: "nat \<times> string \<Rightarrow> string \<Rightarrow> nat \<times> string" where
  "join_loop st s = (case st of (i, out) \<Rightarrow> (i + 1, (if i > 0 then out @ '', '' else out) @ s))"

definition join_strings :: "string list \<Rightarrow> string" where
  "join_strings ss = snd (foldl join_loop (0, []) ss)"

lemma join_strings_eq: "join_strings ss = join_with '', '' ss"
proof (cases ss)
  case (Cons x xs)
  have "snd (foldl join_loop (Suc n, out) xs) = out @ concat (map ((@) '', '') xs)" for n out
    by (induction xs arbitrary: n out) (simp_all add: join_loop_def)
  moreover have "join_with '', '' (x # xs) = x @ concat (map ((@) '', '') xs)"
    by (induction xs arbitrary: x) simp_all
  ultimately show ?thesis using Cons by (simp add: join_strings_def join_loop_def)
qed (simp add: join_strings_def)

subsection \<open>Doctor\<close>

datatype printed =
    Line string
  | Table string "string list list"
  | FlagMessage flag_error
  | Usage

definition config_rows :: "redactor \<Rightarrow> config \<Rightarrow> string \<Rightarrow> string list list" where
  "config_rows r cfg note_text =
     [[''  data dir'', redact_path r (sc_data_dir (cf_server cfg)), note_text],
      [''  database'', redact_path r (DBPath cfg), []],
      [''  blobs'', redact_path r (BlobDir cfg), []],
      [''  listen'', sc_addr (cf_server cfg), []],
      [''  base url'', sc_base_url (cf_server cfg), []],
      [''  languages'', join_strings (cc_languages (cf_content cfg)), []],
      [''  ocr languages'', join_strings (cc_ocr_languages (cf_content cfg)), []]]"

definition provider_row :: "string \<times> provider \<times> string \<Rightarrow> string list" where
  "provider_row slot =
     (case slot of (name, p, disabled) \<Rightarrow>
        if \<not> Enabled p then [''  '' @ name, ''(not configured)'', disabled]
        else
          let detail = pv_kind p @ (if pv_model p \<noteq> [] then '' / '' @ pv_model p else []);
              notes = (if Set_secret (pv_api_key p) then [''api key set''] else []) @
                (if pv_base_url p \<noteq> [] then [pv_base_url p] else [])
          in [''  '' @ name, detail, join_strings notes])"

definition provider_rows :: "config \<Rightarrow> string list list" where
  "provider_rows cfg =
     (let ps = cf_providers cfg in
      map provider_row
        [(''convert'', ps_convert ps, ''document conversion unavailable''),
         (''ocr'', ps_ocr ps, ''OCR disabled''),
         (''translate'', ps_translate ps, ''translation disabled''),
         (''extract'', ps_extract ps, ''maintenance extraction disabled'')])"

definition tool_rows :: "string \<Rightarrow> tool_status \<Rightarrow> string list list" where
  "tool_rows goos s =
     (let name = tl_name (ts_tool s); purpose = tl_purpose (ts_tool s) in
      if ts_found s then [[''  ok'', name @ '' '' @ ts_version s, purpose]]
      else [[''  --'', name @ '' (missing)'', purpose], [''  '', [], ''install: '' @ InstallHint goos s]])"

definition providers_off :: "config \<Rightarrow> string list" where
  "providers_off cfg =
     (if Enabled (ps_translate (cf_providers cfg)) then [] else [''translation'']) @
     (if Enabled (ps_extract (cf_providers cfg)) then [] else [''maintenance extraction''])"

definition version_line :: "string \<Rightarrow> string \<Rightarrow> string" where
  "version_line version commit = ''manualbox '' @ version @ '' ('' @ commit @ '')''"

text \<open>The report on a configuration, and whether the data directory can be written.\<close>

definition doctor_report :: "cli_env \<Rightarrow> string \<Rightarrow> string \<Rightarrow> redactor \<Rightarrow> config \<Rightarrow> printed list \<times> cli_error option" where
  "doctor_report env version commit r cfg =
     (let dir_error = ensureDataDir env cfg;
          note_text = (case dir_error of None \<Rightarrow> ''writable'' | Some e \<Rightarrow> ''NOT WRITABLE: '' @ e);
          statuses = ProbeAll (ce_look_path env) (ce_tool_output env);
          available = length (filter ts_found statuses);
          off = providers_off cfg
      in ([Line (version_line version commit), Line [],
           Table ''Configuration'' (config_rows r cfg note_text), Line [],
           Table ''Providers'' (provider_rows cfg), Line [],
           Table ''External tools'' (concat (map (tool_rows (ce_goos env)) statuses)), Line [],
           Line (dec available @ '' of '' @ dec (length statuses) @ '' optional external tools available.'')] @
          (if available < length statuses
           then [Line ''Missing tools only disable the features that need them; manualbox still runs.''] else []) @
          (if off \<noteq> []
           then [Line (''No provider configured for: '' @ join_strings off @
             ''. Everything else works; set one to enable '' @ pluralize (length off) ''it'' ''them'' @ ''.'')]
           else []),
          if dir_error = None then None else Some DataDirNotWritable))"

definition cmdDoctor :: "cli_env \<Rightarrow> string \<Rightarrow> string \<Rightarrow> string list \<Rightarrow> printed list \<times> cli_error option" where
  "cmdDoctor env version commit args =
     (case loadConfigWithFlags env [''redact'' \<mapsto> BoolFlag] args of
        Inl (FlagFailed e) \<Rightarrow> ([FlagMessage e], Some (FlagFailed e))
      | Inl e \<Rightarrow> ([], Some e)
      | Inr (cfg, vals) \<Rightarrow> doctor_report env version commit (newRedactor env (vals ''redact'' = Some ''true'')) cfg)"

subsection \<open>Paths below the data directory\<close>

definition with_dir :: "string \<Rightarrow> config \<Rightarrow> config" where
  "with_dir dir cfg = cfg\<lparr>cf_server := (cf_server cfg)\<lparr>sc_data_dir := dir\<rparr>\<rparr>"

lemma with_dir_sel [simp]:
  "sc_data_dir (cf_server (with_dir dir cfg)) = dir" "sc_addr (cf_server (with_dir dir cfg)) = sc_addr (cf_server cfg)"
  "sc_base_url (cf_server (with_dir dir cfg)) = sc_base_url (cf_server cfg)"
  "cf_content (with_dir dir cfg) = cf_content cfg" "cf_providers (with_dir dir cfg) = cf_providers cfg"
  by (simp_all add: with_dir_def)

lemma join_with_snoc: "ps \<noteq> [] \<Longrightarrow> join_with sep (ps @ [x]) = join_with sep ps @ sep @ x"
  by (induction sep ps rule: join_with.induct) auto

lemma path_join_clean:
  assumes "prefix ''/'' dir" "path_clean dir = dir" "dir \<noteq> ''/''" "proper_part x"
  shows "path_join [dir, x] = dir @ slash # x"
proof -
  have d: "dir = slash # join_with ''/'' (clean_parts dir)" using assms(1,2) path_clean_rooted by simp
  then have ne: "clean_parts dir \<noteq> []" using assms(3) by auto
  have "prefix ''/'' (join_with ''/'' (filter (\<lambda>p. p \<noteq> []) [dir, x]))"
    using assms(1,4) by (cases dir) (auto simp: proper_part_def prefix_def)
  then have r: "prefix ''/'' (path_join [dir, x])" "path_clean (path_join [dir, x]) = path_join [dir, x]"
    using path_clean_idem by (auto simp: path_join_def Let_def path_clean_rooted)
  then have "path_join [dir, x] = slash # join_with ''/'' (clean_parts (path_join [dir, x]))"
    using path_clean_rooted by metis
  also have "\<dots> = (slash # join_with ''/'' (clean_parts dir)) @ slash # x"
    unfolding clean_parts_join[OF assms(1,4)] using join_with_snoc[OF ne] by simp
  finally show ?thesis using d by simp
qed

lemma proper_names: "proper_part ''manualbox.db''" "proper_part ''blobs''"
  by code_simp+

lemma redact_home: "home \<noteq> [] \<Longrightarrow> redact_path home (home @ rest) = CHR ''~'' # rest"
  by (simp add: redact_path_def cut_prefix_Some_iff[THEN iffD2])

lemma redact_below:
  assumes "prefix ''/'' (home @ rest)" "path_clean (home @ rest) = home @ rest" "home \<notin> {[], ''/''}"
  shows "redact_path home (home @ rest) = CHR ''~'' # rest"
    "redact_path home (DBPath (with_dir (home @ rest) cfg)) = CHR ''~'' # rest @ ''/manualbox.db''"
    "redact_path home (BlobDir (with_dir (home @ rest) cfg)) = CHR ''~'' # rest @ ''/blobs''"
proof -
  have "home @ rest \<noteq> ''/''" using assms(3) by (auto simp: append_eq_Cons_conv)
  note j = path_join_clean[OF assms(1,2) this]
  show "redact_path home (home @ rest) = CHR ''~'' # rest" using assms(3) redact_home by simp
  show "redact_path home (DBPath (with_dir (home @ rest) cfg)) = CHR ''~'' # rest @ ''/manualbox.db''"
    using assms(3) redact_home[of home "rest @ ''/manualbox.db''"] by (simp add: DBPath_def j[OF proper_names(1)])
  show "redact_path home (BlobDir (with_dir (home @ rest) cfg)) = CHR ''~'' # rest @ ''/blobs''"
    using assms(3) redact_home[of home "rest @ ''/blobs''"] by (simp add: BlobDir_def j[OF proper_names(2)])
qed

subsection \<open>The forms of a flag\<close>

lemma flag_forms:
  assumes "kinds ''config'' = Some StringFlag"
  shows "parse_flags kinds (''-config'' # p # rest) vals = parse_flags kinds rest (vals(''config'' \<mapsto> p))"
    "parse_flags kinds (''--config'' # p # rest) vals = parse_flags kinds rest (vals(''config'' \<mapsto> p))"
    "parse_flags kinds ((''-config='' @ p) # rest) vals = parse_flags kinds rest (vals(''config'' \<mapsto> p))"
    "parse_flags kinds ((''--config='' @ p) # rest) vals = parse_flags kinds rest (vals(''config'' \<mapsto> p))"
  using assms
  by (simp_all add: flag_name_def split_flag_def cut_prefix_def cut_at_def split: prod.split)

subsection \<open>Properties\<close>

text \<open>What \<open>doctor -redact\<close> prints says nothing about whose machine it is: two people whose data
  directories lie at the same place below their home directories get the same report, when the
  directories can be written.\<close>

lemma redacted_report_hides_home:
  assumes "prefix ''/'' (h1 @ rest)" "path_clean (h1 @ rest) = h1 @ rest" "h1 \<notin> {[], ''/''}"
    and "prefix ''/'' (h2 @ rest)" "path_clean (h2 @ rest) = h2 @ rest" "h2 \<notin> {[], ''/''}"
    and "ensureDataDir env (with_dir (h1 @ rest) cfg) = None" "ensureDataDir env (with_dir (h2 @ rest) cfg) = None"
  shows "doctor_report env version commit (newRedactor (env\<lparr>ce_home := Some h1\<rparr>) True) (with_dir (h1 @ rest) cfg) =
    doctor_report env version commit (newRedactor (env\<lparr>ce_home := Some h2\<rparr>) True) (with_dir (h2 @ rest) cfg)"
proof -
  have r: "newRedactor (env\<lparr>ce_home := Some h\<rparr>) True = h" if "h \<notin> {[], ''/''}" for h
    using that by (simp add: newRedactor_def)
  show ?thesis
    unfolding doctor_report_def Let_def r[OF assms(3)] r[OF assms(6)] assms(7,8)
    by (simp add: config_rows_def redact_below[OF assms(1-3)] redact_below[OF assms(4-6)] providers_off_def
      provider_rows_def)
qed

definition demo_cli :: cli_env where
  "demo_cli = \<lparr>ce_load = demo_load_env, ce_home = Some ''/home/al'', ce_mkdir = (\<lambda>_. None),
     ce_write = (\<lambda>_. None), ce_remove = (\<lambda>_. None), ce_look_path = Map.empty, ce_tool_output = (\<lambda>_. []),
     ce_goos = ''linux''\<rparr>"

lemma redacted_report_hides_home_witness:
  "doctor_report demo_cli ''dev'' ''none'' (newRedactor (demo_cli\<lparr>ce_home := Some ''/home/al''\<rparr>) True)
     (with_dir (''/home/al'' @ ''/data'') Default) =
   doctor_report demo_cli ''dev'' ''none'' (newRedactor (demo_cli\<lparr>ce_home := Some ''/root''\<rparr>) True)
     (with_dir (''/root'' @ ''/data'') Default)"
proof -
  have "prefix ''/'' (''/home/al'' @ ''/data'')" "path_clean (''/home/al'' @ ''/data'') = ''/home/al'' @ ''/data''"
    "''/home/al'' \<notin> {[], ''/''}" "prefix ''/'' (''/root'' @ ''/data'')"
    "path_clean (''/root'' @ ''/data'') = ''/root'' @ ''/data''" "''/root'' \<notin> {[], ''/''}"
    by code_simp+
  moreover have "ensureDataDir demo_cli cfg = None" for cfg
    by (simp add: ensureDataDir_def demo_cli_def Let_def)
  ultimately show ?thesis by (intro redacted_report_hides_home)
qed

text \<open>When the directory cannot be created or written the note beside it names it in full, redacted or
  not.\<close>

lemma redacted_report_leaks_on_failure:
  assumes "ce_mkdir env dir = Some msg"
  shows "\<exists>rows. Table ''Configuration'' rows \<in> set (fst (doctor_report env version commit r (with_dir dir cfg))) \<and>
    (''NOT WRITABLE: create '' @ dir @ '': '' @ msg) \<in> set (rows ! 0)"
  using assms by (simp add: doctor_report_def Let_def config_rows_def ensureDataDir_def)

text \<open>The home directory is cut off without regard to where a name ends.\<close>

lemma redact_cuts_names: "redact_path ''/home/al'' ''/home/alice/x'' = ''~ice/x''"
  by code_simp

end
