(* ===== verification/Serve.thy ===== *)
theory Serve
  imports Cli Instance
begin

text \<open>
  \<open>cmdServe\<close>, \<open>sweepSessions\<close>, \<open>run\<close> and \<open>exitCode\<close> of \<open>cmd/manualbox/main.go\<close>: what the server
  process acquires on its way up and gives back on its way down. What its goroutines do while it
  runs, a run of \<open>Instance\<close>, is the function \<open>se_running\<close> of the configuration and of the state they
  share. \<open>se_group\<close> lists what the four goroutines of the group return, in the order they finish.
\<close>

subsection \<open>The session sweeper\<close>

text \<open>One environment per sweep, the first at startup and one per tick.\<close>

definition sweepSessions :: "callenv list \<Rightarrow> auth_tables \<Rightarrow> auth_tables" where
  "sweepSessions envs d = foldl (\<lambda>d env. snd (SweepExpiredSessions env d)) d envs"

subsection \<open>Serving\<close>

record serve_env =
  se_cpus :: nat
  se_open_fails :: "open_step \<Rightarrow> bool"
  se_goose :: goose
  se_close_fails :: "pool_role \<Rightarrow> bool"
  se_abs :: "string option"
  se_mkdir1 :: "os_error option"
  se_mkdir2 :: "os_error option"
  se_listing :: "os_error + string list"
  se_unremovable :: "string \<Rightarrow> bool"
  se_running :: "config \<Rightarrow> world \<Rightarrow> world"
  se_group :: "string option list"

record process =
  pr_fs :: fsys
  pr_auth :: auth_tables
  pr_jobs :: jobs_table
  pr_pools :: "pool_role set"
  pr_queue :: "queue option"

text \<open>\<open>errgroup.Group.Wait\<close>: the first error any of the goroutines returned.\<close>

definition group_wait :: "string option list \<Rightarrow> string option" where
  "group_wait rs = (case List.map_filter id rs of [] \<Rightarrow> None | e # _ \<Rightarrow> Some e)"

text \<open>Which steps of opening the database fail: the migration is \<open>migrate\<close>.\<close>

definition open_fails :: "serve_env \<Rightarrow> open_step \<Rightarrow> bool" where
  "open_fails se = (se_open_fails se)(Migrate := migrate (se_goose se) \<noteq> None)"

text \<open>The part after the database is open; its deferred \<open>Close\<close> runs on every way out.\<close>

definition serve_opened ::
  "serve_env \<Rightarrow> config \<Rightarrow> process \<Rightarrow> cli_error option \<times> process" where
  "serve_opened se cfg pr =
     (case New_store (BlobDir cfg) (se_abs se) (se_mkdir1 se) (se_mkdir2 se) (pr_fs pr) of
        (Inl e, fs) \<Rightarrow> (Some (StoreFailed e), pr\<lparr>pr_fs := fs\<rparr>)
      | (Inr rt, fs) \<Rightarrow>
          let fs' = snd (CleanTemp (se_listing se) (se_unremovable se) rt fs);
              q = NewQueue (pr_jobs pr);
              w = se_running se cfg \<lparr>w_auth = pr_auth pr, w_queue = q, w_log = []\<rparr>;
              q' = (w_queue w)\<lparr>q_bus := Close (q_bus (w_queue w))\<rparr>
          in (map_option ServeFailed (group_wait (se_group se)),
              pr\<lparr>pr_fs := fs', pr_auth := w_auth w,
                 pr_jobs := q_table (w_queue w), pr_queue := Some q'\<rparr>))"

definition cmdServe ::
  "cli_env \<Rightarrow> serve_env \<Rightarrow> string list \<Rightarrow> process \<Rightarrow> printed list \<times> cli_error option \<times> process" where
  "cmdServe env se args pr =
     (case loadConfig env args of
        Inl (FlagFailed e) \<Rightarrow> ([FlagMessage e], Some (FlagFailed e), pr)
      | Inl e \<Rightarrow> ([], Some e, pr)
      | Inr cfg \<Rightarrow>
          (case ensureDataDir env cfg of
             Some m \<Rightarrow> ([], Some (DataDirError m), pr)
           | None \<Rightarrow>
               (case Open_db (se_cpus se) (open_fails se)
                   \<lparr>do_path = DBPath cfg, do_max_readers = 0, do_busy_timeout = 5 * second\<rparr> of
                  (Inl e, pools) \<Rightarrow> ([], Some (OpenDbFailed e), pr\<lparr>pr_pools := pr_pools pr \<union> pools\<rparr>)
                | (Inr d, pools) \<Rightarrow>
                    (case serve_opened se cfg (pr\<lparr>pr_pools := pr_pools pr \<union> pools\<rparr>) of
                       (e, pr') \<Rightarrow>
                         ([], e, pr'\<lparr>pr_pools := snd (Close_db (se_close_fails se) d (pr_pools pr'))\<rparr>)))))"

subsection \<open>The commands\<close>

definition run ::
  "cli_env \<Rightarrow> serve_env \<Rightarrow> string \<Rightarrow> string \<Rightarrow> string list \<Rightarrow> process
   \<Rightarrow> printed list \<times> cli_error option \<times> process" where
  "run env se version commit args pr =
     (case args of
        [] \<Rightarrow> ([Usage], Some NoCommand, pr)
      | cmd # rest \<Rightarrow>
          if cmd = ''serve'' then cmdServe env se rest pr
          else if cmd = ''doctor'' then
            (case cmdDoctor env version commit rest of (out, e) \<Rightarrow> (out, e, pr))
          else if cmd = ''version'' \<or> cmd = ''--version'' \<or> cmd = ''-v'' then
            ([Line (version_line version commit)], None, pr)
          else if cmd = ''help'' \<or> cmd = ''--help'' \<or> cmd = ''-h'' then ([Usage], None, pr)
          else ([Usage], Some (UnknownCommand cmd), pr))"

definition exitCode ::
  "cli_env \<Rightarrow> serve_env \<Rightarrow> string \<Rightarrow> string \<Rightarrow> string list \<Rightarrow> process \<Rightarrow> nat \<times> printed list \<times> process" where
  "exitCode env se version commit args pr =
     (case run env se version commit args pr of
        (out, None, pr') \<Rightarrow> (0, out, pr')
      | (out, Some (FlagFailed HelpAsked), pr') \<Rightarrow> (0, out, pr')
      | (out, Some e, pr') \<Rightarrow> (1, out, pr'))"

subsection \<open>Runs of the instance\<close>

text \<open>The sweeper's loop is a run of sweeps.\<close>

lemma sweepSessions_steps:
  "inst_reach d p {Regular} s (s\<lparr>in_auth := sweepSessions envs (in_auth s)\<rparr>)"
proof (induction envs rule: rev_induct)
  case Nil
  then show ?case by (simp add: sweepSessions_def inst_reach.start)
next
  case (snoc env envs)
  let ?s = "s\<lparr>in_auth := sweepSessions envs (in_auth s)\<rparr>"
  have "inst_reach d p {Regular} s (?s\<lparr>in_auth := snd (SweepExpiredSessions env (in_auth ?s))\<rparr>)"
    by (rule inst_reach.move[OF snoc _ inst_step.sweep]) simp
  then show ?case by (simp add: sweepSessions_def)
qed

text \<open>
  What the goroutines do is what the instance can do: requests served with the configuration, the
  steps of the pool \<open>NewPool\<close> makes of it, and sweeps.
\<close>

definition runs_instance :: "serve_env \<Rightarrow> bool" where
  "runs_instance se \<longleftrightarrow> (\<forall>cfg a t. \<exists>d s. dp_config d = cfg \<and>
     inst_reach d (NewPool (cf_jobs cfg)) UNIV (booted a t) s \<and>
     world_of s = se_running se cfg \<lparr>w_auth = a, w_queue = NewQueue t, w_log = []\<rparr>)"

lemma runs_instance_ok:
  assumes "runs_instance se" "auth_ok a" "jobs_inv t"
    and "w = se_running se cfg \<lparr>w_auth = a, w_queue = NewQueue t, w_log = []\<rparr>"
  shows "auth_ok (w_auth w) \<and> queue_inv (w_queue w) \<and> accounts_kept a (w_auth w)"
proof -
  obtain d s where "inst_reach d (NewPool (cf_jobs cfg)) UNIV (booted a t) s" "world_of s = w"
    using assms(1,4) unfolding runs_instance_def by metis
  then show ?thesis
    using inst_reach_ok booted_ok[OF assms(2,3)] inst_reach_accounts by (fastforce simp: world_ok_def)
qed

subsection \<open>What the running server leaves behind\<close>

lemma group_wait_None: "group_wait rs = None \<longleftrightarrow> (\<forall>r \<in> set rs. r = None)"
proof -
  have "group_wait rs = None \<longleftrightarrow> List.map_filter id rs = []" by (simp add: group_wait_def split: list.split)
  also have "\<dots> \<longleftrightarrow> (\<forall>r \<in> set rs. r = None)" by (simp add: map_filter_Nil_iff)
  finally show ?thesis .
qed

lemma Open_db_pools:
  assumes "Open_db cpus fails opts = (x, pools)"
  shows "case x of Inl e \<Rightarrow> pools = {} | Inr d \<Rightarrow> snd (Close_db cf d pools) = {}"
  using assms by (auto simp: Open_db_def openPool_def Let_def Close_db_def split: if_splits)

lemma serve_opened_pools: "serve_opened se cfg pr = (e, pr') \<Longrightarrow> pr_pools pr' = pr_pools pr"
  by (auto simp: serve_opened_def Let_def split: prod.splits sum.splits)

lemma closed_broker: "broker_inv b \<Longrightarrow> br_closed (Close b) \<and> Subscribers (Close b) = 0"
  using Close_eq[of b] by (cases "br_closed b") (auto simp: Close_def Subscribers_def broker_inv_def)

lemma serve_opened_data:
  assumes "serve_opened se cfg pr = (e, pr')" "runs_instance se" "auth_ok (pr_auth pr)" "jobs_inv (pr_jobs pr)"
  shows "auth_ok (pr_auth pr') \<and> jobs_inv (pr_jobs pr') \<and> (pr_queue pr = None \<longrightarrow>
    (case pr_queue pr' of None \<Rightarrow> pr_auth pr' = pr_auth pr \<and> pr_jobs pr' = pr_jobs pr
     | Some q \<Rightarrow> br_closed (q_bus q) \<and> Subscribers (q_bus q) = 0 \<and> \<not> br_panic (q_bus q) \<and>
         pr_jobs pr' = q_table q \<and> accounts_kept (pr_auth pr) (pr_auth pr') \<and>
         (e = None \<longleftrightarrow> (\<forall>r \<in> set (se_group se). r = None))))"
proof (cases "New_store (BlobDir cfg) (se_abs se) (se_mkdir1 se) (se_mkdir2 se) (pr_fs pr)")
  case (Pair x fs)
  let ?w = "se_running se cfg \<lparr>w_auth = pr_auth pr, w_queue = NewQueue (pr_jobs pr), w_log = []\<rparr>"
  have w: "auth_ok (w_auth ?w)" "queue_inv (w_queue ?w)" "accounts_kept (pr_auth pr) (w_auth ?w)"
    using runs_instance_ok[OF assms(2-4)] by simp_all
  then have b: "broker_inv (q_bus (w_queue ?w))" "jobs_inv (q_table (w_queue ?w))" by auto
  have c: "br_closed (Close (q_bus (w_queue ?w))) \<and> Subscribers (Close (q_bus (w_queue ?w))) = 0 \<and>
      \<not> br_panic (Close (q_bus (w_queue ?w)))"
    using closed_broker[OF b(1)] broker_invD(2)[OF Close_inv[OF b(1)]] by simp
  show ?thesis
  proof (cases x)
    case (Inl er)
    then show ?thesis using assms Pair by (auto simp: serve_opened_def split: option.split)
  next
    case (Inr rt)
    then have "e = map_option ServeFailed (group_wait (se_group se))"
      "pr_queue pr' = Some ((w_queue ?w)\<lparr>q_bus := Close (q_bus (w_queue ?w))\<rparr>)"
      "pr_auth pr' = w_auth ?w" "pr_jobs pr' = q_table (w_queue ?w)"
      using assms(1) Pair by (auto simp: serve_opened_def Let_def)
    then show ?thesis using w b(2) c group_wait_None[of "se_group se"] by simp
  qed
qed

subsection \<open>Properties\<close>

text \<open>C19. The server process gives everything back: on whatever way \<open>serve\<close> ends, a bad flag, a bad
  configuration, a directory that cannot be written, a database or a store that does not open, or
  a shutdown after serving, no connection pool is left open; when it has served, the event broker
  is closed with no subscriber left, the stored accounts and jobs keep their invariants, no
  account is gone, and the command succeeds exactly if every goroutine did. It serves only with a usable configuration and
  a writable directory, and otherwise the stored data is untouched.\<close>

theorem serve_gives_everything_back:
  assumes "cmdServe env se args pr = (out, e, pr')" "pr_pools pr = {}" "pr_queue pr = None"
    and "runs_instance se" "auth_ok (pr_auth pr)" "jobs_inv (pr_jobs pr)"
  shows "pr_pools pr' = {} \<and> auth_ok (pr_auth pr') \<and> jobs_inv (pr_jobs pr') \<and>
    (case pr_queue pr' of
       None \<Rightarrow> e \<noteq> None \<and> pr_auth pr' = pr_auth pr \<and> pr_jobs pr' = pr_jobs pr
     | Some q \<Rightarrow> br_closed (q_bus q) \<and> Subscribers (q_bus q) = 0 \<and> \<not> br_panic (q_bus q) \<and>
         pr_jobs pr' = q_table q \<and> accounts_kept (pr_auth pr) (pr_auth pr') \<and>
         (e = None \<longleftrightarrow> (\<forall>r \<in> set (se_group se). r = None)) \<and>
         (\<exists>cfg. loadConfig env args = Inr cfg \<and> ensureDataDir env cfg = None))"
proof -
  consider (early) "e \<noteq> None" "pr' = pr"
    | (noopen) cfg er pools where "Open_db (se_cpus se) (open_fails se)
        \<lparr>do_path = DBPath cfg, do_max_readers = 0, do_busy_timeout = 5 * second\<rparr> = (Inl er, pools)"
        "e \<noteq> None" "pr' = pr\<lparr>pr_pools := pools\<rparr>"
    | (opened) cfg d pools pr1 where "loadConfig env args = Inr cfg" "ensureDataDir env cfg = None"
        "Open_db (se_cpus se) (open_fails se)
          \<lparr>do_path = DBPath cfg, do_max_readers = 0, do_busy_timeout = 5 * second\<rparr> = (Inr d, pools)"
        "serve_opened se cfg (pr\<lparr>pr_pools := pools\<rparr>) = (e, pr1)"
        "pr' = pr1\<lparr>pr_pools := snd (Close_db (se_close_fails se) d (pr_pools pr1))\<rparr>"
    using assms(1,2)
    by (auto simp: cmdServe_def split: sum.splits option.splits prod.splits cli_error.splits)
  then show ?thesis
  proof cases
    case early
    then show ?thesis using assms by simp
  next
    case noopen
    then show ?thesis using assms Open_db_pools[OF noopen(1), of "\<lambda>_. False"] by simp
  next
    case (opened cfg d pools pr1)
    have s: "auth_ok (pr_auth pr1) \<and> jobs_inv (pr_jobs pr1) \<and>
        (case pr_queue pr1 of None \<Rightarrow> pr_auth pr1 = pr_auth pr \<and> pr_jobs pr1 = pr_jobs pr
         | Some q \<Rightarrow> br_closed (q_bus q) \<and> Subscribers (q_bus q) = 0 \<and> \<not> br_panic (q_bus q) \<and>
           pr_jobs pr1 = q_table q \<and> accounts_kept (pr_auth pr) (pr_auth pr1) \<and>
           (e = None \<longleftrightarrow> (\<forall>r \<in> set (se_group se). r = None)))"
      using serve_opened_data[OF opened(4) assms(4)] assms(3,5,6) by (simp cong del: option.case_cong_weak)
    have "pr_queue pr1 = None \<Longrightarrow> e \<noteq> None"
      using opened(4) by (auto simp: serve_opened_def Let_def split: sum.splits prod.splits)
    moreover have "snd (Close_db (se_close_fails se) d (pr_pools pr1)) = {}"
      using Open_db_pools[OF opened(3), of "se_close_fails se"] serve_opened_pools[OF opened(4)] by simp
    ultimately show ?thesis using s opened(1,2,5) by (auto split: option.splits)
  qed
qed

definition demo_serve :: serve_env where
  "demo_serve = \<lparr>se_cpus = 2, se_open_fails = (\<lambda>_. False), se_goose = demo_goose, se_close_fails = (\<lambda>_. False), se_abs = Some ''/d/blobs'',
     se_mkdir1 = None, se_mkdir2 = None, se_listing = Inr [], se_unremovable = (\<lambda>_. False),
     se_running = (\<lambda>cfg w. snd (serve (demo_deps cfg) demo_calls demo_chi Map.empty demo_get w)), se_group = [None, None, None, None]\<rparr>"

definition demo_process :: process where
  "demo_process = \<lparr>pr_fs = empty_fs, pr_auth = demo_auth [demo_session], pr_jobs = [demo_row], pr_pools = {},
     pr_queue = None\<rparr>"

text \<open>In the example the server comes up with the built-in configuration, serves one request and shuts down.\<close>

lemma demo_served:
  "\<exists>e pr'. cmdServe demo_cli demo_serve [] demo_process = ([], e, pr') \<and> pr_queue pr' \<noteq> None"
proof -
  obtain cfg where "Load demo_load_env [] = (cfg, None)" and d: "sc_data_dir (cf_server cfg) = ''/srv/data''"
    using Default_loads by auto
  then have l: "loadConfig demo_cli [] = Inr cfg"
    by (simp add: loadConfig_def loadConfigWithFlags_def demo_cli_def)
  have w: "ensureDataDir demo_cli cfg = None" by (simp add: ensureDataDir_def demo_cli_def Let_def)
  have "path_join [''/srv/data'', ''manualbox.db''] = ''/srv/data/manualbox.db''"
    "path_join [''/srv/data'', ''blobs''] = ''/srv/data/blobs''"
    by code_simp+
  then have "DBPath cfg \<noteq> []" "BlobDir cfg \<noteq> []" by (simp_all add: DBPath_def BlobDir_def d)
  moreover from this obtain x pools where "Open_db (se_cpus demo_serve) (open_fails demo_serve)
      \<lparr>do_path = DBPath cfg, do_max_readers = 0, do_busy_timeout = 5 * second\<rparr> = (Inr x, pools)"
    by (cases "DBPath cfg = '':memory:''") (simp_all add: Open_db_def open_fails_def demo_serve_def demo_goose_def migrate_def Let_def)
  ultimately show ?thesis
    unfolding cmdServe_def l sum.case w option.case
    by (simp add: serve_opened_def New_store_def demo_serve_def Let_def split: prod.split)
qed

lemma demo_runs: "runs_instance demo_serve"
  unfolding runs_instance_def
proof (intro allI)
  fix cfg a t
  let ?s = "booted a t"
  let ?s' = "with_world (snd (serve (demo_deps cfg) demo_calls demo_chi Map.empty demo_get (world_of ?s))) ?s"
  have "inst_reach (demo_deps cfg) (NewPool (cf_jobs cfg)) UNIV ?s ?s'"
    by (rule inst_reach.move[OF inst_reach.start _ inst_step.request]) simp
  moreover have "world_of ?s' = se_running demo_serve cfg \<lparr>w_auth = a, w_queue = NewQueue t, w_log = []\<rparr>"
    by (simp add: demo_serve_def)
  ultimately show "\<exists>d s. dp_config d = cfg \<and> inst_reach d (NewPool (cf_jobs cfg)) UNIV ?s s \<and>
      world_of s = se_running demo_serve cfg \<lparr>w_auth = a, w_queue = NewQueue t, w_log = []\<rparr>"
    using demo_deps_sel(1) by blast
qed

lemma serve_gives_everything_back_witness:
  "\<exists>e pr'. cmdServe demo_cli demo_serve [] demo_process = ([], e, pr') \<and> e = None \<and> pr_pools pr' = {} \<and>
     auth_ok (pr_auth pr') \<and> jobs_inv (pr_jobs pr') \<and> pr_queue pr' \<noteq> None"
proof -
  obtain e pr' where c: "cmdServe demo_cli demo_serve [] demo_process = ([], e, pr')" "pr_queue pr' \<noteq> None"
    using demo_served by blast
  have "runs_instance demo_serve" by (rule demo_runs)
  moreover have "pr_pools demo_process = {}" "pr_queue demo_process = None" "auth_ok (pr_auth demo_process)"
    "jobs_inv (pr_jobs demo_process)"
    by (simp_all add: demo_process_def demo_inv)
  moreover have "\<forall>r \<in> set (se_group demo_serve). r = None" by (simp add: demo_serve_def)
  ultimately show ?thesis using serve_gives_everything_back[OF c(1)] c by (auto split: option.splits)
qed

end
