(* ===== verification/Spec2Isabelle.thy ===== *)
theory Spec2Isabelle
  imports Prelude GoTime GoStrings GoPath GoUrl GoFloat JobsTable Broker JobQueue ConfigTypes JobPool
    JobSystem JobLife Lease Drain Sha256 Store Base64 Password AuthTables Db Auth Ids AesGcm Keyring SmallTables
    Config Extern Http Frontend Middleware Handlers JobStream EventText Routes Contract Api Instance
    Fixture Cli Serve
begin

text \<open>
  \<^bold>\<open>manualbox, verified.\<close>

  manualbox is a self-hosted server, one Go binary over one SQLite file. Its parts are a job queue
  with a pool of workers (\<open>internal/jobs\<close>), a content-addressed store for originals
  (\<open>internal/store\<close>), accounts and sessions (\<open>internal/auth\<close>), a key ring for data encrypted at rest
  (\<open>internal/keyring\<close>), the generated query layer and the schema (\<open>internal/db\<close>), identifiers
  (\<open>internal/id\<close>), configuration and logging (\<open>internal/config\<close>, \<open>internal/logging\<close>), the probing of
  optional tools (\<open>internal/extern\<close>), the HTTP API with the embedded front end (\<open>internal/api\<close>,
  \<open>internal/frontend\<close>), the commands (\<open>cmd/manualbox\<close>) and the fixtures of the tests
  (\<open>internal/fixture\<close>). \<open>cmdServe\<close> opens the database and the store, makes the auth service, the
  queue and the pool, and runs the workers, a session sweeper and the HTTP server until it is told
  to stop. A request passes the middleware of \<open>internal/api\<close>, which asks the auth service who sends
  it, and reaches a handler, which calls the auth service or the queue. The queue stores jobs in
  the \<open>jobs\<close> table and announces every change through the event broker, from which the event
  streams of the API read. The workers claim jobs from the same table.

  \<^bold>\<open>How the code is modelled.\<close> Every operation is a function of the state it reads and the inputs of
  the call, and gives back its result and the state it leaves; a failed call is a value of an error
  type or of \<open>option\<close>. Clock readings and failures of statements are part of the call's
  environment: \<open>callenv\<close> (\<open>GoTime\<close>, \<open>Prelude\<close>) gives the time and the failure of the \<open>n\<close>-th statement
  of the call, so that every error path is a branch. A \<open>time.Time\<close> or \<open>time.Duration\<close> is an integer
  of nanoseconds, a stored timestamp one of milliseconds; a Go string is a list of bytes; a table is
  the list of its rows in insertion order, with the constraints of the schema checked by each
  writing statement. Concurrency is the interleaving of the atomic steps that the code has: one
  statement, one publication, one call of a handler.

  \<^bold>\<open>The theories.\<close>

    \<^item> \<open>Prelude\<close>: lists, options and keyed updates shared by all tables; the locale \<open>keyed_table\<close>, the
      contract of a table with a unique key, interpreted in \<open>JobsTable\<close>, \<open>AuthTables\<close> and
      \<open>SmallTables\<close> on the model's tables and keys. \<open>GoTime\<close> (\<open>db/time.go\<close>), \<open>GoStrings\<close>, \<open>GoPath\<close>,
      \<open>GoUrl\<close>, \<open>GoFloat\<close>, \<open>Http\<close>: what the code uses of Go's standard library.
    \<^item> \<open>JobsTable\<close> (\<open>db/gen/jobs.sql.go\<close> and the \<open>jobs\<close> table of the schema): one definition per statement;
      lemmas on which rows each may change and that it keeps \<open>jobs_inv\<close>.
    \<^item> \<open>Broker\<close> (\<open>jobs/broker.go\<close>): channels as cells of a heap with 32 places, so that a send on a closed
      channel is visible as a panic; the locale \<open>event_bus\<close> says what publishing in a row gives a
      subscriber and is interpreted on the broker.
    \<^item> \<open>JobQueue\<close> (\<open>jobs/jobs.go\<close>, \<open>jobs/queue.go\<close>), \<open>JobPool\<close> (\<open>jobs/worker.go\<close>: claiming, executing,
      settling, reporting, leases, backoff), \<open>Drain\<close> (the worker's loop), \<open>JobSystem\<close> (the process with all
      its goroutines as the step relation \<open>sys_step\<close>, its reachable states and their invariants), \<open>JobLife\<close>
      (what each step does to the row of one job: the life of a job as the relation \<open>life\<close>, and
      exclusive running as the invariant \<open>exclusive\<close>), \<open>Lease\<close> (why a living worker's job is not taken
      away: renewing and reclaiming side by side in time).
    \<^item> \<open>Sha256\<close>, \<open>Base64\<close>, \<open>AesGcm\<close>: the primitives, computed, not assumed. The locale \<open>stream_aead\<close> states
      what sealing and opening with a key stream and a tag give and is interpreted on AES-GCM.
    \<^item> \<open>Store\<close> (\<open>store/store.go\<close>): a file system with failing calls, other writers between two of them,
      and the list of file systems an upload passes through, so that a crash anywhere is a state.
    \<^item> \<open>Password\<close> (\<open>auth/password.go\<close>), \<open>AuthTables\<close> (\<open>db/gen/users.sql.go\<close>, \<open>db/gen/sessions.sql.go\<close>), \<open>Db\<close>
      (\<open>db/db.go\<close>: transactions, opening and closing), \<open>Auth\<close> (\<open>auth/auth.go\<close>): setup, sign-in, sessions,
      password changes. The locale \<open>auth_statements\<close> shows that what the eight statements of the
      service keep, every operation keeps; it is interpreted with the tables' constraints and with
      the lasting part of the accounts.
    \<^item> \<open>Ids\<close> (\<open>id/id.go\<close>), \<open>Keyring\<close> (\<open>keyring/keyring.go\<close>: wraps, unlocking, saving, encryption of values).
    \<^item> \<open>SmallTables\<close> (\<open>db/gen/settings.sql.go\<close>, \<open>db/gen/blobs.sql.go\<close>), with a refinement of the settings
      table to a map.
    \<^item> \<open>ConfigTypes\<close>, \<open>Config\<close> (\<open>config/config.go\<close>, \<open>config/secret.go\<close>, \<open>logging/logging.go\<close>), \<open>Extern\<close>
      (\<open>extern/extern.go\<close>), \<open>Frontend\<close> (\<open>frontend/frontend.go\<close>).
    \<^item> \<open>Middleware\<close> (\<open>api/middleware.go\<close>), \<open>Handlers\<close>, \<open>JobStream\<close> and \<open>EventText\<close> (\<open>api/handlers.go\<close>), \<open>Routes\<close>
      (\<open>Server.routes\<close> of \<open>api/api.go\<close>): a handler is a function from a request and the \<open>world\<close> (tables,
      queue, log) to an outcome and the world after it; whether code it runs panics, and when, is part
      of the request's input. \<open>EventText\<close> writes the frames of an event
      stream as bytes, with JSON's escaping, and reads them back as a browser does. \<open>Contract\<close> states what the HTTP layer needs
      of the services it calls as the locale \<open>service_contract\<close>; \<open>Api\<close> is what the whole stack promises.
    \<^item> \<open>Instance\<close>: requests, workers, sweeps and the shutdown side by side as the step relation
      \<open>inst_step\<close>, which composes \<open>serve\<close> with \<open>sys_step\<close> over the shared queue. A request is one step
      there, but for the setup, which is two, and the event streams, whose subscribing, reading and
      leaving are steps of \<open>sys_step\<close>.
    \<^item> \<open>Fixture\<close> (\<open>fixture/fixture.go\<close>), \<open>Cli\<close> and \<open>Serve\<close> (\<open>cmd/manualbox/main.go\<close>).

  \<^bold>\<open>What is shown.\<close> Jobs: as long as no living worker lets its lease expire, no two workers run one job,
  whatever is reclaimed and however often the process dies, every job moves along \<open>life\<close>, and one that
  succeeded or failed stays so until it is purged; a lease that is renewed at the pool's interval
  does not expire even if two renewals in a row fail; a claim takes the first runnable job; a run is settled as its result says; retries are bounded and so is their
  delay; a prompt worker's draining ends; expired leases, and only they, are taken back. Uploads and fetches are
  atomic and verified at every moment. Sign-in, sessions and password changes do what they say, on
  every branch; setup happens once. A key ring opens with each of its secrets, with others only by a
  forgery of AES-GCM, and is saved atomically. The API answers every request, panics of its handlers included, lets nobody
  past \<open>requireUser\<close> without a live session, changes nothing on cross-site requests and nothing but the
  age of the session on safe ones, ignores a proxy's headers unless told, and reveals no key; no text in a job can forge an event of the stream. The
  front end hands out nothing but the build. A running instance, requests and workers
  interleaved in any way, keeps all invariants and loses no account; the statements on exclusive running and the life
  of jobs are about this composed system. The server gives back what it acquired on whatever way it ends. Three theorems are about what the code does not prevent:
  a cancelled job is overwritten by its worker, a job that kills its process is run for ever, and
  two overlapping setups make two administrators.

  \<^bold>\<open>Bounds and loops.\<close> All recursion is structural or has a measure, but for \<open>drain\<close>, the loop of a worker,
  which is a partial function; \<open>worker_drains_the_queue\<close> shows that it returns. No fuel is used.
  Loops that run as long as the process (the workers over all time, renewal, reclaiming, sweeping,
  the event stream) are step relations or functions of the finite list of what happens. Integers
  that the code keeps in 64 bits are mathematical integers where the constraints of the schema
  or the validation bound them; durations of the backoff, where an overflow is conceivable, are
  shown to stay below ten minutes; SHA-256 and AES work on words.

  \<^bold>\<open>Parameters.\<close> Code outside the repository is an argument of the definitions that use it: Argon2id
  (\<open>argon\<close>), \<open>mail.ParseAddress\<close>, the ULID package, the YAML decoder, the environment parser and the
  language library (\<open>load_env\<close>), go-chi's matching of patterns (\<open>chi\<close>), the handlers registered with
  the pool, the printing of numbers and times (\<open>num\<close> and \<open>tm\<close>
  of \<open>EventText\<close>), the operating system (failures of calls, the search path, the home directory), and the
  network. Hypotheses on them are those of \<open>router_ok\<close>, \<open>ulid_laws\<close>, that a number or a time is printed on
  one line, and, for Argon2id, the absence of a
  collision, where a statement needs it; each such theorem has a witness with a concrete function.

  \<^bold>\<open>Not modelled.\<close> The text of the log but for one line per request; \<open>log/slog\<close>; the migrations, which
  goose runs, and the schema version, which is its table; SQLite itself beyond the statements'
  meaning and the schema's constraints; the sleeping of idle workers and timers; JSON's rendering
  of all answers but the event stream's, \<open>tabwriter\<close>'s padding and the usage text; chi's request identifiers, compression and time limit, which touch no state; the plumbing
  \<open>db/gen/db.go\<close> and \<open>db/gen/querier.go\<close>; the TypeScript of the web application; build and deployment.
\<close>

end
